(* ===== verification/Prelude.thy ===== *)
theory Prelude
  imports Main "HOL-Library.Word"
begin

section \<open>Shared vocabulary\<close>

text \<open>
  What every component uses: the machine types, the outcomes of code that may raise
  (\<open>dynabridge/error_policy.h\<close>), generic facts about lists, and the interface of a state
  machine with an invariant.
\<close>

unbundle bit_operations_syntax

subsection \<open>Machine types\<close>

type_synonym byte = "8 word"
type_synonym u32 = "32 word"
type_synonym u64 = "64 word"

text \<open>A \<open>std::string\<close> holds bytes; embedded NUL bytes are ordinary content.\<close>

type_synonym bytes = "byte list"

text \<open>The bytes of a string literal of the source (all of them are ASCII).\<close>

definition ascii :: "string \<Rightarrow> bytes" where
  "ascii s = map of_char s"

lemma length_ascii [simp]: "length (ascii s) = length s"
  by (simp add: ascii_def)

lemma of_char_byte_inject: "(of_char c :: byte) = of_char d \<longleftrightarrow> c = d"
proof
  assume e: "(of_char c :: byte) = of_char d"
  have u: "unat (of_char c :: byte) = of_char c" for c :: char
  proof -
    have "(of_char c :: byte) = of_nat (of_char c)" by (cases c) (simp add: of_char_def)
    moreover have "(of_char c :: nat) < 2 ^ LENGTH(8)" by (cases c) (simp add: of_char_def)
    ultimately show ?thesis by (simp add: unat_of_nat take_bit_nat_eq_self)
  qed
  from e have "(of_char c :: nat) = of_char d" by (metis u)
  then show "c = d" by simp
qed simp

lemma ascii_inject [simp]: "ascii s = ascii t \<longleftrightarrow> s = t"
  by (simp add: ascii_def inj_map_eq_map inj_on_def of_char_byte_inject)

text \<open>A C string ends at its first NUL byte.\<close>

definition c_str :: "bytes \<Rightarrow> bytes" where
  "c_str name = takeWhile (\<lambda>c. c \<noteq> 0) name"

lemma c_str_ascii: "0 \<notin> set (ascii s) \<Longrightarrow> c_str (ascii s) = ascii s"
  unfolding c_str_def by (rule takeWhile_eq_all_conv [THEN iffD2]) blast

text \<open>Limits of the fixed-width types of the source; \<open>std::size_t\<close> has 64 bits.\<close>

definition uint32_max :: nat where
  "uint32_max = 2 ^ 32 - 1"

definition size_max :: nat where
  "size_max = 2 ^ 64 - 1"

subsection \<open>Outcomes of code that may raise\<close>

text \<open>
  The exception classes the source throws, each with its message. \<open>NativeError\<close> is a
  \<open>std::exception\<close> of user code, \<open>UnknownException\<close> anything that a
  \<open>catch (...)\<close> clause catches. A \<open>PythonError\<close> owns the type, the value and the
  traceback of a Python exception, each an object (its address) or null.
\<close>

type_synonym py_exc = "nat option \<times> nat option \<times> nat option"

datatype cpp_exn =
    BadConversion string
  | RuntimeError string
  | ProtocolError string
  | RemoteError bytes
  | LengthError string
  | PythonError string "py_exc"
  | NativeError bytes
  | UnknownException

text \<open>The message of an exception, and \<open>std::exception::what()\<close>, which is a C string.\<close>

fun exn_message :: "cpp_exn \<Rightarrow> bytes" where
  "exn_message (BadConversion m) = ascii m"
| "exn_message (RuntimeError m) = ascii m"
| "exn_message (ProtocolError m) = ascii m"
| "exn_message (RemoteError m) = m"
| "exn_message (LengthError m) = ascii m"
| "exn_message (PythonError m exc) = ascii m"
| "exn_message (NativeError m) = m"
| "exn_message UnknownException = []"

definition what :: "cpp_exn \<Rightarrow> bytes" where
  "what e = c_str (exn_message e)"

datatype 'a outcome =
    Return (returned: 'a)
  | Throw cpp_exn
  | Abort

text \<open>
  \<open>DYNABRIDGE_RAISE\<close>: with compiler exceptions (first argument true) the error is thrown,
  without them the program asserts and aborts.
\<close>

definition raise_error :: "bool \<Rightarrow> cpp_exn \<Rightarrow> 'a outcome" where
  "raise_error exceptions e = (if exceptions then Throw e else Abort)"

lemma raise_error_neq_Return [simp]:
  "raise_error ex e \<noteq> Return x" "Return x \<noteq> raise_error ex e"
  by (simp_all add: raise_error_def)

definition obind :: "'a outcome \<Rightarrow> ('a \<Rightarrow> 'b outcome) \<Rightarrow> 'b outcome" where
  "obind m f = (case m of Return x \<Rightarrow> f x | Throw e \<Rightarrow> Throw e | Abort \<Rightarrow> Abort)"

lemma obind_simps [simp]:
  "obind (Return x) f = f x"
  "obind (Throw e) f = Throw e"
  "obind Abort f = Abort"
  by (simp_all add: obind_def)

lemma obind_raise [simp]: "obind (raise_error ex e) f = raise_error ex e"
  by (simp add: raise_error_def)

lemma obind_eq_Return: "obind m f = Return y \<longleftrightarrow> (\<exists>x. m = Return x \<and> f x = Return y)"
  by (cases m) simp_all

text \<open>Running a raising step over a list, left to right, stopping at the first failure.\<close>

fun ofold :: "('s \<Rightarrow> 'a \<Rightarrow> 's outcome) \<Rightarrow> 's \<Rightarrow> 'a list \<Rightarrow> 's outcome" where
  "ofold f s [] = Return s"
| "ofold f s (x # xs) = obind (f s x) (\<lambda>s'. ofold f s' xs)"

lemma ofold_append: "ofold f s (xs @ ys) = obind (ofold f s xs) (\<lambda>s'. ofold f s' ys)"
proof (induction xs arbitrary: s)
  case Nil
  then show ?case by simp
next
  case (Cons x xs)
  then show ?case by (cases "f s x") simp_all
qed

subsection \<open>Maps that give each value once\<close>

lemma ran_drop:
  "inj_on m (dom m) \<Longrightarrow> m x = Some h \<Longrightarrow> ran (m(x := None)) = ran m - {h}"
proof -
  assume a: "inj_on m (dom m)" "m x = Some h"
  have "y \<noteq> x \<Longrightarrow> m y \<noteq> Some h" for y using a by (metis domI inj_onD)
  with a(2) show ?thesis by (auto simp: ran_def) (metis option.inject)
qed

lemma inj_upd_fresh:
  "inj_on m (dom m) \<Longrightarrow> h \<notin> ran m \<Longrightarrow> inj_on (m(x \<mapsto> h)) (dom (m(x \<mapsto> h)))"
  by (auto simp: inj_on_def ran_def dom_def)

lemma inj_drop: "inj_on m (dom m) \<Longrightarrow> inj_on (m(x := None)) (dom (m(x := None)))"
  by (auto simp: inj_on_def dom_def)

subsection \<open>State machines with an invariant\<close>

text \<open>The states a step relation reaches from its start states.\<close>

inductive reaches :: "('s \<Rightarrow> bool) \<Rightarrow> ('s \<Rightarrow> 's \<Rightarrow> bool) \<Rightarrow> 's \<Rightarrow> bool"
  for start :: "'s \<Rightarrow> bool" and step :: "'s \<Rightarrow> 's \<Rightarrow> bool" where
  reaches_start: "start s \<Longrightarrow> reaches start step s"
| reaches_step: "reaches start step s \<Longrightarrow> step s t \<Longrightarrow> reaches start step t"

text \<open>
  The contract of a state machine: its start states satisfy the invariant and every step
  keeps it. The clients get that every reachable state satisfies it, and that a stable
  property, once it holds, holds after any further steps.
\<close>

locale invariant_machine =
  fixes start :: "'s \<Rightarrow> bool"
    and step :: "'s \<Rightarrow> 's \<Rightarrow> bool"
    and inv :: "'s \<Rightarrow> bool"
  assumes start_inv: "start s \<Longrightarrow> inv s"
    and step_inv: "inv s \<Longrightarrow> step s t \<Longrightarrow> inv t"
begin

lemma reaches_inv: "reaches start step s \<Longrightarrow> inv s"
proof (induction rule: reaches.induct)
  case (reaches_start s)
  then show ?case by (rule start_inv)
next
  case (reaches_step s t)
  then show ?case by (blast intro: step_inv)
qed

lemma steps_inv: "step\<^sup>*\<^sup>* s t \<Longrightarrow> inv s \<Longrightarrow> inv t"
proof (induction rule: rtranclp_induct)
  case base
  then show ?case by simp
next
  case (step t u)
  then show ?case by (blast intro: step_inv)
qed

lemma stable_steps:
  assumes stable: "\<And>s t. inv s \<Longrightarrow> P s \<Longrightarrow> step s t \<Longrightarrow> P t"
    and "inv s" "P s" "step\<^sup>*\<^sup>* s t"
  shows "P t"
proof -
  from assms(4,2,3) have "inv t \<and> P t"
  proof (induction rule: rtranclp_induct)
    case base
    then show ?case by simp
  next
    case (step t u)
    then show ?case by (blast intro: step_inv stable)
  qed
  then show ?thesis ..
qed

lemma reaches_trans: "step\<^sup>*\<^sup>* s t \<Longrightarrow> reaches start step s \<Longrightarrow> reaches start step t"
proof (induction rule: rtranclp_induct)
  case base
  then show ?case by simp
next
  case (step t u)
  then show ?case by (blast intro: reaches.reaches_step)
qed

end

end
