(* ===== verification/RpcValue.thy ===== *)
theory RpcValue
  imports Prelude
begin

section \<open>RPC values\<close>

text \<open>
  \<open>rpc::value\<close> of \<open>dynabridge/backends/rpc.h\<close>: a tagged 64-bit payload with an owned or
  borrowed string. A \<open>double\<close> is its bit pattern, since the class only ever copies its bits
  (\<open>memcpy\<close>); a moved-from \<open>std::string\<close> is empty.
\<close>

datatype value_kind =
    Undefined | SignedInteger | UnsignedInteger | Real | Boolean | String

text \<open>The enumerators have the underlying values 0 to 5.\<close>

fun kind_byte :: "value_kind \<Rightarrow> byte" where
  "kind_byte Undefined = 0"
| "kind_byte SignedInteger = 1"
| "kind_byte UnsignedInteger = 2"
| "kind_byte Real = 3"
| "kind_byte Boolean = 4"
| "kind_byte String = 5"

text \<open>
  \<open>static_cast<value_kind>(byte)\<close> followed by a \<open>switch\<close>: bytes that are no enumerator fall
  through every case.
\<close>

definition byte_kind :: "byte \<Rightarrow> value_kind option" where
  "byte_kind b =
     (if b = 0 then Some Undefined else if b = 1 then Some SignedInteger
      else if b = 2 then Some UnsignedInteger else if b = 3 then Some Real
      else if b = 4 then Some Boolean else if b = 5 then Some String else None)"

lemma byte_kind_kind_byte [simp]: "byte_kind (kind_byte k) = Some k"
  by (cases k) (simp_all add: byte_kind_def)

declare kind_byte.simps [simp del]

lemma byte_kind_SomeD: "byte_kind b = Some k \<Longrightarrow> b = kind_byte k"
  by (auto simp: byte_kind_def kind_byte.simps split: if_splits)

text \<open>
  The members of \<open>value\<close>. The borrowed pointer and size are the bytes they denote while the
  referent lives.
\<close>

record rpc_value =
  v_kind :: value_kind
  v_bits :: u64
  v_text :: bytes
  v_borrowed_data :: bytes
  v_borrowed :: bool

definition default_value :: rpc_value where
  "default_value = \<lparr>v_kind = Undefined, v_bits = 0, v_text = [], v_borrowed_data = [],
     v_borrowed = False\<rparr>"

subsection \<open>Factories\<close>

definition value_signed :: "64 word \<Rightarrow> rpc_value" where
  "value_signed number = default_value\<lparr>v_kind := SignedInteger, v_bits := number\<rparr>"

definition value_unsigned :: "u64 \<Rightarrow> rpc_value" where
  "value_unsigned number = default_value\<lparr>v_kind := UnsignedInteger, v_bits := number\<rparr>"

definition value_real :: "u64 \<Rightarrow> rpc_value" where
  "value_real number = default_value\<lparr>v_kind := Real, v_bits := number\<rparr>"

definition value_boolean :: "bool \<Rightarrow> rpc_value" where
  "value_boolean state = default_value\<lparr>v_kind := Boolean, v_bits := (if state then 1 else 0)\<rparr>"

definition value_string :: "bytes \<Rightarrow> rpc_value" where
  "value_string t = default_value\<lparr>v_kind := String, v_text := t\<rparr>"

definition value_borrowed_string :: "bytes \<Rightarrow> rpc_value" where
  "value_borrowed_string t =
     default_value\<lparr>v_kind := String, v_borrowed_data := t, v_borrowed := True\<rparr>"

lemmas value_factory_defs =
  value_signed_def value_unsigned_def value_real_def value_boolean_def value_string_def
  value_borrowed_string_def default_value_def

subsection \<open>Accessors\<close>

text \<open>\<open>as_signed\<close> reads the same 64 bits in two's complement: \<open>sint\<close> of the result.\<close>

definition as_signed :: "rpc_value \<Rightarrow> 64 word" where
  "as_signed v = v_bits v"

definition as_unsigned :: "rpc_value \<Rightarrow> u64" where
  "as_unsigned v = v_bits v"

definition as_real :: "rpc_value \<Rightarrow> u64" where
  "as_real v = v_bits v"

definition as_boolean :: "rpc_value \<Rightarrow> bool" where
  "as_boolean v \<longleftrightarrow> v_bits v \<noteq> 0"

definition string_data :: "rpc_value \<Rightarrow> bytes" where
  "string_data v = (if v_borrowed v then v_borrowed_data v else v_text v)"

definition string_size :: "rpc_value \<Rightarrow> nat" where
  "string_size v = (if v_borrowed v then length (v_borrowed_data v) else length (v_text v))"

definition copy_string :: "rpc_value \<Rightarrow> bytes" where
  "copy_string v = (if string_size v = 0 then [] else string_data v)"

text \<open>\<open>take_string\<close> moves an owned text out and copies a borrowed one.\<close>

definition take_string :: "rpc_value \<Rightarrow> bytes \<times> rpc_value" where
  "take_string v =
     (if v_borrowed v then (copy_string v, v) else (v_text v, v\<lparr>v_text := []\<rparr>))"

lemmas value_access_defs =
  as_signed_def as_unsigned_def as_real_def as_boolean_def

lemma string_size_eq [simp]: "string_size v = length (string_data v)"
  by (simp add: string_size_def string_data_def)

lemma copy_string_eq [simp]: "copy_string v = string_data v"
  by (simp add: copy_string_def)

lemma take_string_fst [simp]: "fst (take_string v) = string_data v"
  by (simp add: take_string_def string_data_def)

lemma take_string_kind [simp]: "v_kind (snd (take_string v)) = v_kind v"
  by (simp add: take_string_def)

lemma take_string_borrowed: "v_borrowed v \<Longrightarrow> snd (take_string v) = v"
  by (simp add: take_string_def)

lemma take_string_owned: "\<not> v_borrowed v \<Longrightarrow> string_data (snd (take_string v)) = []"
  by (simp add: take_string_def string_data_def)

lemma string_data_factories [simp]:
  "string_data (value_string t) = t"
  "string_data (value_borrowed_string t) = t"
  by (simp_all add: value_factory_defs string_data_def)

lemma kind_factories [simp]:
  "v_kind default_value = Undefined"
  "v_kind (value_signed n) = SignedInteger"
  "v_kind (value_unsigned n) = UnsignedInteger"
  "v_kind (value_real n) = Real"
  "v_kind (value_boolean b) = Boolean"
  "v_kind (value_string t) = String"
  "v_kind (value_borrowed_string t) = String"
  by (simp_all add: value_factory_defs)

lemma bits_factories [simp]:
  "v_bits (value_signed n) = n"
  "v_bits (value_unsigned n) = n"
  "v_bits (value_real n) = n"
  "v_bits (value_boolean b) = (if b then 1 else 0)"
  by (simp_all add: value_factory_defs)

subsection \<open>What a value means\<close>

text \<open>
  The abstract content of a value: what the receiver of a frame can observe. Two values with
  the same content differ only in who owns the string and in unused fields.
\<close>

datatype content =
    CUndefined
  | CSigned int
  | CUnsigned nat
  | CReal u64
  | CBoolean bool
  | CString bytes

definition content_of :: "rpc_value \<Rightarrow> content" where
  "content_of v =
     (case v_kind v of
        Undefined \<Rightarrow> CUndefined
      | SignedInteger \<Rightarrow> CSigned (sint (as_signed v))
      | UnsignedInteger \<Rightarrow> CUnsigned (unat (as_unsigned v))
      | Real \<Rightarrow> CReal (as_real v)
      | Boolean \<Rightarrow> CBoolean (as_boolean v)
      | String \<Rightarrow> CString (copy_string v))"

text \<open>The value with the same content that owns all of it, as a decoder builds it.\<close>

definition owned_value_of :: "rpc_value \<Rightarrow> rpc_value" where
  "owned_value_of v =
     (case v_kind v of
        Undefined \<Rightarrow> default_value
      | SignedInteger \<Rightarrow> value_signed (as_signed v)
      | UnsignedInteger \<Rightarrow> value_unsigned (as_unsigned v)
      | Real \<Rightarrow> value_real (as_real v)
      | Boolean \<Rightarrow> value_boolean (as_boolean v)
      | String \<Rightarrow> value_string (string_data v))"

lemma content_of_owned [simp]: "content_of (owned_value_of v) = content_of v"
  by (cases "v_kind v") (simp_all add: content_of_def owned_value_of_def value_access_defs)

lemma owned_kind [simp]: "v_kind (owned_value_of v) = v_kind v"
  by (cases "v_kind v") (simp_all add: owned_value_of_def)

lemma owned_string_data:
  "v_kind v = String \<Longrightarrow> string_data (owned_value_of v) = string_data v"
  by (simp add: owned_value_of_def)

lemma owned_idem [simp]: "owned_value_of (owned_value_of v) = owned_value_of v"
  by (cases "v_kind v") (simp_all add: owned_value_of_def value_access_defs)

end
