(* ===== verification/LittleEndian.thy ===== *)
theory LittleEndian
  imports Prelude
begin

section \<open>Little-endian integers\<close>

text \<open>
  The bytes of a word, least significant first, and the word of such bytes, with the two
  round trips between them for every width that is a whole number of bytes.
\<close>

unbundle bit_operations_syntax

definition word_bytes :: "'a::len word \<Rightarrow> bytes" where
  "word_bytes n = map (\<lambda>i. ucast (drop_bit (i * 8) n)) [0..<LENGTH('a) div 8]"

lemma fold_snoc: "fold (\<lambda>i data. data @ [f i]) xs out = out @ map f xs"
  by (induction xs arbitrary: out) simp_all

lemma length_word_bytes [simp]: "length (word_bytes (n :: 'a::len word)) = LENGTH('a) div 8"
  by (simp add: word_bytes_def)

lemma bit_fold_or:
  "bit (fold (\<lambda>i result. result OR f i) xs (a :: 'a::len word)) k \<longleftrightarrow> bit a k \<or> (\<exists>i \<in> set xs. bit (f i) k)"
  by (induction xs arbitrary: a) (auto simp: bit_or_iff)

definition bytes_word :: "bytes \<Rightarrow> 'a::len word" where
  "bytes_word bs = fold (\<lambda>i result. result OR push_bit (i * 8) (ucast (bs ! i))) [0..<LENGTH('a) div 8] 0"

lemma bytes_word_word_bytes:
  assumes "8 dvd LENGTH('a)"
  shows "bytes_word (word_bytes (n :: 'a::len word)) = n"
proof (rule bit_word_eqI)
  fix k assume k: "k < LENGTH('a)"
  have "bit (bytes_word (word_bytes n) :: 'a word) k \<longleftrightarrow>
      (\<exists>i < LENGTH('a) div 8. i * 8 \<le> k \<and> k - i * 8 < 8 \<and> bit n (i * 8 + (k - i * 8)))"
    using k by (auto simp: bytes_word_def bit_fold_or word_bytes_def bit_push_bit_iff
        bit_ucast_iff bit_drop_bit_eq)
  also have "\<dots> \<longleftrightarrow> bit n k"
  proof
    assume "bit n k"
    moreover have "k div 8 < LENGTH('a) div 8" using k assms by (auto elim!: dvdE)
    moreover have "k div 8 * 8 \<le> k" "k - k div 8 * 8 < 8" by presburger+
    ultimately show "\<exists>i < LENGTH('a) div 8. i * 8 \<le> k \<and> k - i * 8 < 8 \<and> bit n (i * 8 + (k - i * 8))"
      by (metis le_add_diff_inverse)
  qed auto
  finally show "bit (bytes_word (word_bytes n) :: 'a word) k \<longleftrightarrow> bit n k" .
qed

lemma word_bytes_bytes_word:
  assumes "8 dvd LENGTH('a)" "length bs = LENGTH('a) div 8"
  shows "word_bytes (bytes_word bs :: 'a::len word) = bs"
proof (rule nth_equalityI)
  show "length (word_bytes (bytes_word bs :: 'a word)) = length bs" using assms by simp
  fix i assume "i < length (word_bytes (bytes_word bs :: 'a word))"
  then have i: "i < LENGTH('a) div 8" by simp
  show "word_bytes (bytes_word bs :: 'a word) ! i = bs ! i"
  proof (rule bit_word_eqI)
    fix k assume k: "k < LENGTH(8)"
    then have k8: "k < 8" by simp
    have lt: "i * 8 + k < LENGTH('a)" using i k8 assms(1) by (auto elim!: dvdE)
    have "bit (bytes_word bs :: 'a word) (i * 8 + k) \<longleftrightarrow>
       (\<exists>j < LENGTH('a) div 8. j * 8 \<le> i * 8 + k \<and> bit (bs ! j) (i * 8 + k - j * 8))"
      using lt by (auto simp: bytes_word_def bit_fold_or bit_push_bit_iff bit_ucast_iff)
    also have "\<dots> \<longleftrightarrow> bit (bs ! i) k"
    proof
      assume "\<exists>j < LENGTH('a) div 8. j * 8 \<le> i * 8 + k \<and> bit (bs ! j) (i * 8 + k - j * 8)"
      then obtain j where j: "j * 8 \<le> i * 8 + k" "bit (bs ! j) (i * 8 + k - j * 8)" by blast
      then have "i * 8 + k - j * 8 < 8" using bit_imp_le_length by fastforce
      with j(1) k8 have "j = i" by presburger
      with j(2) show "bit (bs ! i) k" by simp
    next
      assume "bit (bs ! i) k"
      with i show "\<exists>j < LENGTH('a) div 8. j * 8 \<le> i * 8 + k \<and> bit (bs ! j) (i * 8 + k - j * 8)"
        by (intro exI [of _ i]) simp
    qed
    finally show "bit (word_bytes (bytes_word bs :: 'a word) ! i) k \<longleftrightarrow> bit (bs ! i) k"
      using i k8 by (simp add: word_bytes_def bit_ucast_iff bit_drop_bit_eq)
  qed
qed
end
