(* ===== verification/RpcWire.thy ===== *)
theory RpcWire
  imports RpcValue LittleEndian "HOL-Library.Sublist"
begin

section \<open>The RPC wire format\<close>

text \<open>
  The \<open>writer\<close>, the \<open>reader\<close> and the frame codec of \<open>dynabridge/backends/rpc.h\<close>
  (namespace \<open>rpc::detail\<close>). A writer is the bytes written so far; a reader is the bytes left
  and its validity flag.
\<close>

definition request_magic :: u32 where "request_magic = 0x43505244"

definition response_magic :: u32 where "response_magic = 0x52505244"

definition protocol_version :: byte where "protocol_version = 1"

subsection \<open>Writer\<close>

text \<open>\<open>writer::integer\<close>: the bytes of an unsigned integer, least significant first.\<close>

definition writer_integer :: "bytes \<Rightarrow> 'a::len word \<Rightarrow> bytes" where
  "writer_integer out number =
     fold (\<lambda>i data. data @ [ucast (drop_bit (i * 8) number)]) [0..<LENGTH('a) div 8] out"

text \<open>\<open>writer::raw\<close>: a 32-bit size, then the bytes.\<close>

definition writer_raw :: "bool \<Rightarrow> bytes \<Rightarrow> bytes \<Rightarrow> bytes outcome" where
  "writer_raw ex out data =
     (if length data > uint32_max then raise_error ex (ProtocolError ''RPC string is too large'')
      else let out = writer_integer out (of_nat (length data) :: u32)
           in Return (if length data \<noteq> 0 then out @ data else out))"

subsection \<open>Reader\<close>

record reader =
  r_bytes :: bytes
  r_valid :: bool

definition reader_of :: "bytes \<Rightarrow> reader" where
  "reader_of data = \<lparr>r_bytes = data, r_valid = True\<rparr>"

definition require_bytes :: "nat \<Rightarrow> reader \<Rightarrow> bool \<times> reader" where
  "require_bytes n r =
     (if \<not> r_valid r \<or> n > length (r_bytes r) then (False, r\<lparr>r_valid := False\<rparr>) else (True, r))"

definition reader_integer :: "reader \<Rightarrow> 'a::len word \<times> reader" where
  "reader_integer r =
     (let n = LENGTH('a) div 8; (ok, r) = require_bytes n r in
      if \<not> ok then (0, r)
      else (fold (\<lambda>i result. result OR push_bit (i * 8) (ucast (r_bytes r ! i))) [0..<n] 0,
            r\<lparr>r_bytes := drop n (r_bytes r)\<rparr>))"

definition reader_raw :: "reader \<Rightarrow> bytes \<times> reader" where
  "reader_raw r =
     (let (sz, r) = reader_integer r; n = unat (sz :: u32); (ok, r) = require_bytes n r in
      if \<not> ok then ([], r) else (take n (r_bytes r), r\<lparr>r_bytes := drop n (r_bytes r)\<rparr>))"

definition invalidate :: "reader \<Rightarrow> reader" where
  "invalidate r = r\<lparr>r_valid := False\<rparr>"

subsection \<open>Values on the wire\<close>

definition encode_value :: "bool \<Rightarrow> bytes \<Rightarrow> rpc_value \<Rightarrow> bytes outcome" where
  "encode_value ex out v =
     (let out = writer_integer out (kind_byte (v_kind v)) in
      case v_kind v of
        Undefined \<Rightarrow> Return out
      | SignedInteger \<Rightarrow> Return (writer_integer out (as_signed v))
      | UnsignedInteger \<Rightarrow> Return (writer_integer out (as_unsigned v))
      | Real \<Rightarrow> Return (writer_integer out (as_real v))
      | Boolean \<Rightarrow> Return (writer_integer out (if as_boolean v then 1 else 0 :: byte))
      | String \<Rightarrow> writer_raw ex out (string_data v))"

definition checked_add :: "bool \<Rightarrow> nat \<Rightarrow> nat \<Rightarrow> nat outcome" where
  "checked_add ex left right =
     (if right > size_max - left then raise_error ex (ProtocolError ''RPC frame size overflow'')
      else Return (left + right))"

definition encoded_size :: "bool \<Rightarrow> rpc_value \<Rightarrow> nat outcome" where
  "encoded_size ex v =
     (case v_kind v of
        Undefined \<Rightarrow> Return 1
      | SignedInteger \<Rightarrow> Return 9
      | UnsignedInteger \<Rightarrow> Return 9
      | Real \<Rightarrow> Return 9
      | Boolean \<Rightarrow> Return 2
      | String \<Rightarrow>
          if string_size v > uint32_max
          then raise_error ex (ProtocolError ''RPC string is too large'')
          else checked_add ex 5 (string_size v))"

definition decode_value :: "reader \<Rightarrow> rpc_value \<times> reader" where
  "decode_value r =
     (let (kind, r) = reader_integer r in
      case byte_kind kind of
        Some Undefined \<Rightarrow> (default_value, r)
      | Some SignedInteger \<Rightarrow> (let (b, r) = reader_integer r in (value_signed b, r))
      | Some UnsignedInteger \<Rightarrow> (let (b, r) = reader_integer r in (value_unsigned b, r))
      | Some Real \<Rightarrow> (let (b, r) = reader_integer r in (value_real b, r))
      | Some Boolean \<Rightarrow>
          (let (b, r) = reader_integer r in (value_boolean ((b :: byte) \<noteq> 0), r))
      | Some String \<Rightarrow> (let (t, r) = reader_raw r in (value_string t, r))
      | None \<Rightarrow> (default_value, invalidate r))"

subsection \<open>Requests\<close>

record request =
  rq_method :: u64
  rq_args :: "rpc_value list"

definition frame_size_of :: "bool \<Rightarrow> nat \<Rightarrow> rpc_value list \<Rightarrow> nat outcome" where
  "frame_size_of ex start args =
     ofold (\<lambda>total arg. obind (encoded_size ex arg) (checked_add ex total)) start args"

definition request_header :: "u64 \<Rightarrow> nat \<Rightarrow> bytes" where
  "request_header m argc =
     writer_integer (writer_integer (writer_integer (writer_integer [] request_magic)
       protocol_version) m) (of_nat argc :: u32)"

definition encode_request :: "bool \<Rightarrow> u64 \<Rightarrow> rpc_value list \<Rightarrow> bytes outcome" where
  "encode_request ex m args =
     (if length args > uint32_max then raise_error ex (ProtocolError ''too many RPC arguments'')
      else obind (frame_size_of ex 17 args)
             (\<lambda>frame_size. ofold (encode_value ex) (request_header m (length args)) args))"

text \<open>The argument loop of \<open>try_decode_request\<close>: it stops at the first invalid item.\<close>

fun read_items :: "(reader \<Rightarrow> 'b \<times> reader) \<Rightarrow> nat \<Rightarrow> reader \<Rightarrow> ('b list \<times> reader) option" where
  "read_items dec 0 r = Some ([], r)"
| "read_items dec (Suc n) r =
     (let (item, r) = dec r in
      if \<not> r_valid r then None
      else map_option (\<lambda>(items, r). (item # items, r)) (read_items dec n r))"

definition try_decode_request :: "bytes \<Rightarrow> request option" where
  "try_decode_request frame =
     (let (magic, r) = reader_integer (reader_of frame) in
      if magic \<noteq> request_magic then None
      else let (version, r) = reader_integer r in
      if version \<noteq> protocol_version then None
      else let (m, r) = reader_integer r; (argc, r) = reader_integer r in
      if \<not> r_valid r \<or> unat (argc :: u32) > length (r_bytes r) then None
      else case read_items decode_value (unat argc) r of
        None \<Rightarrow> None
      | Some (args, r) \<Rightarrow>
          if \<not> r_valid r \<or> r_bytes r \<noteq> [] then None
          else Some \<lparr>rq_method = m, rq_args = args\<rparr>)"

definition decode_request :: "bool \<Rightarrow> bytes \<Rightarrow> request outcome" where
  "decode_request ex frame =
     (case try_decode_request frame of
        None \<Rightarrow> raise_error ex (ProtocolError ''invalid RPC request frame'')
      | Some rq \<Rightarrow> Return rq)"

subsection \<open>Responses\<close>

definition response_header :: "byte \<Rightarrow> bytes" where
  "response_header tag =
     writer_integer (writer_integer (writer_integer [] response_magic) protocol_version) tag"

definition encode_response :: "bool \<Rightarrow> rpc_value \<Rightarrow> bytes outcome" where
  "encode_response ex result =
     obind (obind (encoded_size ex result) (checked_add ex 7))
       (\<lambda>frame_size. encode_value ex (response_header 0) result)"

definition encode_error :: "bool \<Rightarrow> bytes \<Rightarrow> bytes outcome" where
  "encode_error ex message =
     (if length message > uint32_max
      then raise_error ex (ProtocolError ''RPC error message is too large'')
      else obind (checked_add ex 10 (length message))
             (\<lambda>frame_size. writer_raw ex (response_header 1) message))"

text \<open>
  The status of \<open>try_decode_response\<close> with the output it publishes: a value for \<open>ok\<close>, a
  message for \<open>remote_error\<close>, nothing for \<open>malformed\<close>.
\<close>

datatype response_status = RespOk rpc_value | RespMalformed | RespRemoteError bytes

definition try_decode_response :: "bytes \<Rightarrow> response_status" where
  "try_decode_response frame =
     (let (magic, r) = reader_integer (reader_of frame) in
      if magic \<noteq> response_magic then RespMalformed
      else let (version, r) = reader_integer r in
      if version \<noteq> protocol_version then RespMalformed
      else let (tag, r) = reader_integer r in
      if \<not> r_valid r \<or> unat (tag :: byte) > 1 then RespMalformed
      else if tag = 1 then
        (let (message, r) = reader_raw r in
         if \<not> r_valid r \<or> r_bytes r \<noteq> [] then RespMalformed else RespRemoteError message)
      else
        (let (staged, r) = decode_value r in
         if \<not> r_valid r \<or> r_bytes r \<noteq> [] then RespMalformed else RespOk staged))"

definition decode_response :: "bool \<Rightarrow> bytes \<Rightarrow> rpc_value outcome" where
  "decode_response ex frame =
     (case try_decode_response frame of
        RespRemoteError message \<Rightarrow> raise_error ex (RemoteError message)
      | RespMalformed \<Rightarrow> raise_error ex (ProtocolError ''invalid RPC response frame'')
      | RespOk v \<Rightarrow> Return v)"

subsection \<open>Codec laws\<close>

lemma writer_integer_eq [simp]: "writer_integer out n = out @ word_bytes n"
  by (simp add: writer_integer_def word_bytes_def fold_snoc)

lemma reader_of_simps [simp]:
  "r_bytes (reader_of bs) = bs" "r_valid (reader_of bs)"
  by (simp_all add: reader_of_def)

lemma reader_eta: "r_valid r \<Longrightarrow> r = reader_of (r_bytes r)"
  by (simp add: reader_of_def)

lemma reader_update [simp]: "reader_of bs\<lparr>r_bytes := bs'\<rparr> = reader_of bs'"
  by (simp add: reader_of_def)

lemma bytes_word_take:
  "fold (\<lambda>i result. result OR push_bit (i * 8) (ucast (bs ! i))) [0..<LENGTH('a) div 8] 0
     = (bytes_word (take (LENGTH('a) div 8) bs) :: 'a::len word)"
  unfolding bytes_word_def by (rule fold_cong) simp_all

lemma reader_integer_eq:
  "(reader_integer r :: 'a::len word \<times> reader) =
     (if r_valid r \<and> LENGTH('a) div 8 \<le> length (r_bytes r)
      then (bytes_word (take (LENGTH('a) div 8) (r_bytes r)),
            r\<lparr>r_bytes := drop (LENGTH('a) div 8) (r_bytes r)\<rparr>)
      else (0, r\<lparr>r_valid := False\<rparr>))"
  by (auto simp: reader_integer_def require_bytes_def bytes_word_take Let_def)

text \<open>
  The contract of a decoder for one item: it reads back what the encoder wrote and leaves the
  rest; and whatever it accepts, it accepts because of the bytes it consumed (at least one of
  them, whatever follows), which some acceptable item encodes to just as many bytes.
\<close>

locale byte_codec =
  fixes enc :: "'a \<Rightarrow> bytes"
    and dec :: "reader \<Rightarrow> 'b \<times> reader"
    and norm :: "'a \<Rightarrow> 'b"
    and ok :: "'a \<Rightarrow> bool"
  assumes dec_enc: "ok x \<Longrightarrow> dec (reader_of (enc x @ rest)) = (norm x, reader_of rest)"
    and dec_sound: "dec r = (y, r') \<Longrightarrow> r_valid r' \<Longrightarrow>
      r_valid r \<and> (\<exists>bs x. bs \<noteq> [] \<and> r_bytes r = bs @ r_bytes r' \<and>
        (\<forall>ext. dec (reader_of (bs @ ext)) = (y, reader_of ext)) \<and>
        ok x \<and> norm x = y \<and> length (enc x) = length bs)"
begin

lemma dec_soundE:
  assumes "dec r = (y, r')" "r_valid r'"
  obtains bs x where "r_valid r" "bs \<noteq> []" "r_bytes r = bs @ r_bytes r'"
    "\<And>ext. dec (reader_of (bs @ ext)) = (y, reader_of ext)"
    "ok x" "norm x = y" "length (enc x) = length bs"
  using dec_sound [OF assms] by blast

lemma items_enc:
  "\<forall>x \<in> set xs. ok x \<Longrightarrow>
     read_items dec (length xs) (reader_of (concat (map enc xs) @ rest))
       = Some (map norm xs, reader_of rest)"
  by (induction xs) (simp_all add: dec_enc)

lemma items_sound:
  "read_items dec n r = Some (ys, r') \<Longrightarrow> r_valid r \<Longrightarrow>
     r_valid r' \<and> (\<exists>bs xs. r_bytes r = bs @ r_bytes r' \<and> n \<le> length bs \<and>
       (\<forall>ext. read_items dec n (reader_of (bs @ ext)) = Some (ys, reader_of ext)) \<and>
       (\<forall>x \<in> set xs. ok x) \<and> map norm xs = ys \<and> length xs = n \<and>
       length (concat (map enc xs)) = length bs)"
proof (induction n arbitrary: r ys)
  case 0
  then show ?case by (auto simp: exI [of _ "[]"])
next
  case (Suc n)
  obtain y r1 where dec: "dec r = (y, r1)" by fastforce
  with Suc.prems obtain ys' where v1: "r_valid r1" and ys: "ys = y # ys'"
    and rest: "read_items dec n r1 = Some (ys', r')"
    by (auto split: if_splits)
  from dec v1 obtain b x where b: "b \<noteq> []" "r_bytes r = b @ r_bytes r1"
    "\<And>ext. dec (reader_of (b @ ext)) = (y, reader_of ext)" "ok x" "norm x = y"
    "length (enc x) = length b"
    by (rule dec_soundE) blast
  from Suc.IH [OF rest v1] obtain bs xs where bs: "r_valid r'" "r_bytes r1 = bs @ r_bytes r'"
    "n \<le> length bs" "\<And>ext. read_items dec n (reader_of (bs @ ext)) = Some (ys', reader_of ext)"
    "\<forall>x \<in> set xs. ok x" "map norm xs = ys'" "length xs = n"
    "length (concat (map enc xs)) = length bs"
    by blast
  have "Suc n \<le> length (b @ bs)" using b(1) bs(3) by (cases b) auto
  moreover have "read_items dec (Suc n) (reader_of ((b @ bs) @ ext)) = Some (ys, reader_of ext)" for ext
    using b(3) bs(4) ys by simp
  ultimately show ?case
    using b bs ys by (intro conjI exI [of _ "b @ bs"] exI [of _ "x # xs"]) auto
qed

end

text \<open>
  A code without separators: every item takes room, and two items that begin the same bytes are the same.
  Sequences of items are then told apart by their bytes alone. Every such decoder comes with a
  code.
\<close>

locale prefix_code =
  fixes enc :: "'a \<Rightarrow> 'c list"
    and norm :: "'a \<Rightarrow> 'b"
    and ok :: "'a \<Rightarrow> bool"
  assumes enc_nonempty: "ok x \<Longrightarrow> enc x \<noteq> []"
    and enc_prefix: "ok x \<Longrightarrow> ok y \<Longrightarrow> enc x @ rest = enc y @ rest' \<Longrightarrow> norm x = norm y \<and> rest = rest'"
begin

lemma concat_unique:
  assumes "\<forall>x \<in> set xs. ok x" "\<forall>y \<in> set ys. ok y" "concat (map enc xs) = concat (map enc ys)"
  shows "map norm xs = map norm ys"
  using assms
proof (induction xs arbitrary: ys)
  case Nil
  then show ?case by (cases ys) (auto dest: enc_nonempty)
next
  case (Cons x xs)
  then obtain y ys' where ys: "ys = y # ys'" by (cases ys) (auto dest: enc_nonempty)
  with Cons.prems have "norm x = norm y \<and> concat (map enc xs) = concat (map enc ys')"
    by (intro enc_prefix) simp_all
  with Cons ys show ?case by simp
qed

end

sublocale byte_codec \<subseteq> code: prefix_code enc norm ok
proof
  fix x assume ok: "ok x"
  have "dec (reader_of (enc x)) = (norm x, reader_of [])" using dec_enc [OF ok, of "[]"] by simp
  then obtain bs where "bs \<noteq> []" "r_bytes (reader_of (enc x)) = bs @ r_bytes (reader_of [])"
    by (rule dec_soundE) (simp_all add: reader_of_def)
  then show "enc x \<noteq> []" by (simp add: reader_of_def)
next
  fix x y rest rest' assume ok: "ok x" "ok y" and e: "enc x @ rest = enc y @ rest'"
  have "(norm x, reader_of rest) = (norm y, reader_of rest')"
    using dec_enc [OF ok(1), of rest] dec_enc [OF ok(2), of rest'] e by simp
  then show "norm x = norm y \<and> rest = rest'" by (simp add: reader_of_def)
qed

lemma integer_codec:
  assumes "8 dvd LENGTH('a)"
  shows "byte_codec word_bytes (reader_integer :: reader \<Rightarrow> 'a::len word \<times> reader) id (\<lambda>_. True)"
proof
  let ?n = "LENGTH('a) div 8"
  show "(reader_integer (reader_of (word_bytes (x :: 'a word) @ rest)) :: 'a word \<times> reader)
      = (id x, reader_of rest)" for x rest
    by (simp add: reader_integer_eq bytes_word_word_bytes [OF assms])
  fix r r' and y :: "'a word"
  assume "reader_integer r = (y, r')" "r_valid r'"
  then have v: "r_valid r" and l: "?n \<le> length (r_bytes r)"
    and y: "y = bytes_word (take ?n (r_bytes r))" and r': "r' = r\<lparr>r_bytes := drop ?n (r_bytes r)\<rparr>"
    by (auto simp: reader_integer_eq split: if_splits)
  have "0 < ?n" using assms by (auto elim!: dvdE simp: len_gt_0)
      (metis len_gt_0 mult_0_right neq0_conv)
  then have "take ?n (r_bytes r) \<noteq> []" using l by auto
  moreover have "reader_integer (reader_of (take ?n (r_bytes r) @ ext)) = (y, reader_of ext)" for ext
    using l y by (simp add: reader_integer_eq)
  moreover have "length (word_bytes y) = length (take ?n (r_bytes r))" using l by simp
  ultimately show "r_valid r \<and> (\<exists>bs x. bs \<noteq> [] \<and> r_bytes r = bs @ r_bytes r' \<and>
        (\<forall>ext. reader_integer (reader_of (bs @ ext)) = (y, reader_of ext)) \<and>
        True \<and> id x = y \<and> length (word_bytes (x :: 'a word)) = length bs)"
    using v r' by (intro conjI exI [of _ "take ?n (r_bytes r)"] exI [of _ y]) simp_all
qed

interpretation u8: byte_codec "word_bytes :: byte \<Rightarrow> bytes" reader_integer id "\<lambda>_. True"
  by (rule integer_codec) simp

interpretation u32: byte_codec "word_bytes :: u32 \<Rightarrow> bytes" reader_integer id "\<lambda>_. True"
  by (rule integer_codec) simp

interpretation u64: byte_codec "word_bytes :: u64 \<Rightarrow> bytes" reader_integer id "\<lambda>_. True"
  by (rule integer_codec) simp


lemmas leaf_dec_enc [simp] = u8.dec_enc u32.dec_enc u64.dec_enc

definition raw_bytes :: "bytes \<Rightarrow> bytes" where
  "raw_bytes t = word_bytes (of_nat (length t) :: u32) @ t"

lemma length_raw_bytes [simp]: "length (raw_bytes t) = 4 + length t"
  by (simp add: raw_bytes_def)

lemma unat_length_u32: "length t \<le> uint32_max \<Longrightarrow> unat (of_nat (length t) :: u32) = length t"
  by (simp add: uint32_max_def unsigned_of_nat take_bit_nat_eq_self)

lemma unat_u32_le: "unat (n :: u32) \<le> uint32_max"
proof -
  have "unat n < 2 ^ LENGTH(32)" by (rule unsigned_less)
  then show ?thesis by (simp add: uint32_max_def)
qed

lemma writer_raw_eq:
  "writer_raw ex out t =
     (if length t \<le> uint32_max then Return (out @ raw_bytes t)
      else raise_error ex (ProtocolError ''RPC string is too large''))"
  by (simp add: writer_raw_def raw_bytes_def Let_def)

lemma reader_raw_eq:
  "reader_raw r =
     (let (sz, r') = reader_integer r; n = unat (sz :: u32) in
      if r_valid r' \<and> n \<le> length (r_bytes r')
      then (take n (r_bytes r'), r'\<lparr>r_bytes := drop n (r_bytes r')\<rparr>)
      else ([], r'\<lparr>r_valid := False\<rparr>))"
  by (auto simp: reader_raw_def require_bytes_def Let_def split: prod.splits)

lemma reader_raw_of:
  "reader_raw (reader_of (word_bytes sz @ bs @ ext)) = (bs, reader_of ext)"
  if "length bs = unat (sz :: u32)"
  using that by (simp add: reader_raw_eq)

interpretation raw: byte_codec raw_bytes reader_raw id "\<lambda>t. length t \<le> uint32_max"
proof
  show "reader_raw (reader_of (raw_bytes t @ rest)) = (id t, reader_of rest)"
    if "length t \<le> uint32_max" for t rest
    using that reader_raw_of [of t "of_nat (length t)" rest]
    by (simp add: raw_bytes_def unat_length_u32)
  fix r r' and y
  assume dec: "reader_raw r = (y, r')" and v': "r_valid r'"
  obtain sz r1 where sz: "reader_integer r = (sz :: u32, r1)" by fastforce
  with dec v' have v1: "r_valid r1" and l: "unat sz \<le> length (r_bytes r1)"
    and y: "y = take (unat sz) (r_bytes r1)" and r': "r' = r1\<lparr>r_bytes := drop (unat sz) (r_bytes r1)\<rparr>"
    by (auto simp: reader_raw_eq Let_def split: if_splits)
  from sz v1 obtain b where b: "r_valid r" "b \<noteq> []" "r_bytes r = b @ r_bytes r1"
    "\<And>ext. reader_integer (reader_of (b @ ext)) = (sz, reader_of ext)"
    "length b = length (word_bytes sz)"
    by (rule u32.dec_soundE) auto
  have "length y = unat sz" using y l by simp
  moreover have "unat sz \<le> uint32_max" by (rule unat_u32_le)
  moreover have "reader_raw (reader_of ((b @ y) @ ext)) = (y, reader_of ext)" for ext
    using b(4) \<open>length y = unat sz\<close> by (simp add: reader_raw_eq)
  ultimately show "r_valid r \<and> (\<exists>bs x. bs \<noteq> [] \<and> r_bytes r = bs @ r_bytes r' \<and>
        (\<forall>ext. reader_raw (reader_of (bs @ ext)) = (y, reader_of ext)) \<and>
        length x \<le> uint32_max \<and> id x = y \<and> length (raw_bytes x) = length bs)"
    using b y r' by (intro conjI exI [of _ "b @ y"] exI [of _ y]) simp_all
qed

text \<open>The bytes of a value, and the values that have them: strings have a 32-bit size.\<close>

definition value_bytes :: "rpc_value \<Rightarrow> bytes" where
  "value_bytes v = word_bytes (kind_byte (v_kind v)) @
     (case v_kind v of
        Undefined \<Rightarrow> []
      | SignedInteger \<Rightarrow> word_bytes (as_signed v)
      | UnsignedInteger \<Rightarrow> word_bytes (as_unsigned v)
      | Real \<Rightarrow> word_bytes (as_real v)
      | Boolean \<Rightarrow> word_bytes (if as_boolean v then 1 else 0 :: byte)
      | String \<Rightarrow> raw_bytes (string_data v))"

definition encodable :: "rpc_value \<Rightarrow> bool" where
  "encodable v \<longleftrightarrow> v_kind v = String \<longrightarrow> length (string_data v) \<le> uint32_max"

lemma encode_value_eq:
  "encode_value ex out v =
     (if encodable v then Return (out @ value_bytes v)
      else raise_error ex (ProtocolError ''RPC string is too large''))"
  by (cases "v_kind v")
    (simp_all add: encode_value_def encodable_def value_bytes_def writer_raw_eq Let_def)

lemma decode_value_enc:
  assumes "encodable v"
  shows "decode_value (reader_of (value_bytes v @ rest)) = (owned_value_of v, reader_of rest)"
  using assms raw.dec_enc [of "string_data v" rest]
  by (cases "v_kind v")
    (simp_all add: decode_value_def value_bytes_def owned_value_of_def encodable_def)

lemma decode_value_sound:
  assumes "decode_value r = (y, r')" "r_valid r'"
  shows "r_valid r \<and> (\<exists>bs. bs \<noteq> [] \<and> r_bytes r = bs @ r_bytes r' \<and>
        (\<forall>ext. decode_value (reader_of (bs @ ext)) = (y, reader_of ext)) \<and>
        encodable y \<and> owned_value_of y = y \<and> length (value_bytes y) = length bs)"
proof -
  obtain k r1 where k: "reader_integer r = (k :: byte, r1)" by fastforce
  have "r_valid r1 \<and> (\<exists>c. r_bytes r1 = c @ r_bytes r' \<and>
        (\<forall>b ext. (\<forall>ext. reader_integer (reader_of (b @ ext)) = (k, reader_of ext)) \<longrightarrow>
            decode_value (reader_of (b @ c @ ext)) = (y, reader_of ext)) \<and>
        encodable y \<and> owned_value_of y = y \<and> length (value_bytes y) = Suc (length c))"
  proof (cases "byte_kind k")
    case None
    with assms k show ?thesis by (auto simp: decode_value_def invalidate_def)
  next
    case (Some kind)
    have wide: ?thesis if eq: "decode_value r = (let (b, r) = reader_integer r1 in (mk (b :: u64), r))"
      and all: "\<And>b ext. (\<forall>ext. reader_integer (reader_of (b @ ext)) = (k, reader_of ext)) \<Longrightarrow>
           decode_value (reader_of (b @ ext)) = (let (w, r) = reader_integer (reader_of ext) in (mk w, r))"
      and mk: "\<And>w. encodable (mk w)" "\<And>w. owned_value_of (mk w) = mk w"
        "\<And>w. length (value_bytes (mk w)) = 9" for mk
    proof -
      obtain w r2 where w: "reader_integer r1 = (w :: u64, r2)" by fastforce
      with eq assms have y: "y = mk w" and r2: "r2 = r'" by auto
      from w assms(2) r2 obtain c where "r_valid r1" "r_bytes r1 = c @ r_bytes r'"
        "\<And>ext. reader_integer (reader_of (c @ ext)) = (w, reader_of ext)" "length c = 8"
        by (auto elim: u64.dec_soundE)
      then show ?thesis using all mk y by auto
    qed
    show ?thesis
    proof (cases kind)
      case Undefined
      then show ?thesis using assms k Some
        by (intro conjI exI [of _ "[]"])
          (auto simp: decode_value_def encodable_def owned_value_of_def value_bytes_def)
    next
      case SignedInteger
      then show ?thesis using k Some
        by (intro wide [of value_signed])
          (auto simp: decode_value_def encodable_def owned_value_of_def value_bytes_def value_access_defs)
    next
      case UnsignedInteger
      then show ?thesis using k Some
        by (intro wide [of value_unsigned])
          (auto simp: decode_value_def encodable_def owned_value_of_def value_bytes_def value_access_defs)
    next
      case Real
      then show ?thesis using k Some
        by (intro wide [of value_real])
          (auto simp: decode_value_def encodable_def owned_value_of_def value_bytes_def value_access_defs)
    next
      case Boolean
      obtain w r2 where w: "reader_integer r1 = (w :: byte, r2)" by fastforce
      with Boolean k Some assms have y: "y = value_boolean (w \<noteq> 0)" and r2: "r2 = r'"
        by (auto simp: decode_value_def)
      from w assms(2) r2 obtain c where c: "r_valid r1" "r_bytes r1 = c @ r_bytes r'"
        "\<And>ext. reader_integer (reader_of (c @ ext)) = (w, reader_of ext)" "length c = 1"
        by (auto elim: u8.dec_soundE)
      then show ?thesis using Boolean Some y
        by (intro conjI exI [of _ c])
          (auto simp: decode_value_def encodable_def owned_value_of_def value_bytes_def value_access_defs)
    next
      case String
      obtain t r2 where t: "reader_raw r1 = (t, r2)" by fastforce
      with String k Some assms have y: "y = value_string t" and r2: "r2 = r'"
        by (auto simp: decode_value_def)
      from t assms(2) r2 obtain c where c: "r_valid r1" "r_bytes r1 = c @ r_bytes r'"
        "\<And>ext. reader_raw (reader_of (c @ ext)) = (t, reader_of ext)"
        "length t \<le> uint32_max" "length (raw_bytes t) = length c"
        by (auto elim: raw.dec_soundE)
      then show ?thesis using String Some y
        by (intro conjI exI [of _ c])
          (auto simp: decode_value_def encodable_def owned_value_of_def value_bytes_def)
    qed
  qed
  then obtain c where v1: "r_valid r1" and c: "r_bytes r1 = c @ r_bytes r'"
      "\<And>b ext. (\<forall>ext. reader_integer (reader_of (b @ ext)) = (k, reader_of ext)) \<Longrightarrow>
            decode_value (reader_of (b @ c @ ext)) = (y, reader_of ext)"
      "encodable y" "owned_value_of y = y" "length (value_bytes y) = Suc (length c)"
    by blast
  from k v1 obtain b where b: "r_valid r" "b \<noteq> []" "r_bytes r = b @ r_bytes r1"
    "\<And>ext. reader_integer (reader_of (b @ ext)) = (k, reader_of ext)" "length b = 1"
    by (auto elim: u8.dec_soundE)
  then show ?thesis
    using c by (intro conjI exI [of _ "b @ c"]) auto
qed

interpretation wire_value: byte_codec value_bytes decode_value owned_value_of encodable
  by unfold_locales (use decode_value_enc decode_value_sound in blast)+


subsection \<open>Frames\<close>

lemma length_value_bytes:
  "length (value_bytes v) =
     (case v_kind v of Undefined \<Rightarrow> 1 | Boolean \<Rightarrow> 2 | String \<Rightarrow> 5 + length (string_data v) | _ \<Rightarrow> 9)"
  by (cases "v_kind v") (simp_all add: value_bytes_def)

lemma encoded_size_eq:
  "encoded_size ex v =
     (if encodable v then Return (length (value_bytes v))
      else raise_error ex (ProtocolError ''RPC string is too large''))"
  by (cases "v_kind v")
    (simp_all add: encoded_size_def encodable_def length_value_bytes checked_add_def
      uint32_max_def size_max_def)

lemma checked_add_eq_Return [simp]:
  "l \<le> size_max \<Longrightarrow> checked_add ex l r = Return n \<longleftrightarrow> l + r \<le> size_max \<and> n = l + r"
  by (auto simp: checked_add_def)

definition values_bytes :: "rpc_value list \<Rightarrow> bytes" where
  "values_bytes args = concat (map value_bytes args)"

lemma frame_size_of_eq_Return:
  "start \<le> size_max \<Longrightarrow>
     frame_size_of ex start args = Return n \<longleftrightarrow>
       (\<forall>v \<in> set args. encodable v) \<and> start + length (values_bytes args) \<le> size_max \<and>
       n = start + length (values_bytes args)"
  by (induction args arbitrary: start)
    (auto simp: frame_size_of_def values_bytes_def obind_eq_Return encoded_size_eq)

lemma encode_values_eq_Return:
  "ofold (encode_value ex) out args = Return frame \<longleftrightarrow>
     (\<forall>v \<in> set args. encodable v) \<and> frame = out @ values_bytes args"
  by (induction args arbitrary: out) (auto simp: values_bytes_def encode_value_eq)

definition request_frame :: "u64 \<Rightarrow> rpc_value list \<Rightarrow> bytes" where
  "request_frame m args = request_header m (length args) @ values_bytes args"

lemma request_header_eq:
  "request_header m n = word_bytes request_magic @ word_bytes protocol_version @ word_bytes m @
     word_bytes (of_nat n :: u32)"
  by (simp add: request_header_def)

lemma encode_request_eq_Return:
  "encode_request ex m args = Return frame \<longleftrightarrow>
     length args \<le> uint32_max \<and> (\<forall>v \<in> set args. encodable v) \<and>
     17 + length (values_bytes args) \<le> size_max \<and> frame = request_frame m args"
  by (auto simp: encode_request_def obind_eq_Return frame_size_of_eq_Return size_max_def
      encode_values_eq_Return request_frame_def)

lemma length_values_bytes: "length args \<le> length (values_bytes args)"
proof (induction args)
  case (Cons v args)
  have "1 \<le> length (value_bytes v)" by (cases "v_kind v") (simp_all add: length_value_bytes)
  with Cons show ?case by (simp add: values_bytes_def)
qed (simp add: values_bytes_def)

lemma try_decode_request_frame:
  assumes "length args \<le> uint32_max" "\<forall>v \<in> set args. encodable v"
  shows "try_decode_request (request_frame m args) =
    Some \<lparr>rq_method = m, rq_args = map owned_value_of args\<rparr>"
  using wire_value.items_enc [OF assms(2), of "[]"] assms(1) length_values_bytes [of args]
  by (simp add: try_decode_request_def request_frame_def request_header_eq values_bytes_def
      uint32_max_def unsigned_of_nat take_bit_nat_eq_self)

text \<open>
  What acceptance means: the frame is a header and the arguments' bytes, nothing more, and
  the verdict on any longer frame is the trailing-bytes check.
\<close>

lemma try_decode_request_sound:
  assumes "try_decode_request frame = Some rq"
  shows "(\<forall>v \<in> set (rq_args rq). encodable v) \<and> length (rq_args rq) \<le> uint32_max \<and>
    map owned_value_of (rq_args rq) = rq_args rq \<and>
    length frame = length (request_frame (rq_method rq) (rq_args rq)) \<and>
    (\<forall>ext. ext \<noteq> [] \<longrightarrow> try_decode_request (frame @ ext) = None)"
proof -
  obtain magic r1 where 1: "reader_integer (reader_of frame) = (magic :: u32, r1)" by fastforce
  obtain version r2 where 2: "reader_integer r1 = (version :: byte, r2)" by fastforce
  obtain m r3 where 3: "reader_integer r2 = (m :: u64, r3)" by fastforce
  obtain argc r4 where 4: "reader_integer r3 = (argc :: u32, r4)" by fastforce
  from assms 1 2 3 4 obtain args r5 where
      hd: "magic = request_magic" "version = protocol_version" "r_valid r4"
        "unat argc \<le> length (r_bytes r4)"
      and items: "read_items decode_value (unat argc) r4 = Some (args, r5)"
      and end5: "r_valid r5" "r_bytes r5 = []"
      and rq: "rq = \<lparr>rq_method = m, rq_args = args\<rparr>"
    by (auto simp: try_decode_request_def split: if_splits option.splits)
  from 4 hd(3) obtain b4 where b4: "r_valid r3" "r_bytes r3 = b4 @ r_bytes r4" "length b4 = 4"
      "\<And>ext. reader_integer (reader_of (b4 @ ext)) = (argc, reader_of ext)"
    by (rule u32.dec_soundE) auto
  from 3 b4(1) obtain b3 where b3: "r_valid r2" "r_bytes r2 = b3 @ r_bytes r3" "length b3 = 8"
      "\<And>ext. reader_integer (reader_of (b3 @ ext)) = (m, reader_of ext)"
    by (rule u64.dec_soundE) auto
  from 2 b3(1) obtain b2 where b2: "r_valid r1" "r_bytes r1 = b2 @ r_bytes r2" "length b2 = 1"
      "\<And>ext. reader_integer (reader_of (b2 @ ext)) = (version, reader_of ext)"
    by (rule u8.dec_soundE) auto
  from 1 b2(1) obtain b1 where b1: "frame = b1 @ r_bytes r1" "length b1 = 4"
      "\<And>ext. reader_integer (reader_of (b1 @ ext)) = (magic, reader_of ext)"
    by (rule u32.dec_soundE) auto
  from wire_value.items_sound [OF items hd(3)] end5 obtain bs xs where
      bs: "r_bytes r4 = bs" "\<And>ext. read_items decode_value (unat argc) (reader_of (bs @ ext)) = Some (args, reader_of ext)"
        "\<forall>x \<in> set xs. encodable x" "map owned_value_of xs = args" "length xs = unat argc"
        "length (concat (map value_bytes xs)) = length bs"
    by auto
  have enc: "\<forall>v \<in> set args. encodable v"
    using bs(3,4) by (auto simp: encodable_def owned_string_data)
  have vb: "length (value_bytes (owned_value_of x)) = length (value_bytes x)" for x
    by (cases "v_kind x") (simp_all add: length_value_bytes owned_value_of_def)
  have "length (values_bytes args) = length bs"
    using bs(6) unfolding values_bytes_def bs(4) [symmetric]
    by (simp add: length_concat o_def vb)
  then have len: "length frame = length (request_frame (rq_method rq) (rq_args rq))"
    using b1(1,2) b2(2,3) b3(2,3) b4(2,3) bs(1) rq
    by (simp add: request_frame_def request_header_eq)
  have "try_decode_request (frame @ ext) = None" if "ext \<noteq> []" for ext
    using that hd b1(1) b2(2) b3(2) b4(2) bs(1)
    by (simp add: try_decode_request_def b1(3) b2(4) b3(4) b4(4) bs(2))
  moreover have "map owned_value_of args = args" using bs(4) by auto
  moreover have "length args \<le> uint32_max" using bs(4,5) unat_u32_le [of argc] by auto
  ultimately show ?thesis using enc len rq by simp
qed

subsection \<open>Properties of request frames\<close>

text \<open>
  C18: a request survives the wire: whatever \<open>encode_request\<close> produces, \<open>decode_request\<close>
  reads back with the same method and with arguments of the same content, which own their
  strings.
\<close>
theorem request_roundtrip:
  assumes "encode_request ex m args = Return frame"
  shows "decode_request ex' frame = Return \<lparr>rq_method = m, rq_args = map owned_value_of args\<rparr> \<and>
    map content_of (map owned_value_of args) = map content_of args"
  using assms try_decode_request_frame [of args m]
  by (simp add: encode_request_eq_Return decode_request_def)

text \<open>The frame of the call \<open>m = 7\<close> with a boolean and a borrowed string, byte by byte.\<close>

theorem request_roundtrip_witness:
  "encode_request True 7 [value_boolean True, value_borrowed_string [104, 105]] =
     Return [0x44, 0x52, 0x50, 0x43, 1, 7, 0, 0, 0, 0, 0, 0, 0, 2, 0, 0, 0, 4, 1, 5, 2, 0, 0, 0, 104, 105] \<and>
   decode_request True
     [0x44, 0x52, 0x50, 0x43, 1, 7, 0, 0, 0, 0, 0, 0, 0, 2, 0, 0, 0, 4, 1, 5, 2, 0, 0, 0, 104, 105] =
     Return \<lparr>rq_method = 7, rq_args = [value_boolean True, value_string [104, 105]]\<rparr>"
proof -
  have e: "encode_request True 7 [value_boolean True, value_borrowed_string [104, 105]] =
     Return [0x44, 0x52, 0x50, 0x43, 1, 7, 0, 0, 0, 0, 0, 0, 0, 2, 0, 0, 0, 4, 1, 5, 2, 0, 0, 0, 104, 105]"
  proof -
    have "request_frame 7 [value_boolean True, value_borrowed_string [104, 105]] =
     [0x44, 0x52, 0x50, 0x43, 1, 7, 0, 0, 0, 0, 0, 0, 0, 2, 0, 0, 0, 4, 1, 5, 2, 0, 0, 0, 104, 105]"
      by code_simp
    then show ?thesis
      by (simp add: encode_request_eq_Return encodable_def uint32_max_def size_max_def
          values_bytes_def length_value_bytes)
  qed
  moreover have "map owned_value_of [value_boolean True, value_borrowed_string [104, 105]] =
      [value_boolean True, value_string [104, 105]]"
    by code_simp
  ultimately show ?thesis using request_roundtrip [OF e, of True] by simp
qed

text \<open>
  The size \<open>encode_request\<close> reserves is exactly the size of the frame it produces.
\<close>
theorem encoded_request_size:
  assumes "encode_request ex m args = Return frame"
  shows "frame_size_of ex 17 args = Return (length frame)"
  using assms
  by (simp add: encode_request_eq_Return frame_size_of_eq_Return request_frame_def
      request_header_eq size_max_def)

theorem encoded_request_size_witness:
  "frame_size_of True 17 [value_string [1, 2, 3]] = Return 25"
proof -
  have e: "encode_request True 0 [value_string [1, 2, 3]] =
     Return (request_frame 0 [value_string [1, 2, 3]])"
    by (simp add: encode_request_eq_Return encodable_def uint32_max_def size_max_def
        values_bytes_def length_value_bytes)
  have "length (request_frame 0 [value_string [1, 2, 3]]) = 25" by code_simp
  then show ?thesis using encoded_request_size [OF e] by simp
qed

text \<open>
  C40: \<open>encode_request\<close> refuses exactly the calls the format cannot carry: more than
  \<open>2\<^sup>3\<^sup>2 - 1\<close> arguments, a longer string, or a frame beyond \<open>size_t\<close>; it then raises
  a protocol error (or aborts without exceptions) and never produces a frame.
\<close>
theorem encode_request_error_iff:
  "(\<exists>msg. encode_request ex m args = raise_error ex (ProtocolError msg)) \<longleftrightarrow>
     \<not> (length args \<le> uint32_max \<and> list_all encodable args \<and>
        length (request_frame m args) \<le> size_max)"
proof -
  have size: "(\<exists>n. frame_size_of ex s args = Return n) \<or>
      (\<exists>msg. frame_size_of ex s args = raise_error ex (ProtocolError msg))" for s
  proof (induction args arbitrary: s)
    case Nil
    then show ?case by (simp add: frame_size_of_def)
  next
    case (Cons v args)
    show ?case
      using Cons.IH [of "s + length (value_bytes v)"]
      by (auto simp: frame_size_of_def encoded_size_eq checked_add_def)
  qed
  have dichotomy: "(\<exists>frame. encode_request ex m args = Return frame) \<or>
      (\<exists>msg. encode_request ex m args = raise_error ex (ProtocolError msg))"
  proof (cases "\<exists>n. frame_size_of ex 17 args = Return n")
    case True
    then have "(\<forall>v \<in> set args. encodable v) \<and> 17 + length (values_bytes args) \<le> size_max"
      by (auto simp: frame_size_of_eq_Return size_max_def)
    then show ?thesis
      using encode_request_eq_Return [of ex m args "request_frame m args"]
      by (cases "length args \<le> uint32_max") (auto simp: encode_request_def [of ex m args])
  next
    case False
    then show ?thesis using size [of 17] by (auto simp: encode_request_def)
  qed
  have len: "length (request_frame m args) = 17 + length (values_bytes args)"
    by (simp add: request_frame_def request_header_eq)
  show ?thesis
    using dichotomy encode_request_eq_Return [of ex m args]
    unfolding len list_all_iff by (metis raise_error_neq_Return(1))
qed

text \<open>
  Every accepted frame is a well-formed call: it can be encoded again, to a frame of the
  same length, which decodes to the same request.
\<close>
theorem decoded_request_reencodes:
  assumes "try_decode_request frame = Some rq" "length frame \<le> size_max"
  shows "\<exists>frame'. encode_request ex (rq_method rq) (rq_args rq) = Return frame' \<and>
    length frame' = length frame \<and> try_decode_request frame' = Some rq"
  using try_decode_request_sound [OF assms(1)] assms(2)
    try_decode_request_frame [of "rq_args rq" "rq_method rq"]
  by (simp add: encode_request_eq_Return request_frame_def request_header_eq)

text \<open>A frame with the non-canonical boolean byte 7: accepted, and re-encoded as 1.\<close>

theorem decoded_request_reencodes_witness:
  "\<exists>frame'. encode_request True 9 [value_boolean True] = Return frame' \<and> length frame' = 19 \<and>
     try_decode_request frame' = Some \<lparr>rq_method = 9, rq_args = [value_boolean True]\<rparr>"
proof -
  have d: "try_decode_request [0x44, 0x52, 0x50, 0x43, 1, 9, 0, 0, 0, 0, 0, 0, 0, 1, 0, 0, 0, 4, 7] =
      Some \<lparr>rq_method = 9, rq_args = [value_boolean True]\<rparr>"
    by code_simp
  have "length [0x44, 0x52, 0x50, 0x43, 1, 9, 0, 0, 0, 0, 0, 0, 0, 1, 0, 0, 0, 4, 7 :: byte] = 19"
    by simp
  then show ?thesis using decoded_request_reencodes [OF d, of True]
    by (simp only: size_max_def request.simps) simp
qed

text \<open>
  Request frames are prefix-free: no accepted frame is a proper prefix of another, so
  neither truncated frames nor frames with trailing bytes are mistaken for calls.
\<close>
theorem request_frames_prefix_free:
  assumes "try_decode_request frame = Some rq" "try_decode_request frame' = Some rq'"
    and "prefix frame frame'"
  shows "frame' = frame \<and> rq' = rq"
proof -
  from assms(3) obtain ext where frame': "frame' = frame @ ext" by (auto elim: prefixE)
  then have "ext = []" using assms(2) try_decode_request_sound [OF assms(1)] by auto
  then show ?thesis using assms(1,2) frame' by simp
qed

text \<open>The frame of a call followed by one stray byte is no frame.\<close>

theorem request_frames_prefix_free_witness:
  "\<forall>rq. try_decode_request [0x44, 0x52, 0x50, 0x43, 1, 9, 0, 0, 0, 0, 0, 0, 0, 1, 0, 0, 0, 4, 1, 0] \<noteq> Some rq"
proof -
  have d: "try_decode_request [0x44, 0x52, 0x50, 0x43, 1, 9, 0, 0, 0, 0, 0, 0, 0, 1, 0, 0, 0, 4, 1] =
      Some \<lparr>rq_method = 9, rq_args = [value_boolean True]\<rparr>"
    by code_simp
  have p: "prefix [0x44, 0x52, 0x50, 0x43, 1, 9, 0, 0, 0, 0, 0, 0, 0, 1, 0, 0, 0, 4, 1]
      [0x44, 0x52, 0x50, 0x43, 1, 9, 0, 0, 0, 0, 0, 0, 0, 1, 0, 0, 0, 4, 1, 0 :: byte]"
    by simp
  show ?thesis
  proof (intro allI notI)
    fix rq
    assume "try_decode_request [0x44, 0x52, 0x50, 0x43, 1, 9, 0, 0, 0, 0, 0, 0, 0, 1, 0, 0, 0, 4, 1, 0] = Some rq"
    from request_frames_prefix_free [OF d this p] show False by simp
  qed
qed

text \<open>
  The argument count a decoder trusts is bounded by the frame: an accepted request has at
  most \<open>length frame - 17\<close> arguments, and a frame whose count exceeds the bytes that follow it
  is rejected before anything is reserved for it.
\<close>
theorem request_argument_bound:
  assumes "try_decode_request frame = Some rq"
  shows "17 + length (rq_args rq) \<le> length frame"
  using try_decode_request_sound [OF assms] length_values_bytes [of "rq_args rq"]
  by (simp add: request_frame_def request_header_eq)

theorem request_argument_bound_witness:
  "17 + length [value_boolean True, default_value] \<le>
     length [0x44, 0x52, 0x50, 0x43, 1, 9, 0, 0, 0, 0, 0, 0, 0, 2, 0, 0, 0, 4, 1, 0 :: byte]"
proof -
  have d: "try_decode_request [0x44, 0x52, 0x50, 0x43, 1, 9, 0, 0, 0, 0, 0, 0, 0, 2, 0, 0, 0, 4, 1, 0] =
      Some \<lparr>rq_method = 9, rq_args = [value_boolean True, default_value]\<rparr>"
    by code_simp
  show ?thesis using request_argument_bound [OF d] by simp
qed


subsection \<open>Properties of response frames\<close>

lemma response_header_eq:
  "response_header tag = word_bytes response_magic @ word_bytes protocol_version @ word_bytes tag"
  by (simp add: response_header_def)

lemma encode_response_eq:
  "encode_response ex v =
     (if encodable v then Return (response_header 0 @ value_bytes v)
      else raise_error ex (ProtocolError ''RPC string is too large''))"
  by (cases "v_kind v")
    (simp_all add: encode_response_def encode_value_eq encoded_size_eq encodable_def
      checked_add_def length_value_bytes uint32_max_def size_max_def)

lemma encode_error_eq:
  "encode_error ex message =
     (if length message \<le> uint32_max then Return (response_header 1 @ raw_bytes message)
      else raise_error ex (ProtocolError ''RPC error message is too large''))"
  by (simp add: encode_error_def checked_add_def writer_raw_eq uint32_max_def size_max_def)

lemma try_decode_response_frame:
  "encodable v \<Longrightarrow> try_decode_response (response_header 0 @ value_bytes v) = RespOk (owned_value_of v)"
  using wire_value.dec_enc [of v "[]"]
  by (simp add: try_decode_response_def response_header_eq)

lemma try_decode_error_frame:
  "length m \<le> uint32_max \<Longrightarrow> try_decode_response (response_header 1 @ raw_bytes m) = RespRemoteError m"
  using raw.dec_enc [of m "[]"]
  by (simp add: try_decode_response_def response_header_eq)

text \<open>
  Both kinds of response survive the wire: the value of a successful call comes back with
  the same content, an error comes back as a remote error with its message.
\<close>
theorem response_roundtrip:
  "(encode_response ex v = Return frame \<longrightarrow> decode_response ex frame = Return (owned_value_of v)) \<and>
   (encode_error ex message = Return frame \<longrightarrow>
      decode_response ex frame = raise_error ex (RemoteError message))"
  by (auto simp: encode_response_eq encode_error_eq decode_response_def
      try_decode_response_frame try_decode_error_frame split: if_splits)

theorem response_roundtrip_witness:
  "encode_response True (value_string [111, 107]) =
     Return [0x44, 0x52, 0x50, 0x52, 1, 0, 5, 2, 0, 0, 0, 111, 107] \<and>
   decode_response True [0x44, 0x52, 0x50, 0x52, 1, 0, 5, 2, 0, 0, 0, 111, 107] =
     Return (value_string [111, 107]) \<and>
   encode_error True [110, 111] = Return [0x44, 0x52, 0x50, 0x52, 1, 1, 2, 0, 0, 0, 110, 111] \<and>
   decode_response True [0x44, 0x52, 0x50, 0x52, 1, 1, 2, 0, 0, 0, 110, 111] =
     Throw (RemoteError [110, 111])"
proof -
  have f: "response_header 0 @ value_bytes (value_string [111, 107]) =
      [0x44, 0x52, 0x50, 0x52, 1, 0, 5, 2, 0, 0, 0, 111, 107]"
    "response_header 1 @ raw_bytes [110, 111] = [0x44, 0x52, 0x50, 0x52, 1, 1, 2, 0, 0, 0, 110, 111]"
    by code_simp+
  have e: "encode_response True (value_string [111, 107]) =
        Return [0x44, 0x52, 0x50, 0x52, 1, 0, 5, 2, 0, 0, 0, 111, 107]"
    "encode_error True [110, 111] = Return [0x44, 0x52, 0x50, 0x52, 1, 1, 2, 0, 0, 0, 110, 111]"
    by (simp_all add: encode_response_eq encode_error_eq encodable_def uint32_max_def f)
  have "owned_value_of (value_string [111, 107]) = value_string [111, 107]"
    by (simp add: owned_value_of_def)
  then show ?thesis
    using e response_roundtrip [of True "value_string [111, 107]"]
      response_roundtrip [of True _ _ "[110, 111]"]
    by (simp add: raise_error_def)
qed

lemma try_decode_response_sound:
  assumes "try_decode_response frame \<noteq> RespMalformed" "ext \<noteq> []"
  shows "try_decode_response (frame @ ext) = RespMalformed"
proof -
  obtain magic r1 where 1: "reader_integer (reader_of frame) = (magic :: u32, r1)" by fastforce
  obtain version r2 where 2: "reader_integer r1 = (version :: byte, r2)" by fastforce
  obtain tag r3 where 3: "reader_integer r2 = (tag :: byte, r3)" by fastforce
  from assms(1) 1 2 3 have hd: "magic = response_magic" "version = protocol_version" "r_valid r3"
      "unat tag \<le> 1"
    by (auto simp: try_decode_response_def split: if_splits)
  from 3 hd(3) obtain b3 where b3: "r_valid r2" "r_bytes r2 = b3 @ r_bytes r3"
      "\<And>ext. reader_integer (reader_of (b3 @ ext)) = (tag, reader_of ext)"
    by (rule u8.dec_soundE) auto
  from 2 b3(1) obtain b2 where b2: "r_valid r1" "r_bytes r1 = b2 @ r_bytes r2"
      "\<And>ext. reader_integer (reader_of (b2 @ ext)) = (version, reader_of ext)"
    by (rule u8.dec_soundE) auto
  from 1 b2(1) obtain b1 where b1: "frame = b1 @ r_bytes r1"
      "\<And>ext. reader_integer (reader_of (b1 @ ext)) = (magic, reader_of ext)"
    by (rule u32.dec_soundE) auto
  have re: "frame @ ext = b1 @ b2 @ b3 @ r_bytes r3 @ ext" using b1(1) b2(2) b3(2) by simp
  show ?thesis
  proof (cases "tag = 1")
    case True
    obtain m r4 where 4: "reader_raw r3 = (m, r4)" by fastforce
    with assms(1) 1 2 3 hd True have v4: "r_valid r4" "r_bytes r4 = []"
      by (auto simp: try_decode_response_def split: if_splits)
    from 4 v4(1) obtain b4 where "r_bytes r3 = b4 @ r_bytes r4"
        "\<And>ext. reader_raw (reader_of (b4 @ ext)) = (m, reader_of ext)"
      by (rule raw.dec_soundE) auto
    then show ?thesis using re True hd v4(2) assms(2)
      by (simp add: try_decode_response_def b1(2) b2(3) b3(3))
  next
    case False
    obtain m r4 where 4: "decode_value r3 = (m, r4)" by fastforce
    with assms(1) 1 2 3 hd False have v4: "r_valid r4" "r_bytes r4 = []"
      by (auto simp: try_decode_response_def split: if_splits)
    from 4 v4(1) obtain b4 where "r_bytes r3 = b4 @ r_bytes r4"
        "\<And>ext. decode_value (reader_of (b4 @ ext)) = (m, reader_of ext)"
      by (rule wire_value.dec_soundE) auto
    then show ?thesis using re False hd v4(2) assms(2)
      by (simp add: try_decode_response_def b1(2) b2(3) b3(3))
  qed
qed

text \<open>
  Response frames are prefix-free too, and no frame is both a request and a response.
\<close>
theorem response_frames_unambiguous:
  assumes "try_decode_response frame \<noteq> RespMalformed"
  shows "(strict_prefix frame frame' \<longrightarrow> try_decode_response frame' = RespMalformed) \<and>
    try_decode_request frame = None"
proof -
  have "fst (reader_integer (reader_of frame)) = response_magic"
    using assms by (auto simp: try_decode_response_def split: if_splits prod.splits)
  then have "try_decode_request frame = None"
    by (auto simp: try_decode_request_def request_magic_def response_magic_def split: prod.splits)
  moreover have "try_decode_response frame' = RespMalformed" if "strict_prefix frame frame'"
    using that try_decode_response_sound [OF assms] by (elim strict_prefixE') auto
  ultimately show ?thesis by simp
qed

theorem response_frames_unambiguous_witness:
  "try_decode_response [0x44, 0x52, 0x50, 0x52, 1, 0, 4, 1, 1] = RespMalformed \<and>
   try_decode_request [0x44, 0x52, 0x50, 0x52, 1, 0, 4, 1] = None"
proof -
  have d: "try_decode_response [0x44, 0x52, 0x50, 0x52, 1, 0, 4, 1] = RespOk (value_boolean True)"
    by code_simp
  have p: "strict_prefix [0x44, 0x52, 0x50, 0x52, 1, 0, 4, 1] [0x44, 0x52, 0x50, 0x52, 1, 0, 4, 1, 1 :: byte]"
    by (simp add: strict_prefix_def)
  have ok: "try_decode_response [0x44, 0x52, 0x50, 0x52, 1, 0, 4, 1] \<noteq> RespMalformed"
    unfolding d by simp
  show ?thesis using response_frames_unambiguous [OF ok] p by blast
qed

end
