(* ===== verification/Ownership.thy ===== *)
theory Ownership
  imports Prelude "HOL-Library.Multiset"
begin

section \<open>Single ownership of a resource\<close>

text \<open>
  Several classes of the program own one resource each and can only be moved: an RPC route owns
  its binder, a Python \<open>object_ref\<close> a reference, an N-API \<open>object_t\<close> a handle. This
  theory states that contract once and proves that no program of constructions, moves,
  assignments and destructions leaks a resource or releases one twice.
\<close>

definition opt_mset :: "'r option \<Rightarrow> 'r multiset" where
  "opt_mset r = (case r of None \<Rightarrow> {#} | Some x \<Rightarrow> {#x#})"

lemma opt_mset_simps [simp]: "opt_mset None = {#}" "opt_mset (Some x) = {#x#}"
  by (simp_all add: opt_mset_def)

text \<open>What a program does with its variables, which are numbered.\<close>

datatype 's owner_op =
    Create nat 's
  | MoveConstruct nat nat
  | MoveAssign nat nat
  | Destroy nat

text \<open>
  Variables hold objects while they live. An operation on a dead variable, or a construction
  over a live one, is not a program step and changes nothing.
\<close>

record ('s, 'r) owner_state =
  vars :: "(nat \<times> 's) list"
  released :: "'r multiset"
  created :: "'r multiset"

definition owner_init :: "('s, 'r) owner_state" where
  "owner_init = \<lparr>vars = [], released = {#}, created = {#}\<rparr>"

definition live :: "(nat \<times> 's) list \<Rightarrow> nat \<Rightarrow> 's option" where
  "live vs i = map_of vs i"

definition set_var :: "nat \<Rightarrow> 's \<Rightarrow> (nat \<times> 's) list \<Rightarrow> (nat \<times> 's) list" where
  "set_var i s vs = map (\<lambda>(j, t). (j, if j = i then s else t)) vs"

definition drop_var :: "nat \<Rightarrow> (nat \<times> 's) list \<Rightarrow> (nat \<times> 's) list" where
  "drop_var i vs = filter (\<lambda>(j, t). j \<noteq> i) vs"

text \<open>
  The operations of a class, with the resources each releases. The first argument of
  \<open>move_assign\<close> says whether both operands are the same object.
\<close>

fun owner_step ::
    "('s \<Rightarrow> 'r option) \<Rightarrow> ('s \<Rightarrow> 's \<times> 's) \<Rightarrow> (bool \<Rightarrow> 's \<Rightarrow> 's \<Rightarrow> 's \<times> 's \<times> 'r multiset) \<Rightarrow>
     ('s \<Rightarrow> 'r multiset) \<Rightarrow> ('s, 'r) owner_state \<Rightarrow> 's owner_op \<Rightarrow> ('s, 'r) owner_state" where
  "owner_step held mc ma des st (Create i s) =
     (case live (vars st) i of
        Some _ \<Rightarrow> st
      | None \<Rightarrow> st\<lparr>vars := (i, s) # vars st, created := created st + opt_mset (held s)\<rparr>)"
| "owner_step held mc ma des st (MoveConstruct i j) =
     (case (live (vars st) i, live (vars st) j) of
        (None, Some other) \<Rightarrow>
          let (new, other') = mc other in st\<lparr>vars := (i, new) # set_var j other' (vars st)\<rparr>
      | _ \<Rightarrow> st)"
| "owner_step held mc ma des st (MoveAssign i j) =
     (case (live (vars st) i, live (vars st) j) of
        (Some this, Some other) \<Rightarrow>
          let (this', other', rel) = ma (i = j) this other in
          st\<lparr>vars := set_var i this' (if i = j then vars st else set_var j other' (vars st)),
             released := released st + rel\<rparr>
      | _ \<Rightarrow> st)"
| "owner_step held mc ma des st (Destroy i) =
     (case live (vars st) i of
        None \<Rightarrow> st
      | Some s \<Rightarrow> st\<lparr>vars := drop_var i (vars st), released := released st + des s\<rparr>)"

definition held_by_vars :: "('s \<Rightarrow> 'r option) \<Rightarrow> (nat \<times> 's) list \<Rightarrow> 'r multiset" where
  "held_by_vars held vs = (\<Sum>\<^sub># (mset (map (\<lambda>(i, s). opt_mset (held s)) vs)))"

lemma held_by_vars_simps [simp]:
  "held_by_vars held [] = {#}"
  "held_by_vars held ((i, s) # vs) = opt_mset (held s) + held_by_vars held vs"
  by (simp_all add: held_by_vars_def)

lemma set_var_fst [simp]: "map fst (set_var i s vs) = map fst vs"
  by (induction vs) (auto simp: set_var_def)

lemma live_set_var: "live (set_var i s vs) j = (if j = i then map_option (\<lambda>_. s) (live vs i) else live vs j)"
  by (induction vs) (auto simp: live_def set_var_def)

lemma set_var_absent: "live vs i = None \<Longrightarrow> set_var i s vs = vs"
  by (induction vs) (auto simp: live_def set_var_def split: if_splits)

lemma live_None_iff: "live vs i = None \<longleftrightarrow> i \<notin> set (map fst vs)"
  by (simp add: live_def map_of_eq_None_iff)

text \<open>Replacing the object of one variable replaces its contribution.\<close>

lemma held_set_var:
  "distinct (map fst vs) \<Longrightarrow> live vs i = Some s \<Longrightarrow>
     held_by_vars held (set_var i s' vs) + opt_mset (held s) = held_by_vars held vs + opt_mset (held s')"
proof (induction vs)
  case (Cons p vs)
  obtain j t where p: "p = (j, t)" by fastforce
  show ?case
  proof (cases "j = i")
    case True
    with Cons.prems p have "live vs i = None" by (simp add: live_None_iff)
    then have "set_var i s' (p # vs) = (i, s') # vs" "t = s"
      using True p Cons.prems(2) set_var_absent by (auto simp: set_var_def live_def)
    then show ?thesis using p by simp
  next
    case False
    with Cons p show ?thesis by (simp add: set_var_def live_def ac_simps)
  qed
qed (simp add: live_def)

lemma held_drop_var:
  "distinct (map fst vs) \<Longrightarrow> live vs i = Some s \<Longrightarrow>
     held_by_vars held (drop_var i vs) + opt_mset (held s) = held_by_vars held vs"
proof (induction vs)
  case (Cons p vs)
  obtain j t where p: "p = (j, t)" by fastforce
  show ?case
  proof (cases "j = i")
    case True
    with Cons.prems p have "i \<notin> fst ` set vs" by simp
    then have "drop_var i vs = vs" by (induction vs) (auto simp: drop_var_def)
    then show ?thesis using True p Cons.prems(2) by (simp add: drop_var_def live_def)
  next
    case False
    with Cons p show ?thesis by (simp add: drop_var_def live_def ac_simps)
  qed
qed (simp add: live_def)

lemma distinct_drop_var: "distinct (map fst vs) \<Longrightarrow> distinct (map fst (drop_var i vs))"
  by (induction vs) (auto simp: drop_var_def)

text \<open>
  The contract: a move passes the resource on and leaves the source empty, an assignment
  releases what the target held, a self-assignment changes nothing, and a destructor releases
  what is left.
\<close>

locale move_only_owner =
  fixes held :: "'s \<Rightarrow> 'r option"
    and move_construct :: "'s \<Rightarrow> 's \<times> 's"
    and move_assign :: "bool \<Rightarrow> 's \<Rightarrow> 's \<Rightarrow> 's \<times> 's \<times> 'r multiset"
    and destroy :: "'s \<Rightarrow> 'r multiset"
  assumes move_construct: "move_construct other = (new, other') \<Longrightarrow>
        held new = held other \<and> held other' = None"
    and move_assign: "move_assign False this other = (this', other', rel) \<Longrightarrow>
        held this' = held other \<and> held other' = None \<and> rel = opt_mset (held this)"
    and self_assign: "move_assign True this this = (this', other', rel) \<Longrightarrow>
        held this' = held this \<and> rel = {#}"
    and destroy: "destroy s = opt_mset (held s)"
begin

text \<open>Every resource created is held by exactly one variable or was released exactly once.\<close>

definition balanced :: "('s, 'r) owner_state \<Rightarrow> bool" where
  "balanced st \<longleftrightarrow> distinct (map fst (vars st)) \<and>
     created st = held_by_vars held (vars st) + released st"

abbreviation "op_step \<equiv> owner_step held move_construct move_assign destroy"

lemma balanced_init: "balanced owner_init"
  by (simp add: balanced_def owner_init_def)

lemma balanced_step:
  assumes "balanced st"
  shows "balanced (op_step st x)"
proof -
  from assms have d: "distinct (map fst (vars st))"
    and c: "created st = held_by_vars held (vars st) + released st"
    by (simp_all add: balanced_def)
  show ?thesis
  proof (cases x)
    case (Create i s)
    show ?thesis
    proof (cases "live (vars st) i")
      case None
      then have "i \<notin> fst ` set (vars st)" by (simp add: live_None_iff)
      with None d c Create show ?thesis by (simp add: balanced_def ac_simps)
    qed (use assms Create in simp)
  next
    case (MoveConstruct i j)
    show ?thesis
    proof (cases "live (vars st) i = None \<and> live (vars st) j \<noteq> None")
      case True
      then obtain other where o: "live (vars st) j = Some other" by blast
      obtain new other' where m: "move_construct other = (new, other')" by fastforce
      from True have "i \<notin> fst ` set (vars st)" by (simp add: live_None_iff)
      moreover have "fst ` set (set_var j other' (vars st)) = fst ` set (vars st)"
        using set_var_fst [of j other' "vars st"] by (metis set_map)
      ultimately show ?thesis
        using held_set_var [OF d o, of held other'] move_construct [OF m] True m d c o
        by (simp add: MoveConstruct balanced_def ac_simps)
    next
      case False
      with assms show ?thesis
        by (auto simp: MoveConstruct split: option.splits)
    qed
  next
    case (MoveAssign i j)
    show ?thesis
    proof (cases "live (vars st) i")
      case (Some this)
      show ?thesis
      proof (cases "live (vars st) j")
        case o: (Some other)
        obtain this' other' rel where m: "move_assign (i = j) this other = (this', other', rel)"
          by (metis prod_cases3)
        show ?thesis
        proof (cases "i = j")
          case True
          with m Some o have m': "move_assign True this this = (this', other', rel)" by simp
          then have "held this' = held this" "rel = {#}" by (blast dest: self_assign)+
          then show ?thesis
            using held_set_var [OF d Some, of held this'] d c m' True Some
            by (simp add: MoveAssign balanced_def)
        next
          case False
          with m have h: "held this' = held other" "held other' = None" "rel = opt_mset (held this)"
            by (auto dest: move_assign)
          have d1: "distinct (map fst (set_var j other' (vars st)))" using d by simp
          have l1: "live (set_var j other' (vars st)) i = Some this"
            using False Some by (simp add: live_set_var)
          show ?thesis
            using held_set_var [OF d o, of held other'] held_set_var [OF d1 l1, of held this'] h d c
              m False Some o
            by (simp add: MoveAssign balanced_def ac_simps)
        qed
      qed (use assms Some in \<open>simp add: MoveAssign\<close>)
    qed (use assms in \<open>simp add: MoveAssign\<close>)
  next
    case (Destroy i)
    show ?thesis
    proof (cases "live (vars st) i")
      case (Some s)
      then show ?thesis
        using held_drop_var [OF d Some, of held] d c
        by (simp add: Destroy balanced_def distinct_drop_var destroy ac_simps)
    qed (use assms in \<open>simp add: Destroy\<close>)
  qed
qed

lemma balanced_run: "balanced st \<Longrightarrow> balanced (fold (\<lambda>x st. op_step st x) ops st)"
  by (induction ops arbitrary: st) (simp_all add: balanced_step)

text \<open>
  No leak and no double release: once the variables are gone, what was released is exactly
  what was created; and before that never more than that.
\<close>

lemma no_leak:
  assumes "st = fold (\<lambda>x st. op_step st x) ops owner_init"
  shows "released st \<subseteq># created st \<and> (vars st = [] \<longrightarrow> released st = created st)"
proof -
  have "balanced st" unfolding assms by (intro balanced_run balanced_init)
  then show ?thesis by (simp add: balanced_def)
qed

end

end
