(* ===== verification/KeyedStore.thy ===== *)
theory KeyedStore
  imports Prelude
begin

section \<open>Stores indexed by a key\<close>

text \<open>
  The contract that the RPC router (routes by method id) and the class registry of an export
  context (class targets by type key) share: the last entry stored under a key is the one found.
\<close>

locale keyed_store =
  fixes get :: "'s \<Rightarrow> 'k \<Rightarrow> 'v option"
    and put :: "'k \<Rightarrow> 'v \<Rightarrow> 's \<Rightarrow> 's"
    and empty :: 's
    and invar :: "'s \<Rightarrow> bool"
    and allowed :: "'k \<Rightarrow> 'v \<Rightarrow> bool"
  assumes invar_empty: "invar empty"
    and get_empty: "get empty k = None"
    and invar_put: "invar s \<Longrightarrow> allowed k v \<Longrightarrow> invar (put k v s)"
    and get_put: "invar s \<Longrightarrow> allowed k v \<Longrightarrow> get (put k v s) k' = (if k' = k then Some v else get s k')"
begin

definition put_all :: "('k \<times> 'v) list \<Rightarrow> 's \<Rightarrow> 's" where
  "put_all kvs s = fold (\<lambda>(k, v) s. put k v s) kvs s"

lemma put_all_invar: "invar s \<Longrightarrow> \<forall>(k, v) \<in> set kvs. allowed k v \<Longrightarrow> invar (put_all kvs s)"
  by (induction kvs arbitrary: s) (auto simp: put_all_def invar_put)

lemma get_put_all:
  "invar s \<Longrightarrow> \<forall>(k, v) \<in> set kvs. allowed k v \<Longrightarrow>
     get (put_all kvs s) k = (case map_of (rev kvs) k of None \<Rightarrow> get s k | Some v \<Rightarrow> Some v)"
  by (induction kvs arbitrary: s)
    (auto simp: put_all_def invar_put get_put map_add_def split: option.splits)

lemma get_put_all_empty:
  "\<forall>(k, v) \<in> set kvs. allowed k v \<Longrightarrow> get (put_all kvs empty) k = map_of (rev kvs) k"
  by (simp add: get_put_all invar_empty get_empty split: option.splits)

end

end
