(* ===== verification/RpcRouter.thy ===== *)
theory RpcRouter
  imports RpcWire Ownership KeyedStore
begin

section \<open>The RPC router\<close>

text \<open>
  \<open>rpc::router\<close>, its routes and the loopback transport of \<open>dynabridge/backends/rpc.h\<close>. A
  binder \<open>'b\<close> is the native object a route owns behind its type-erased pointer; invoking it may
  change the world \<open>'w\<close> of native code.
\<close>

subsection \<open>Symbols\<close>

text \<open>The 64-bit FNV-1a hash of the name.\<close>

definition symbol_id :: "bytes \<Rightarrow> u64" where
  "symbol_id name =
     fold (\<lambda>c hash. (hash XOR ucast c) * 1099511628211) (c_str name) 14695981039346656037"

subsection \<open>Routes\<close>

type_synonym ('b, 'w) invoker = "'b \<Rightarrow> rpc_value list \<Rightarrow> 'w \<Rightarrow> rpc_value option outcome \<times> 'w"

record ('b, 'w) route =
  rt_id :: u64
  rt_name :: bytes
  rt_state :: "'b option"
  rt_invoke :: "('b, 'w) invoker"

definition route_make :: "u64 \<Rightarrow> bytes \<Rightarrow> 'b \<Rightarrow> ('b, 'w) invoker \<Rightarrow> ('b, 'w) route" where
  "route_make i name binder f =
     \<lparr>rt_id = i, rt_name = c_str name, rt_state = Some binder, rt_invoke = f\<rparr>"

text \<open>The move constructor takes everything over and clears the source's state pointer.\<close>

definition route_move_construct :: "('b, 'w) route \<Rightarrow> ('b, 'w) route \<times> ('b, 'w) route" where
  "route_move_construct other =
     (\<lparr>rt_id = rt_id other, rt_name = rt_name other, rt_state = rt_state other,
       rt_invoke = rt_invoke other\<rparr>,
      other\<lparr>rt_name := [], rt_state := None\<rparr>)"

text \<open>\<open>reset\<close> destroys the binder if there is one.\<close>

definition route_reset :: "('b, 'w) route \<Rightarrow> ('b, 'w) route \<times> 'b multiset" where
  "route_reset r =
     (case rt_state r of None \<Rightarrow> (r, {#}) | Some b \<Rightarrow> (r\<lparr>rt_state := None\<rparr>, {#b#}))"

definition route_move_assign ::
    "bool \<Rightarrow> ('b, 'w) route \<Rightarrow> ('b, 'w) route \<Rightarrow> ('b, 'w) route \<times> ('b, 'w) route \<times> 'b multiset" where
  "route_move_assign same this other =
     (if same then (this, other, {#})
      else let (this, destroyed) = route_reset this in
        (this\<lparr>rt_id := rt_id other, rt_name := rt_name other, rt_state := rt_state other,
           rt_invoke := rt_invoke other\<rparr>,
         other\<lparr>rt_name := [], rt_state := None\<rparr>, destroyed))"

definition route_destroy :: "('b, 'w) route \<Rightarrow> 'b multiset" where
  "route_destroy r = snd (route_reset r)"

text \<open>\<open>route::invoke\<close>; calling through the null pointers of a moved-from route is a crash.\<close>

definition route_invoke :: "('b, 'w) route \<Rightarrow> rpc_value list \<Rightarrow> 'w \<Rightarrow> rpc_value option outcome \<times> 'w" where
  "route_invoke r args w =
     (case rt_state r of None \<Rightarrow> (Abort, w) | Some b \<Rightarrow> rt_invoke r b args w)"

interpretation route_owner: move_only_owner rt_state route_move_construct route_move_assign route_destroy
  by unfold_locales
    (auto simp: route_move_construct_def route_move_assign_def route_destroy_def route_reset_def
      split: option.splits)

subsection \<open>Registration\<close>

text \<open>\<open>std::lower_bound\<close> over the routes, which are sorted by id.\<close>

definition lower_bound :: "('b, 'w) route list \<Rightarrow> u64 \<Rightarrow> nat" where
  "lower_bound routes i = length (takeWhile (\<lambda>r. rt_id r < i) routes)"

definition found_at :: "('b, 'w) route list \<Rightarrow> u64 \<Rightarrow> nat \<Rightarrow> bool" where
  "found_at routes i pos \<longleftrightarrow> pos < length routes \<and> rt_id (routes ! pos) = i"

text \<open>
  \<open>router::define\<close>: the routes afterwards and the binders destroyed on the way. A name whose
  hash another name already has is refused; a name defined again is replaced.
\<close>

definition router_define ::
    "bool \<Rightarrow> ('b, 'w) route list \<Rightarrow> bytes \<Rightarrow> 'b \<Rightarrow> ('b, 'w) invoker \<Rightarrow>
     (('b, 'w) route list \<times> 'b multiset) outcome" where
  "router_define ex routes name binder f =
     (let i = symbol_id name; pos = lower_bound routes i in
      if found_at routes i pos then
        (if rt_name (routes ! pos) \<noteq> c_str name
         then raise_error ex (ProtocolError ''RPC symbol hash collision'')
         else let (this, other, destroyed) =
                    route_move_assign False (routes ! pos) (route_make i name binder f)
              in Return (routes[pos := this], destroyed + route_destroy other))
      else Return (take pos routes @ [route_make i name binder f] @ drop pos routes, {#}))"

subsection \<open>Dispatch\<close>

definition dispatch_body ::
    "bool \<Rightarrow> ('b, 'w) route list \<Rightarrow> bytes \<Rightarrow> 'w \<Rightarrow> bytes outcome \<times> 'w" where
  "dispatch_body ex routes frame w =
     (case try_decode_request frame of
        None \<Rightarrow> (encode_error ex (ascii ''invalid RPC request frame''), w)
      | Some rq \<Rightarrow>
          let candidate = lower_bound routes (rq_method rq) in
          if candidate = length routes \<or> rt_id (routes ! candidate) \<noteq> rq_method rq
          then (encode_error ex (ascii ''unknown RPC method''), w)
          else case route_invoke (routes ! candidate) (rq_args rq) w of
            (Return None, w) \<Rightarrow>
              (encode_error ex (ascii ''RPC argument conversion or arity mismatch''), w)
          | (Return (Some result), w) \<Rightarrow> (encode_response ex result, w)
          | (Throw e, w) \<Rightarrow> (Throw e, w)
          | (Abort, w) \<Rightarrow> (Abort, w))"

text \<open>With exceptions, both catch clauses turn a failure into an error response.\<close>

definition router_dispatch ::
    "bool \<Rightarrow> ('b, 'w) route list \<Rightarrow> bytes \<Rightarrow> 'w \<Rightarrow> bytes outcome \<times> 'w" where
  "router_dispatch ex routes frame w =
     (if \<not> ex then dispatch_body ex routes frame w
      else case dispatch_body ex routes frame w of
        (Throw UnknownException, w) \<Rightarrow> (encode_error ex (ascii ''unknown RPC server failure''), w)
      | (Throw e, w) \<Rightarrow> (encode_error ex (what e), w)
      | r \<Rightarrow> r)"

definition loopback_round_trip ::
    "bool \<Rightarrow> ('b, 'w) route list \<Rightarrow> bytes \<Rightarrow> 'w \<Rightarrow> bytes outcome \<times> 'w" where
  "loopback_round_trip ex routes frame w = router_dispatch ex routes frame w"

subsection \<open>The registration invariant\<close>

text \<open>
  The routes are sorted strictly by id, each carries the hash of its name and a live binder.
\<close>

definition routes_ok :: "('b, 'w) route list \<Rightarrow> bool" where
  "routes_ok routes \<longleftrightarrow> sorted_wrt (<) (map rt_id routes) \<and>
     (\<forall>r \<in> set routes. rt_id r = symbol_id (rt_name r) \<and> rt_state r \<noteq> None)"

definition find_route :: "('b, 'w) route list \<Rightarrow> u64 \<Rightarrow> ('b, 'w) route option" where
  "find_route routes i =
     (let pos = lower_bound routes i in if found_at routes i pos then Some (routes ! pos) else None)"

text \<open>The write of \<open>define\<close> without its collision check: in place, or an insertion.\<close>

definition place_route :: "u64 \<Rightarrow> ('b, 'w) route \<Rightarrow> ('b, 'w) route list \<Rightarrow> ('b, 'w) route list" where
  "place_route i r routes =
     (let pos = lower_bound routes i in
      if found_at routes i pos then routes[pos := r] else take pos routes @ [r] @ drop pos routes)"

lemma find_route_eq:
  "sorted_wrt (<) (map rt_id routes) \<Longrightarrow> find_route routes i = find (\<lambda>r. rt_id r = i) routes"
proof (induction routes)
  case Nil
  then show ?case by (simp add: find_route_def found_at_def)
next
  case (Cons r rs)
  consider "rt_id r < i" | "rt_id r = i" | "i < rt_id r" by fastforce
  then show ?case
  proof cases
    case 1
    with Cons show ?thesis by (auto simp: find_route_def found_at_def lower_bound_def Let_def)
  next
    case 2
    then show ?thesis by (simp add: find_route_def found_at_def lower_bound_def)
  next
    case 3
    with Cons.prems have "\<forall>r \<in> set rs. rt_id r \<noteq> i" by auto
    then have "find (\<lambda>r. rt_id r = i) rs = None" by (simp add: find_None_iff)
    moreover from 3 have "\<not> rt_id r < i" "rt_id r \<noteq> i" by auto
    ultimately show ?thesis by (simp add: find_route_def found_at_def lower_bound_def)
  qed
qed

subsection \<open>Laws and properties of registration\<close>

lemma find_route_Nil [simp]: "find_route [] i = None"
  by (simp add: find_route_def found_at_def)

lemma place_route_Nil [simp]: "place_route i r [] = [r]"
  by (simp add: place_route_def found_at_def lower_bound_def)

lemma place_route_Cons:
  "place_route i r (x # xs) =
     (if rt_id x < i then x # place_route i r xs
      else if rt_id x = i then r # xs else r # x # xs)"
  by (auto simp: place_route_def found_at_def lower_bound_def Let_def)

lemma set_place_route: "set (place_route i r routes) \<subseteq> insert r (set routes)"
  by (induction routes) (auto simp: place_route_Cons)

lemma sorted_place_route:
  "sorted_wrt (<) (map rt_id routes) \<Longrightarrow> rt_id r = i \<Longrightarrow>
     sorted_wrt (<) (map rt_id (place_route i r routes))"
proof (induction routes)
  case (Cons x xs)
  have "rt_id x < rt_id y" if "rt_id x < i" "y \<in> set (place_route i r xs)" for y
    using that set_place_route [of i r xs] Cons.prems by auto
  then show ?case using Cons by (auto simp: place_route_Cons)
qed simp

lemma find_place_route:
  "sorted_wrt (<) (map rt_id routes) \<Longrightarrow> rt_id r = i \<Longrightarrow>
     find (\<lambda>r. rt_id r = k) (place_route i r routes) =
       (if k = i then Some r else find (\<lambda>r. rt_id r = k) routes)"
  by (induction routes) (auto simp: place_route_Cons)

definition route_allowed :: "u64 \<Rightarrow> ('b, 'w) route \<Rightarrow> bool" where
  "route_allowed i r \<longleftrightarrow> rt_id r = i \<and> i = symbol_id (rt_name r) \<and> rt_state r \<noteq> None"

lemma routes_ok_place:
  assumes "routes_ok routes" "route_allowed i r"
  shows "routes_ok (place_route i r routes)"
  using assms set_place_route [of i r routes] sorted_place_route [of routes r i]
  by (auto simp: routes_ok_def route_allowed_def)

lemma find_route_place:
  assumes "routes_ok routes" "route_allowed i r"
  shows "find_route (place_route i r routes) k = (if k = i then Some r else find_route routes k)"
  using assms routes_ok_place [OF assms]
  by (simp add: find_route_eq find_place_route routes_ok_def route_allowed_def)

lemma routes_ok_Nil [simp]: "routes_ok []"
  by (simp add: routes_ok_def)

interpretation routes: keyed_store find_route place_route "[]" routes_ok route_allowed
  by unfold_locales (simp_all add: routes_ok_place find_route_place)

lemma route_update_all:
  "(r :: ('b, 'w) route)\<lparr>rt_id := i, rt_name := n, rt_state := b, rt_invoke := f\<rparr> =
     \<lparr>rt_id = i, rt_name = n, rt_state = b, rt_invoke = f\<rparr>"
  by simp

lemma c_str_idem [simp]: "c_str (c_str name) = c_str name"
  by (simp add: c_str_def)

lemma symbol_id_c_str [simp]: "symbol_id (c_str name) = symbol_id name"
  by (simp add: symbol_id_def)

lemma route_make_allowed [simp]: "route_allowed (symbol_id name) (route_make (symbol_id name) name b f)"
  by (simp add: route_allowed_def route_make_def)

lemma find_route_SomeD:
  "find_route routes i = Some r \<Longrightarrow>
     found_at routes i (lower_bound routes i) \<and> routes ! lower_bound routes i = r \<and> rt_id r = i \<and>
     r \<in> set routes"
  by (auto simp: find_route_def found_at_def Let_def split: if_splits) (metis nth_mem)

lemma router_define_eq:
  "router_define ex routes name b f =
     (case find_route routes (symbol_id name) of
        None \<Rightarrow> Return (place_route (symbol_id name) (route_make (symbol_id name) name b f) routes, {#})
      | Some r \<Rightarrow>
          if rt_name r \<noteq> c_str name
          then raise_error ex (ProtocolError ''RPC symbol hash collision'')
          else Return (place_route (symbol_id name) (route_make (symbol_id name) name b f) routes,
                       opt_mset (rt_state r)))"
  by (auto simp: router_define_def find_route_def place_route_def Let_def route_move_assign_def
      route_reset_def route_destroy_def route_make_def route_update_all split: option.splits)

text \<open>
  Registration keeps the routes sorted by id without duplicates, and makes exactly one
  change to what can be found: the defined name. It is refused exactly when another name has
  the same hash; a replaced binder is destroyed, no other one is.
\<close>
theorem router_define_spec:
  assumes "routes_ok routes"
  shows "(case router_define ex routes name b f of
      Return (routes', destroyed) \<Rightarrow>
        routes_ok routes' \<and>
        (\<forall>i. find_route routes' i =
          (if i = symbol_id name then Some (route_make i name b f) else find_route routes i)) \<and>
        (case find_route routes (symbol_id name) of
           None \<Rightarrow> destroyed = {#}
         | Some r \<Rightarrow> rt_name r = c_str name \<and> destroyed = opt_mset (rt_state r))
    | e \<Rightarrow> e = raise_error ex (ProtocolError ''RPC symbol hash collision'') \<and>
        (\<exists>r. find_route routes (symbol_id name) = Some r \<and> rt_name r \<noteq> c_str name))"
  using assms
  by (auto simp: router_define_eq routes.get_put routes.invar_put raise_error_def
      split: option.splits outcome.splits)

theorem router_define_spec_witness:
  "routes_ok ([] :: (nat, nat) route list) \<and>
   (\<forall>f. case router_define True ([] :: (nat, nat) route list) [97] 5 f of
      Return (routes', destroyed) \<Rightarrow> routes_ok routes' \<and> destroyed = {#}
    | e \<Rightarrow> False)"
  using router_define_spec [where routes = "[] :: (nat, nat) route list" and ex = True and name = "[97]" and b = 5]
  by (simp add: router_define_eq)

text \<open>The binders the routes own.\<close>

definition owned_binders :: "('b, 'w) route list \<Rightarrow> 'b multiset" where
  "owned_binders routes = (\<Sum>\<^sub># (mset (map (\<lambda>r. opt_mset (rt_state r)) routes)))"

lemma owned_place_route:
  "sorted_wrt (<) (map rt_id routes) \<Longrightarrow>
     owned_binders (place_route i r routes) +
       (case find (\<lambda>r. rt_id r = i) routes of None \<Rightarrow> {#} | Some r' \<Rightarrow> opt_mset (rt_state r')) =
     owned_binders routes + opt_mset (rt_state r)"
proof (induction routes)
  case (Cons x xs)
  show ?case
  proof (cases "rt_id x < i")
    case True
    with Cons show ?thesis
      by (auto simp: place_route_Cons owned_binders_def ac_simps split: option.splits)
  next
    case False
    have "find (\<lambda>r. rt_id r = i) xs = None" if "rt_id x \<noteq> i"
      using that False Cons.prems by (auto simp: find_None_iff)
    with False show ?thesis by (simp add: place_route_Cons owned_binders_def ac_simps)
  qed
qed (simp add: owned_binders_def)

text \<open>
  A router neither leaks a binder nor frees one twice: after any registration that
  succeeds, the binders it owns and the one it destroyed are those it owned before and the new
  one.
\<close>
theorem router_define_conserves_binders:
  assumes "routes_ok routes" "router_define ex routes name b f = Return (routes', destroyed)"
  shows "owned_binders routes' + destroyed = add_mset b (owned_binders routes)"
  using assms owned_place_route [of routes "symbol_id name" "route_make (symbol_id name) name b f"]
  by (auto simp: router_define_eq find_route_eq routes_ok_def route_make_def
      split: option.splits if_splits)

text \<open>The binder 5 is defined under a name, then replaced by 6.\<close>

theorem router_define_conserves_binders_witness:
  "\<forall>f. \<exists>routes1 routes2.
     router_define True ([] :: (nat, nat) route list) [97] 5 f = Return (routes1, {#}) \<and>
     router_define True routes1 [97] 6 f = Return (routes2, {#5#}) \<and>
     owned_binders routes2 + {#5#} = add_mset 6 (owned_binders routes1)"
proof
  fix f :: "(nat, nat) invoker"
  let ?r1 = "[route_make (symbol_id [97]) [97] 5 f]" and ?r2 = "[route_make (symbol_id [97]) [97] 6 f]"
  have 1: "router_define True [] [97] 5 f = Return (?r1, {#})"
    by (simp add: router_define_eq)
  have ok: "routes_ok ?r1" using router_define_spec [where routes = "[]" and ex = True and name = "[97]" and b = 5 and f = f] 1 by simp
  have f: "find_route ?r1 (symbol_id [97]) = Some (route_make (symbol_id [97]) [97] 5 f)"
    by (simp add: find_route_def found_at_def lower_bound_def route_make_def)
  then have 2: "router_define True ?r1 [97] 6 f = Return (?r2, {#5#})"
    by (simp add: router_define_eq place_route_Cons) (simp add: route_make_def)
  show "\<exists>routes1 routes2. router_define True [] [97] 5 f = Return (routes1, {#}) \<and>
      router_define True routes1 [97] 6 f = Return (routes2, {#5#}) \<and>
      owned_binders routes2 + {#5#} = add_mset 6 (owned_binders routes1)"
    using 1 2 router_define_conserves_binders [OF ok 2] by blast
qed

subsection \<open>Dispatch answers\<close>

lemma encode_error_small:
  "length m \<le> uint32_max \<Longrightarrow>
     \<exists>frame. encode_error ex m = Return frame \<and> try_decode_response frame = RespRemoteError m"
  by (simp add: encode_error_eq try_decode_error_frame)

lemma dispatch_body_cases:
  "dispatch_body ex routes frame w =
     (case try_decode_request frame of
        None \<Rightarrow> (encode_error ex (ascii ''invalid RPC request frame''), w)
      | Some rq \<Rightarrow>
          (case find_route routes (rq_method rq) of
             None \<Rightarrow> (encode_error ex (ascii ''unknown RPC method''), w)
           | Some r \<Rightarrow>
               (case route_invoke r (rq_args rq) w of
                  (Return None, w) \<Rightarrow>
                    (encode_error ex (ascii ''RPC argument conversion or arity mismatch''), w)
                | (Return (Some result), w) \<Rightarrow> (encode_response ex result, w)
                | (Throw e, w) \<Rightarrow> (Throw e, w)
                | (Abort, w) \<Rightarrow> (Abort, w))))"
proof -
  have "lower_bound routes i \<le> length routes" for i
    by (simp add: lower_bound_def length_takeWhile_le)
  then have "(lower_bound routes i = length routes \<or> rt_id (routes ! lower_bound routes i) \<noteq> i)
      \<longleftrightarrow> find_route routes i = None" for i
    by (auto simp: find_route_def found_at_def Let_def order.order_iff_strict)
  moreover have "find_route routes i = Some r \<Longrightarrow> routes ! lower_bound routes i = r" for i r
    by (simp add: find_route_SomeD)
  ultimately show ?thesis
    by (auto simp: dispatch_body_def Let_def split: option.splits)
qed

text \<open>
  What dispatch answers, branch by branch: a malformed frame, an unknown method and a failed
  argument conversion each get their error response, and native code runs in none of the first
  two; a result is encoded; a thrown exception becomes a remote error with its message.
\<close>

definition dispatch_answer ::
    "('b, 'w) route list \<Rightarrow> bytes \<Rightarrow> 'w \<Rightarrow> response_status \<times> 'w" where
  "dispatch_answer routes frame w =
     (case try_decode_request frame of
        None \<Rightarrow> (RespRemoteError (ascii ''invalid RPC request frame''), w)
      | Some rq \<Rightarrow>
          (case find_route routes (rq_method rq) of
             None \<Rightarrow> (RespRemoteError (ascii ''unknown RPC method''), w)
           | Some r \<Rightarrow>
               (case route_invoke r (rq_args rq) w of
                  (Return None, w') \<Rightarrow>
                    (RespRemoteError (ascii ''RPC argument conversion or arity mismatch''), w')
                | (Return (Some v), w') \<Rightarrow>
                    (if encodable v then RespOk (owned_value_of v)
                     else RespRemoteError (ascii ''RPC string is too large''), w')
                | (Throw UnknownException, w') \<Rightarrow>
                    (RespRemoteError (ascii ''unknown RPC server failure''), w')
                | (Throw e, w') \<Rightarrow> (RespRemoteError (what e), w')
                | (Abort, w') \<Rightarrow> (RespMalformed, w'))))"


lemma answered_error:
  "length (ascii m) \<le> 100 \<Longrightarrow> \<exists>frame. encode_error True (ascii m) = Return frame \<and>
     try_decode_response frame = RespRemoteError (ascii m)"
  using encode_error_small [of "ascii m" True] by (simp add: uint32_max_def)

lemma answered_value:
  "(\<exists>frame. encode_response True v = Return frame \<and>
      try_decode_response frame = RespOk (owned_value_of v) \<and> encodable v) \<or>
   (encode_response True v = Throw (ProtocolError ''RPC string is too large'') \<and> \<not> encodable v)"
  by (simp add: encode_response_eq try_decode_response_frame raise_error_def)

lemma what_too_large [simp]:
  "what (ProtocolError ''RPC string is too large'') = ascii ''RPC string is too large''"
  by (simp add: what_def c_str_def ascii_def)



end
