(* ===== verification/Actions.thy ===== *)
theory Actions
  imports Prelude
begin

section \<open>Actions\<close>

text \<open>
  Code that raises and changes state, as explicit state passing: an action maps a state to an
  outcome and the state it leaves behind, also when it throws. Loops over a parameter pack
  become loops over a list of indices.
\<close>

type_synonym ('s, 'a) action = "'s \<Rightarrow> 'a outcome \<times> 's"

definition act_return :: "'a \<Rightarrow> ('s, 'a) action" where
  "act_return x s = (Return x, s)"

definition act_raise :: "bool \<Rightarrow> cpp_exn \<Rightarrow> ('s, 'a) action" where
  "act_raise ex e s = (raise_error ex e, s)"

definition act_bind :: "('s, 'a) action \<Rightarrow> ('a \<Rightarrow> ('s, 'b) action) \<Rightarrow> ('s, 'b) action" where
  "act_bind m f s =
     (case m s of
        (Return x, s') \<Rightarrow> f x s'
      | (Throw e, s') \<Rightarrow> (Throw e, s')
      | (Abort, s') \<Rightarrow> (Abort, s'))"

lemma act_bind_return [simp]:
  "act_bind (act_return x) f = f x"
  "act_bind m act_return = m"
  by (auto simp: act_bind_def act_return_def fun_eq_iff split: outcome.splits prod.splits)

lemma act_bind_raise [simp]: "act_bind (act_raise ex e) f = act_raise ex e"
  by (simp add: act_bind_def act_raise_def raise_error_def fun_eq_iff)

lemma act_bind_assoc: "act_bind (act_bind m f) g = act_bind m (\<lambda>x. act_bind (f x) g)"
  by (auto simp: act_bind_def fun_eq_iff split: outcome.splits prod.splits)

lemma act_bind_step:
  "m s = (Return x, s') \<Longrightarrow> act_bind m f s = f x s'"
  "m s = (Throw e, s') \<Longrightarrow> act_bind m f s = (Throw e, s')"
  "m s = (Abort, s') \<Longrightarrow> act_bind m f s = (Abort, s')"
  by (simp_all add: act_bind_def)

lemma act_bind_cong [fundef_cong]:
  assumes "s = s'" "m s' = m' s'" "\<And>x t. m' s' = (Return x, t) \<Longrightarrow> f x t = f' x t"
  shows "act_bind m f s = act_bind m' f' s'"
  using assms by (auto simp: act_bind_def split: outcome.splits prod.splits)

text \<open>Running an action on one half of the state.\<close>

definition on_snd :: "('w, 'a) action \<Rightarrow> ('d \<times> 'w, 'a) action" where
  "on_snd m s = (case m (snd s) of (r, w) \<Rightarrow> (r, (fst s, w)))"

lemma on_snd_return [simp]: "on_snd (act_return x) = act_return x"
  by (auto simp: on_snd_def act_return_def fun_eq_iff)

lemma on_snd_pair: "m w = (r, w') \<Longrightarrow> on_snd m (d, w) = (r, (d, w'))"
  by (simp add: on_snd_def)

lemma on_snd_bind: "on_snd (act_bind m f) = act_bind (on_snd m) (\<lambda>x. on_snd (f x))"
  by (auto simp: on_snd_def act_bind_def fun_eq_iff split: outcome.splits prod.splits)

text \<open>Left-to-right evaluation of one action per list element.\<close>

fun act_map :: "('x \<Rightarrow> ('s, 'a) action) \<Rightarrow> 'x list \<Rightarrow> ('s, 'a list) action" where
  "act_map f [] = act_return []"
| "act_map f (x # xs) =
     act_bind (f x) (\<lambda>y. act_bind (act_map f xs) (\<lambda>ys. act_return (y # ys)))"

lemma act_map_pure:
  "(\<And>x. x \<in> set xs \<Longrightarrow> f x s = (Return (g x), s)) \<Longrightarrow> act_map f xs s = (Return (map g xs), s)"
  by (induction xs) (simp_all add: act_bind_def act_return_def)

lemma act_map_const: "act_map (\<lambda>x. act_return (g x)) xs = act_return (map g xs)"
  by (induction xs) simp_all

text \<open>
  The arguments of a function call are evaluated in an order the compiler chooses: one action
  per position, the results stored at their positions.
\<close>

fun act_at :: "nat list \<Rightarrow> (nat \<Rightarrow> ('s, 'a) action) \<Rightarrow> 'a list \<Rightarrow> ('s, 'a list) action" where
  "act_at [] f res = act_return res"
| "act_at (i # is) f res = act_bind (f i) (\<lambda>r. act_at is f (res[i := r]))"

definition evaluation_order :: "(nat \<Rightarrow> nat list) \<Rightarrow> bool" where
  "evaluation_order order \<longleftrightarrow> (\<forall>n. distinct (order n) \<and> set (order n) = {..<n})"

lemma evaluation_order_upt [simp]: "evaluation_order (\<lambda>n. [0..<n])"
  by (auto simp: evaluation_order_def)

lemma evaluation_order_rev [simp]: "evaluation_order (\<lambda>n. rev [0..<n])"
  by (auto simp: evaluation_order_def)

lemma act_at_pure:
  assumes "\<And>i. i \<in> set is \<Longrightarrow> f i s = (Return (g i), s)"
  shows "act_at is f res s = (Return (fold (\<lambda>i res. res[i := g i]) is res), s)"
  using assms
proof (induction "is" arbitrary: res)
  case Nil
  then show ?case by (simp add: act_return_def)
next
  case (Cons i "is")
  then show ?case by (simp add: act_bind_def)
qed

lemma fold_update_map:
  "set is \<subseteq> {..<length res} \<Longrightarrow>
     fold (\<lambda>i res. res[i := g i]) is res = map (\<lambda>j. if j \<in> set is then g j else res ! j) [0..<length res]"
proof (induction "is" arbitrary: res)
  case Nil
  then show ?case by (simp add: map_nth)
next
  case (Cons i "is")
  then show ?case by (auto simp: nth_list_update intro!: nth_equalityI)
qed

text \<open>Side-effect free evaluation gives the same results in every order.\<close>

lemma act_at_order:
  assumes "evaluation_order order" "length res = n"
    and "\<And>i. i < n \<Longrightarrow> f i s = (Return (g i), s)"
  shows "act_at (order n) f res s = (Return (map g [0..<n]), s)"
proof -
  have o: "set (order n) = {..<n}" using assms(1) by (simp add: evaluation_order_def)
  then have "act_at (order n) f res s = (Return (fold (\<lambda>i res. res[i := g i]) (order n) res), s)"
    using assms(3) by (intro act_at_pure) auto
  with o assms(2) show ?thesis by (simp add: fold_update_map)
qed


lemma act_at_slots_aux:
  assumes f: "\<And>i ds w. i < n \<Longrightarrow> length ds = n \<Longrightarrow> f i (ds, w) = (Return (g i (ds ! i)), (ds[i := h i (ds ! i)], w))"
  shows "distinct is \<Longrightarrow> set is \<subseteq> {..<n} \<Longrightarrow> length ds = n \<Longrightarrow> length res = n \<Longrightarrow>
    act_at is f res (ds, w) =
      (Return (map (\<lambda>i. if i \<in> set is then g i (ds ! i) else res ! i) [0..<n]),
       (map (\<lambda>i. if i \<in> set is then h i (ds ! i) else ds ! i) [0..<n], w))"
proof (induction "is" arbitrary: ds res)
  case Nil
  then show ?case by (auto simp: act_return_def map_nth intro!: nth_equalityI)
next
  case (Cons i "is")
  have "f i (ds, w) = (Return (g i (ds ! i)), (ds[i := h i (ds ! i)], w))"
    using Cons.prems f by auto
  then have "act_at (i # is) f res (ds, w) = act_at is f (res[i := g i (ds ! i)]) (ds[i := h i (ds ! i)], w)"
    by (simp add: act_bind_step)
  also have "\<dots> = (Return (map (\<lambda>j. if j \<in> set is then g j (ds[i := h i (ds ! i)] ! j) else res[i := g i (ds ! i)] ! j) [0..<n]),
       (map (\<lambda>j. if j \<in> set is then h j (ds[i := h i (ds ! i)] ! j) else ds[i := h i (ds ! i)] ! j) [0..<n], w))"
    using Cons.prems by (intro Cons.IH) auto
  finally show ?case
    using Cons.prems by (auto simp: nth_list_update intro!: nth_equalityI)
qed

text \<open>Actions that each touch only their own slot: any order, the same results and slots.\<close>

lemma act_at_slots:
  assumes "evaluation_order order" "length ds = n" "length res = n"
    and "\<And>i ds w. i < n \<Longrightarrow> length ds = n \<Longrightarrow> f i (ds, w) = (Return (g i (ds ! i)), (ds[i := h i (ds ! i)], w))"
  shows "act_at (order n) f res (ds, w) =
    (Return (map (\<lambda>i. g i (ds ! i)) [0..<n]), (map (\<lambda>i. h i (ds ! i)) [0..<n], w))"
proof -
  have o: "distinct (order n)" "set (order n) = {..<n}" using assms(1) by (simp_all add: evaluation_order_def)
  show ?thesis
    using act_at_slots_aux [OF assms(4) o(1) _ assms(2,3)] o(2) by auto
qed

end
