(* ===== verification/Converters.thy ===== *)
theory Converters
  imports Actions
begin

section \<open>Converters\<close>

text \<open>
  A backend's \<open>converter<T>\<close> (\<open>dynabridge/traits.h\<close>, \<open>to_cast\<close> to \<open>from_cast\<close>): a pure probe,
  the conversion to a dynamic value, and the conversion from one in its two overloads, for a
  constant value and for a mutable slot it may consume.
\<close>

record ('d, 'n) converter_ops =
  cv_probe :: "'d \<Rightarrow> bool"
  cv_to :: "'n \<Rightarrow> 'd"
  cv_from :: "'d \<Rightarrow> 'n option"
  cv_take :: "'d \<Rightarrow> 'n option \<times> 'd"

text \<open>\<open>from_cast\<close>: an empty optional is an error.\<close>

definition from_cast :: "bool \<Rightarrow> ('d, 'n) converter_ops \<Rightarrow> 'd \<Rightarrow> 'n outcome" where
  "from_cast ex cv d =
     (case cv_from cv d of
        None \<Rightarrow> raise_error ex
          (BadConversion ''dynabridge value is not convertible to the requested C++ type'')
      | Some x \<Rightarrow> Return x)"

text \<open>The limits of \<open>int\<close> and \<open>unsigned\<close>, which have 32 bits.\<close>

definition int_min :: int where "int_min = - 2147483648"
definition int_max :: int where "int_max = 2147483647"
definition unsigned_max :: nat where "unsigned_max = 4294967295"

lemma int_range: "n \<ge> int_min \<Longrightarrow> n \<le> int_max \<Longrightarrow> sint (word_of_int n :: 32 word) = n"
  by (simp add: int_min_def int_max_def sint_sbintrunc' signed_take_bit_int_eq_self)

lemma sint_range: "int_min \<le> sint (i :: 32 word)" "sint (i :: 32 word) \<le> int_max"
  using sint_greater_eq [of i] sint_lt [of i] by (simp_all add: int_min_def int_max_def)

lemma uint_range: "uint (i :: u32) \<le> int unsigned_max"
  using uint_bounded [of i] by (simp add: unsigned_max_def)

lemma unsigned_range: "0 \<le> n \<Longrightarrow> n \<le> int unsigned_max \<Longrightarrow> uint (word_of_int n :: u32) = n"
  by (simp add: unsigned_max_def uint_word_of_int)

lemma int_some_iff:
  "(if n < int_min \<or> n > int_max then None else Some (word_of_int n :: 32 word)) = Some i \<longleftrightarrow> n = sint i"
  using int_range [of n] sint_range [of i] by (auto simp: not_less)

lemma unsigned_some_iff:
  "(if n < 0 \<or> n > int unsigned_max then None else Some (word_of_int n :: u32)) = Some i \<longleftrightarrow> n = uint i"
  using unsigned_range [of n] uint_range [of i] by (auto simp: not_less)

text \<open>
  What a backend promises of its converters: the probe accepts exactly what the conversion
  accepts, the consuming overload returns the same result and leaves a rejected value alone,
  and what was converted comes back. The set holds the native values of the type.
\<close>

locale lawful_converter =
  fixes cv :: "('d, 'n) converter_ops" and natives :: "'n set"
  assumes probe_iff: "cv_probe cv d \<longleftrightarrow> cv_from cv d \<noteq> None"
    and take_from: "fst (cv_take cv d) = cv_from cv d"
    and take_reject: "cv_from cv d = None \<Longrightarrow> snd (cv_take cv d) = d"
    and from_to: "x \<in> natives \<Longrightarrow> cv_from cv (cv_to cv x) = Some x"
begin

lemma probe_to: "x \<in> natives \<Longrightarrow> cv_probe cv (cv_to cv x)"
  by (simp add: probe_iff from_to)

lemma from_cast_to: "x \<in> natives \<Longrightarrow> from_cast ex cv (cv_to cv x) = Return x"
  by (simp add: from_cast_def from_to)

lemma to_inj: "inj_on (cv_to cv) natives"
  by (rule inj_onI) (metis from_to option.inject)

lemma probe_takes: "cv_probe cv d \<Longrightarrow> \<exists>x d'. cv_take cv d = (Some x, d') \<and> cv_from cv d = Some x"
  using take_from [of d] by (cases "cv_take cv d") (auto simp: probe_iff)

end

end
