(* ===== verification/ExportDispatch.thy ===== *)
theory ExportDispatch
  imports Converters
begin

section \<open>Export dispatch\<close>

text \<open>
  How a dynamic call reaches a native callable: \<open>dynabridge/export_callable.h\<close> and the
  constructor invoker of \<open>dynabridge/export_core.h\<close>. Dynamic arguments sit in slots (a list);
  native code and converters may change the world \<open>'w\<close>. The compiler chooses the order in
  which the arguments of \<open>std::make_tuple\<close> and of the callable are evaluated: \<open>order n\<close> is its
  choice for \<open>n\<close> of them.
\<close>

subsection \<open>Arguments and accessors\<close>

text \<open>
  \<open>export_argument<Declared, Context>\<close>: the probe, \<open>try_make\<close> of a constant value and of a
  mutable slot, and \<open>get\<close>. A descriptor (object or callable parameter) has no probe of its own.
\<close>

record ('d, 'n, 'w) export_arg =
  ea_descriptor :: bool
  ea_probe :: "'d \<Rightarrow> ('w, bool) action"
  ea_try_const :: "'d \<Rightarrow> ('w, 'n option) action"
  ea_try_mut :: "('d \<times> 'w, 'n option) action"
  ea_get :: "'n \<Rightarrow> ('w, 'n) action"

text \<open>The argument made of a scalar converter; \<open>get\<close> forwards the converted value.\<close>

definition scalar_arg :: "('d, 'n) converter_ops \<Rightarrow> ('d, 'n, 'w) export_arg" where
  "scalar_arg cv =
     \<lparr>ea_descriptor = False,
      ea_probe = (\<lambda>d. act_return (cv_probe cv d)),
      ea_try_const = (\<lambda>d. act_return (cv_from cv d)),
      ea_try_mut = (\<lambda>(d, w). case cv_take cv d of (r, d') \<Rightarrow> (Return r, (d', w))),
      ea_get = act_return\<rparr>"

text \<open>
  The argument made of an object parameter: \<open>try_bind_export_object\<close> binds the handle, \<open>get\<close>
  follows it to its native proxy and raises when there is none.
\<close>

definition object_arg ::
    "bool \<Rightarrow> ('d \<Rightarrow> ('w, 'n option) action) \<Rightarrow> ('n \<Rightarrow> ('w, 'n option) action) \<Rightarrow>
     ('d, 'n, 'w) export_arg" where
  "object_arg ex try_bind native =
     \<lparr>ea_descriptor = True,
      ea_probe = (\<lambda>d. act_return True),
      ea_try_const = try_bind,
      ea_try_mut = (\<lambda>(d, w). on_snd (try_bind d) (d, w)),
      ea_get = (\<lambda>object. act_bind (native object) (\<lambda>proxy. case proxy of
         None \<Rightarrow> act_raise ex (BadConversion ''dynabridge exported object has no bound native proxy'')
       | Some n \<Rightarrow> act_return n))\<rparr>"

definition callable_arg :: "('d \<Rightarrow> ('w, 'n option) action) \<Rightarrow> ('d, 'n, 'w) export_arg" where
  "callable_arg try_import =
     \<lparr>ea_descriptor = True,
      ea_probe = (\<lambda>d. act_return True),
      ea_try_const = try_import,
      ea_try_mut = (\<lambda>(d, w). on_snd (try_import d) (d, w)),
      ea_get = act_return\<rparr>"

text \<open>
  An accessor hands out slots as constant or as mutable references; its static arity is
  \<open>None\<close> when it is \<open>dynamic_arity\<close>.
\<close>

record accessor =
  ac_mutable :: bool
  ac_static_arity :: "nat option"

definition vector_accessor :: accessor where
  "vector_accessor = \<lparr>ac_mutable = False, ac_static_arity = None\<rparr>"

definition consuming_vector_accessor :: accessor where
  "consuming_vector_accessor = \<lparr>ac_mutable = True, ac_static_arity = None\<rparr>"

definition tuple_export_arg_accessor :: "nat \<Rightarrow> accessor" where
  "tuple_export_arg_accessor n = \<lparr>ac_mutable = True, ac_static_arity = Some n\<rparr>"

text \<open>\<open>try_make\<close> on slot \<open>i\<close> as the accessor hands it out.\<close>

definition try_slot ::
    "accessor \<Rightarrow> ('d, 'n, 'w) export_arg \<Rightarrow> nat \<Rightarrow> ('d list \<times> 'w, 'n option) action" where
  "try_slot acc a i s =
     (if ac_mutable acc
      then case ea_try_mut a (fst s ! i, snd s) of (r, (d, w)) \<Rightarrow> (r, ((fst s)[i := d], w))
      else on_snd (ea_try_const a (fst s ! i)) s)"

subsection \<open>Argument plans\<close>

text \<open>
  \<open>export_argument_plan\<close>: a scalar prepares nothing, a descriptor prepares its handle once.
\<close>

datatype 'n prepared = PTrue | PMade "'n option"

definition prepare_arg :: "('d, 'n, 'w) export_arg \<Rightarrow> 'd \<Rightarrow> ('w, 'n prepared) action" where
  "prepare_arg a d =
     (if ea_descriptor a then act_bind (ea_try_const a d) (\<lambda>r. act_return (PMade r))
      else act_return PTrue)"

definition probe_arg :: "('d, 'n, 'w) export_arg \<Rightarrow> 'd \<Rightarrow> 'n prepared \<Rightarrow> ('w, bool) action" where
  "probe_arg a d p = (case p of PTrue \<Rightarrow> ea_probe a d | PMade r \<Rightarrow> act_return (r \<noteq> None))"

text \<open>Probes run left to right and stop at the first that rejects.\<close>

fun probe_args ::
    "('d, 'n, 'w) export_arg list \<Rightarrow> 'd list \<Rightarrow> 'n prepared list \<Rightarrow> ('w, bool) action" where
  "probe_args (a # as) (d # ds) (p # ps) =
     act_bind (probe_arg a d p) (\<lambda>ok. if ok then probe_args as ds ps else act_return False)"
| "probe_args _ _ _ = act_return True"

text \<open>
  The plan of a candidate. A backend that did not opt into probing prepares and probes
  nothing; one that did prepares every descriptor before the first probe.
\<close>

definition plan_prepare ::
    "bool \<Rightarrow> ('d, 'n, 'w) export_arg list \<Rightarrow> 'd list \<Rightarrow> ('w, 'n prepared list) action" where
  "plan_prepare opted as ds =
     (if opted \<and> (\<exists>a \<in> set as. ea_descriptor a)
      then act_map (\<lambda>(a, d). prepare_arg a d) (zip as ds)
      else act_return (map (\<lambda>_. PTrue) as))"

definition plan_probe ::
    "bool \<Rightarrow> ('d, 'n, 'w) export_arg list \<Rightarrow> 'd list \<Rightarrow> 'n prepared list \<Rightarrow> ('w, bool) action" where
  "plan_probe opted as ds ps = (if opted then probe_args as ds ps else act_return True)"

definition plan_convert ::
    "accessor \<Rightarrow> ('d, 'n, 'w) export_arg \<Rightarrow> 'n prepared \<Rightarrow> nat \<Rightarrow>
     ('d list \<times> 'w, 'n option) action" where
  "plan_convert acc a p i = (case p of PMade r \<Rightarrow> act_return r | PTrue \<Rightarrow> try_slot acc a i)"

definition all_optionals :: "'n option list \<Rightarrow> bool" where
  "all_optionals converted \<longleftrightarrow> fold (\<lambda>x result. result \<and> x \<noteq> None) converted True"

text \<open>
  \<open>accepted_export_arguments\<close>: after an accepted probe a rejecting conversion is an error, not
  a mismatch.
\<close>

definition accepted_export_arguments :: "bool \<Rightarrow> bool \<Rightarrow> 'n option list \<Rightarrow> ('s, bool) action" where
  "accepted_export_arguments ex opted converted =
     (if all_optionals converted then act_return True
      else if opted then act_raise ex
        (BadConversion ''dynabridge export argument rejected an accepted probe'')
      else act_return False)"

subsection \<open>Candidates and overloads\<close>

text \<open>
  A declared contract with the native callable it is bound to. \<open>ov_result\<close> is
  \<open>to_export_result<R>\<close>, or \<open>None\<close> when the contract returns \<open>void\<close>; \<open>ov_unmatched\<close> marks the
  placeholder \<open>unmatched_callable_t\<close>, which is never called.
\<close>

record ('d, 'n, 'w) overload =
  ov_unmatched :: bool
  ov_args :: "('d, 'n, 'w) export_arg list"
  ov_callable :: "'n list \<Rightarrow> ('w, 'n) action"
  ov_result :: "('n \<Rightarrow> ('w, 'd) action) option"

definition callable_arity :: "('d, 'n, 'w) overload \<Rightarrow> nat" where
  "callable_arity ov = length (ov_args ov)"

text \<open>
  \<open>to_export_result\<close>: the result is materialised as the declared type (the identity for an
  exact value) and then converted.
\<close>

definition to_export_result :: "('n \<Rightarrow> ('w, 'n) action) \<Rightarrow> ('n \<Rightarrow> ('w, 'd) action) \<Rightarrow> 'n \<Rightarrow> ('w, 'd) action" where
  "to_export_result materialize to_cast x = act_bind (materialize x) to_cast"

definition call_converted ::
    "(nat \<Rightarrow> nat list) \<Rightarrow> 'd \<Rightarrow> ('d, 'n, 'w) overload \<Rightarrow> 'n option list \<Rightarrow> ('w, 'd) action" where
  "call_converted order undef ov converted =
     act_bind
       (act_at (order (length converted)) (\<lambda>i. ea_get (ov_args ov ! i) (the (converted ! i)))
         (map the converted))
       (\<lambda>xs. act_bind (ov_callable ov xs) (\<lambda>result.
          case ov_result ov of None \<Rightarrow> act_return undef | Some to_result \<Rightarrow> to_result result))"

definition convert_arguments ::
    "(nat \<Rightarrow> nat list) \<Rightarrow> accessor \<Rightarrow> ('d, 'n, 'w) export_arg list \<Rightarrow> 'n prepared list \<Rightarrow>
     ('d list \<times> 'w, 'n option list) action" where
  "convert_arguments order acc as ps =
     act_at (order (length as)) (\<lambda>i. plan_convert acc (as ! i) (ps ! i) i)
       (replicate (length as) None)"

text \<open>
  \<open>export_overload_candidate::call_optional\<close> and its \<open>call_impl\<close>s: prepare, probe, convert
  everything, check, call.
\<close>

definition candidate_call_impl ::
    "bool \<Rightarrow> bool \<Rightarrow> (nat \<Rightarrow> nat list) \<Rightarrow> 'd \<Rightarrow> accessor \<Rightarrow> ('d, 'n, 'w) overload \<Rightarrow> 'n prepared list \<Rightarrow>
     ('d list \<times> 'w, 'd option) action" where
  "candidate_call_impl ex opted order undef acc ov ps =
     act_bind (convert_arguments order acc (ov_args ov) ps) (\<lambda>converted.
     act_bind (accepted_export_arguments ex opted converted) (\<lambda>ok.
       if \<not> ok then act_return None
       else act_bind (on_snd (call_converted order undef ov converted)) (\<lambda>d. act_return (Some d))))"

definition candidate_call_optional ::
    "bool \<Rightarrow> bool \<Rightarrow> (nat \<Rightarrow> nat list) \<Rightarrow> 'd \<Rightarrow> accessor \<Rightarrow> ('d, 'n, 'w) overload \<Rightarrow>
     ('d list \<times> 'w, 'd option) action" where
  "candidate_call_optional ex opted order undef acc ov s =
     act_bind (on_snd (plan_prepare opted (ov_args ov) (fst s))) (\<lambda>ps.
     act_bind (on_snd (plan_probe opted (ov_args ov) (fst s) ps)) (\<lambda>ok.
       if \<not> ok then act_return None
       else candidate_call_impl ex opted order undef acc ov ps)) s"

text \<open>
  \<open>export_overload_dispatch\<close>: candidates in declaration order. A candidate is skipped when it
  is the placeholder, when the accessor is statically too short for it, or when its arity is
  not the number of arguments; an empty result means the next one is tried.
\<close>

definition can_access :: "accessor \<Rightarrow> ('d, 'n, 'w) overload \<Rightarrow> bool" where
  "can_access acc ov =
     (case ac_static_arity acc of None \<Rightarrow> True | Some n \<Rightarrow> callable_arity ov \<le> n)"

fun export_overload_dispatch ::
    "bool \<Rightarrow> bool \<Rightarrow> (nat \<Rightarrow> nat list) \<Rightarrow> 'd \<Rightarrow> accessor \<Rightarrow> ('d, 'n, 'w) overload list \<Rightarrow> nat \<Rightarrow>
     ('d list \<times> 'w, 'd option) action" where
  "export_overload_dispatch ex opted order undef acc [] argc = act_return None"
| "export_overload_dispatch ex opted order undef acc (ov # rest) argc =
     (if \<not> ov_unmatched ov \<and> can_access acc ov \<and> argc = callable_arity ov
      then act_bind (candidate_call_optional ex opted order undef acc ov) (\<lambda>result.
        if result \<noteq> None then act_return result
        else export_overload_dispatch ex opted order undef acc rest argc)
      else export_overload_dispatch ex opted order undef acc rest argc)"

definition export_overload_required_dispatch ::
    "bool \<Rightarrow> bool \<Rightarrow> (nat \<Rightarrow> nat list) \<Rightarrow> 'd \<Rightarrow> accessor \<Rightarrow> ('d, 'n, 'w) overload list \<Rightarrow> nat \<Rightarrow>
     ('d list \<times> 'w, 'd) action" where
  "export_overload_required_dispatch ex opted order undef acc ovs argc =
     act_bind (export_overload_dispatch ex opted order undef acc ovs argc) (\<lambda>result.
       case result of
         Some d \<Rightarrow> act_return d
       | None \<Rightarrow> act_raise ex (BadConversion ''dynabridge export overload has no matching signature''))"

subsection \<open>Binders\<close>

text \<open>
  The binders' entry points. \<open>dispatch_optional\<close> serves an accessor over somebody else's slots;
  \<open>call_optional\<close> and \<open>operator()\<close> copy the arguments into a tuple of their own, which dies with
  the call.
\<close>

definition with_tuple :: "('d list \<Rightarrow> ('d list \<times> 'w, 'a) action) \<Rightarrow> 'd list \<Rightarrow> ('w, 'a) action" where
  "with_tuple f args w = (case f args (args, w) of (r, (_, w')) \<Rightarrow> (r, w'))"

definition binder_dispatch_optional ::
    "bool \<Rightarrow> bool \<Rightarrow> (nat \<Rightarrow> nat list) \<Rightarrow> 'd \<Rightarrow> ('d, 'n, 'w) overload list \<Rightarrow> nat \<Rightarrow> accessor \<Rightarrow>
     ('d list \<times> 'w, 'd option) action" where
  "binder_dispatch_optional ex opted order undef ovs argc acc =
     export_overload_dispatch ex opted order undef acc ovs argc"

definition binder_call_optional ::
    "bool \<Rightarrow> bool \<Rightarrow> (nat \<Rightarrow> nat list) \<Rightarrow> 'd \<Rightarrow> ('d, 'n, 'w) overload list \<Rightarrow> 'd list \<Rightarrow>
     ('w, 'd option) action" where
  "binder_call_optional ex opted order undef ovs =
     with_tuple (\<lambda>args. export_overload_dispatch ex opted order undef
       (tuple_export_arg_accessor (length args)) ovs (length args))"

definition overload_binder_call ::
    "bool \<Rightarrow> bool \<Rightarrow> (nat \<Rightarrow> nat list) \<Rightarrow> 'd \<Rightarrow> ('d, 'n, 'w) overload list \<Rightarrow> 'd list \<Rightarrow>
     ('w, 'd) action" where
  "overload_binder_call ex opted order undef ovs =
     with_tuple (\<lambda>args. export_overload_required_dispatch ex opted order undef
       (tuple_export_arg_accessor (length args)) ovs (length args))"

text \<open>\<open>invoke_converted\<close>: one contract, and a mismatch is an error with the caller's message.\<close>

definition invoke_converted ::
    "bool \<Rightarrow> bool \<Rightarrow> (nat \<Rightarrow> nat list) \<Rightarrow> string \<Rightarrow> ('d, 'n, 'w) export_arg list \<Rightarrow>
     ('n option list \<Rightarrow> ('w, 'a) action) \<Rightarrow> ('d list \<times> 'w, 'a) action" where
  "invoke_converted ex opted order msg as continue s =
     (let acc = tuple_export_arg_accessor (length (fst s)) in
      act_bind (on_snd (plan_prepare opted as (fst s))) (\<lambda>ps.
      act_bind (on_snd (plan_probe opted as (fst s) ps)) (\<lambda>ok.
        if \<not> ok then act_raise ex (BadConversion msg)
        else act_bind (convert_arguments order acc as ps) (\<lambda>converted.
          act_bind (accepted_export_arguments ex opted converted) (\<lambda>ok.
            if \<not> ok then act_raise ex (BadConversion msg)
            else on_snd (continue converted))))) s)"

definition callable_binder_call ::
    "bool \<Rightarrow> bool \<Rightarrow> (nat \<Rightarrow> nat list) \<Rightarrow> 'd \<Rightarrow> ('d, 'n, 'w) overload \<Rightarrow> 'd list \<Rightarrow> ('w, 'd) action" where
  "callable_binder_call ex opted order undef ov =
     with_tuple (\<lambda>args. invoke_converted ex opted order
       ''dynabridge export argument conversion failed'' (ov_args ov) (call_converted order undef ov))"

text \<open>
  The member binder first binds the receiver: \<open>bind_export_object\<close> and \<open>native\<close> of the backend;
  the callable then gets the proxy.
\<close>

definition member_binder_call ::
    "bool \<Rightarrow> bool \<Rightarrow> (nat \<Rightarrow> nat list) \<Rightarrow> 'd \<Rightarrow> ('d \<Rightarrow> ('w, 'o) action) \<Rightarrow> ('o \<Rightarrow> ('w, 'p option) action) \<Rightarrow>
     ('p \<Rightarrow> ('d, 'n, 'w) overload) \<Rightarrow> 'd \<Rightarrow> 'd list \<Rightarrow> ('w, 'd) action" where
  "member_binder_call ex opted order undef bind_object native member receiver args =
     act_bind (bind_object receiver) (\<lambda>object.
     act_bind (native object) (\<lambda>proxy. case proxy of
         None \<Rightarrow> act_raise ex (RuntimeError ''dynabridge export object has no proxy receiver'')
       | Some p \<Rightarrow> with_tuple (\<lambda>_. invoke_converted ex opted order
           ''dynabridge export member argument conversion failed'' (ov_args (member p))
           (call_converted order undef (member p))) args))"

text \<open>
  The constructor invoker; \<open>construct\<close> is the backend's \<open>object_t\<close> constructor, which builds the
  native object in the receiver \<open>self\<close>.
\<close>

definition constructor_invoke ::
    "bool \<Rightarrow> bool \<Rightarrow> (nat \<Rightarrow> nat list) \<Rightarrow> ('d, 'n, 'w) export_arg list \<Rightarrow>
     ('self \<Rightarrow> 'n list \<Rightarrow> ('w, unit) action) \<Rightarrow> 'self \<Rightarrow> 'd list \<Rightarrow> ('w, unit) action" where
  "constructor_invoke ex opted order as construct self =
     with_tuple (\<lambda>args. invoke_converted ex opted order
       ''dynabridge export constructor argument conversion failed'' as
       (\<lambda>converted. act_bind
          (act_at (order (length converted)) (\<lambda>i. ea_get (as ! i) (the (converted ! i)))
            (map the converted))
          (construct self)))"

subsection \<open>Resolution of scalar contracts\<close>

text \<open>
  A contract whose arguments are all scalars, given by their converters, and what calling it
  means: the native callable on the converted arguments, its result converted back.
\<close>

record ('d, 'n, 'w) scalar_contract =
  sc_unmatched :: bool
  sc_converters :: "('d, 'n) converter_ops list"
  sc_callable :: "'n list \<Rightarrow> ('w, 'n) action"
  sc_result :: "('n \<Rightarrow> ('w, 'd) action) option"

definition overload_of :: "('d, 'n, 'w) scalar_contract \<Rightarrow> ('d, 'n, 'w) overload" where
  "overload_of sc =
     \<lparr>ov_unmatched = sc_unmatched sc, ov_args = map scalar_arg (sc_converters sc),
      ov_callable = sc_callable sc, ov_result = sc_result sc\<rparr>"

definition viable :: "'d list \<Rightarrow> ('d, 'n, 'w) scalar_contract \<Rightarrow> bool" where
  "viable ds sc \<longleftrightarrow> \<not> sc_unmatched sc \<and> list_all2 cv_probe (sc_converters sc) ds"

definition run_contract :: "'d \<Rightarrow> ('d, 'n, 'w) scalar_contract \<Rightarrow> 'n list \<Rightarrow> ('w, 'd) action" where
  "run_contract undef sc xs =
     act_bind (sc_callable sc xs) (\<lambda>result.
       case sc_result sc of None \<Rightarrow> act_return undef | Some to_result \<Rightarrow> to_result result)"

text \<open>
  The meaning of a dispatch: the first viable contract runs on the converted arguments; mutable
  slots hold afterwards what its conversions left, and every other contract left no trace.
\<close>

definition dispatch_meaning ::
    "'d \<Rightarrow> bool \<Rightarrow> ('d, 'n, 'w) scalar_contract list \<Rightarrow> ('d list \<times> 'w, 'd option) action" where
  "dispatch_meaning undef consume scs s =
     (case find (viable (fst s)) scs of
        None \<Rightarrow> (Return None, s)
      | Some sc \<Rightarrow>
          act_bind
            (on_snd (run_contract undef sc (map2 (\<lambda>cv d. the (cv_from cv d)) (sc_converters sc) (fst s))))
            (\<lambda>d. act_return (Some d))
            (if consume then map2 (\<lambda>cv d. snd (cv_take cv d)) (sc_converters sc) (fst s) else fst s, snd s))"

definition lawful_contract :: "('d, 'n, 'w) scalar_contract \<Rightarrow> bool" where
  "lawful_contract sc \<longleftrightarrow> (\<forall>cv \<in> set (sc_converters sc). lawful_converter cv {})"

lemma overload_of_simps [simp]:
  "ov_unmatched (overload_of sc) = sc_unmatched sc"
  "ov_args (overload_of sc) = map scalar_arg (sc_converters sc)"
  "callable_arity (overload_of sc) = length (sc_converters sc)"
  "ov_callable (overload_of sc) = sc_callable sc"
  "ov_result (overload_of sc) = sc_result sc"
  by (simp_all add: overload_of_def callable_arity_def)

lemma scalar_arg_simps [simp]:
  "ea_descriptor (scalar_arg cv) = False"
  "ea_probe (scalar_arg cv) d = act_return (cv_probe cv d)"
  "ea_try_const (scalar_arg cv) d = act_return (cv_from cv d)"
  "ea_get (scalar_arg cv) = act_return"
  by (simp_all add: scalar_arg_def)

lemma plan_prepare_scalar:
  "plan_prepare opted (map scalar_arg cvs) ds = act_return (map (\<lambda>_. PTrue) cvs)"
  by (simp add: plan_prepare_def comp_def)

lemma probe_args_scalar:
  "length cvs = length ds \<Longrightarrow>
     probe_args (map scalar_arg cvs) ds (map (\<lambda>_. PTrue) cvs) = act_return (list_all2 cv_probe cvs ds)"
  by (induction cvs ds rule: list_induct2) (auto simp: probe_arg_def)

lemma try_slot_scalar:
  assumes "lawful_converter cv {}" "i < length ds"
  shows "try_slot acc (scalar_arg cv) i (ds, w) =
    (Return (cv_from cv (ds ! i)),
     (ds[i := if ac_mutable acc then snd (cv_take cv (ds ! i)) else ds ! i], w))"
proof -
  have "fst (cv_take cv (ds ! i)) = cv_from cv (ds ! i)"
    using assms(1) by (rule lawful_converter.take_from)
  with assms(2) show ?thesis
    by (auto simp: try_slot_def scalar_arg_def act_return_def on_snd_def split: prod.splits)
qed

lemma map_upt_map2:
  "length xs = n \<Longrightarrow> length ys = n \<Longrightarrow> map (\<lambda>i. f (xs ! i) (ys ! i)) [0..<n] = map2 f xs ys"
  by (auto intro!: nth_equalityI)

lemma convert_arguments_scalar:
  assumes "evaluation_order order" "length cvs = length ds" "\<forall>cv \<in> set cvs. lawful_converter cv {}"
  shows "convert_arguments order acc (map scalar_arg cvs) (map (\<lambda>_. PTrue) cvs) (ds, w) =
    (Return (map2 cv_from cvs ds),
     (if ac_mutable acc then map2 (\<lambda>cv d. snd (cv_take cv d)) cvs ds else ds, w))"
proof -
  let ?h = "\<lambda>cv d. if ac_mutable acc then snd (cv_take cv d) else d"
  have "convert_arguments order acc (map scalar_arg cvs) (map (\<lambda>_. PTrue) cvs) (ds, w) =
      (Return (map (\<lambda>i. cv_from (cvs ! i) (ds ! i)) [0..<length cvs]),
       (map (\<lambda>i. ?h (cvs ! i) (ds ! i)) [0..<length cvs], w))"
    unfolding convert_arguments_def length_map
    using assms by (intro act_at_slots) (auto simp: plan_convert_def try_slot_scalar)
  also have "map (\<lambda>i. cv_from (cvs ! i) (ds ! i)) [0..<length cvs] = map2 cv_from cvs ds"
    using assms(2) by (simp add: map_upt_map2)
  also have "map (\<lambda>i. ?h (cvs ! i) (ds ! i)) [0..<length cvs] = map2 ?h cvs ds"
    using assms(2) by (simp add: map_upt_map2 [where f = ?h])
  also have "map2 ?h cvs ds = (if ac_mutable acc then map2 (\<lambda>cv d. snd (cv_take cv d)) cvs ds else ds)"
    using assms(2) by (induction cvs ds rule: list_induct2) auto
  finally show ?thesis .
qed

lemma all_optionals_iff [simp]: "all_optionals xs \<longleftrightarrow> None \<notin> set xs"
proof -
  have "fold (\<lambda>x result. result \<and> x \<noteq> None) xs b \<longleftrightarrow> b \<and> None \<notin> set xs" for b
  proof (induction xs arbitrary: b)
    case (Cons x xs)
    then show ?case by (cases x) simp_all
  qed simp
  then show ?thesis by (simp add: all_optionals_def)
qed

lemma none_in_map2:
  "length cvs = length ds \<Longrightarrow> \<forall>cv \<in> set cvs. lawful_converter cv {} \<Longrightarrow>
     None \<notin> set (map2 cv_from cvs ds) \<longleftrightarrow> list_all2 cv_probe cvs ds"
  by (induction cvs ds rule: list_induct2) (auto simp: lawful_converter.probe_iff)

lemma call_converted_scalar:
  assumes "evaluation_order order" "length converted = length (sc_converters sc)"
  shows "call_converted order undef (overload_of sc) converted = run_contract undef sc (map the converted)"
proof
  fix w
  have "act_at (order (length converted)) (\<lambda>i. ea_get (ov_args (overload_of sc) ! i) (the (converted ! i)))
      (map the converted) w = (Return (map (\<lambda>i. the (converted ! i)) [0..<length converted]), w)"
    using assms by (intro act_at_order) (auto simp: act_return_def)
  moreover have "map (\<lambda>i. the (converted ! i)) [0..<length converted] = map the converted"
    by (auto intro!: nth_equalityI)
  ultimately show "call_converted order undef (overload_of sc) converted w = run_contract undef sc (map the converted) w"
    by (simp add: call_converted_def run_contract_def act_bind_step)
qed

lemma candidate_scalar:
  assumes o: "evaluation_order order" and len: "length (sc_converters sc) = length ds"
    and l: "lawful_contract sc" and conv: "opted \<or> \<not> ac_mutable acc"
  shows "candidate_call_optional ex opted order undef acc (overload_of sc) (ds, w) =
    (if list_all2 cv_probe (sc_converters sc) ds
     then act_bind
        (on_snd (run_contract undef sc (map2 (\<lambda>cv d. the (cv_from cv d)) (sc_converters sc) ds)))
        (\<lambda>d. act_return (Some d))
        (if ac_mutable acc then map2 (\<lambda>cv d. snd (cv_take cv d)) (sc_converters sc) ds else ds, w)
     else (Return None, (ds, w)))"
proof -
  let ?cvs = "sc_converters sc"
  have l': "\<forall>cv \<in> set ?cvs. lawful_converter cv {}" using l by (simp add: lawful_contract_def)
  have thes: "map the (map2 cv_from ?cvs ds) = map2 (\<lambda>cv d. the (cv_from cv d)) ?cvs ds"
    by (simp add: case_prod_unfold comp_def)
  have cc: "call_converted order undef (overload_of sc) (map2 cv_from ?cvs ds) =
      run_contract undef sc (map2 (\<lambda>cv d. the (cv_from cv d)) ?cvs ds)"
    using call_converted_scalar [OF o, of "map2 cv_from ?cvs ds" sc undef] len unfolding thes by simp
  have impl: "candidate_call_impl ex opted order undef acc (overload_of sc) (map (\<lambda>_. PTrue) ?cvs) (ds, w) =
      (let s' = (if ac_mutable acc then map2 (\<lambda>cv d. snd (cv_take cv d)) ?cvs ds else ds, w) in
       act_bind (accepted_export_arguments ex opted (map2 cv_from ?cvs ds)) (\<lambda>ok.
         if \<not> ok then act_return None
         else act_bind (on_snd (run_contract undef sc (map2 (\<lambda>cv d. the (cv_from cv d)) ?cvs ds))) (\<lambda>d. act_return (Some d))) s')"
    using convert_arguments_scalar [OF o len l', of acc w] len
    by (simp add: candidate_call_impl_def act_bind_step Let_def cc cong: if_cong)
  have acc: "accepted_export_arguments ex opted (map2 cv_from ?cvs ds) =
      (if list_all2 cv_probe ?cvs ds then act_return True
       else if opted then act_raise ex (BadConversion ''dynabridge export argument rejected an accepted probe'')
       else act_return False)"
    unfolding accepted_export_arguments_def all_optionals_iff none_in_map2 [OF len l'] ..
  have "candidate_call_optional ex opted order undef acc (overload_of sc) (ds, w) =
      (if opted \<and> \<not> list_all2 cv_probe ?cvs ds then (Return None, (ds, w))
       else candidate_call_impl ex opted order undef acc (overload_of sc) (map (\<lambda>_. PTrue) ?cvs) (ds, w))"
    using len by (simp add: candidate_call_optional_def plan_prepare_scalar plan_probe_def
        probe_args_scalar act_return_def [of None])
  then show ?thesis
    unfolding impl acc Let_def using conv by (auto simp: act_return_def [of None])
qed

lemma find_viable_Cons:
  "find (viable ds) (sc # scs) = (if viable ds sc then Some sc else find (viable ds) scs)"
  by simp

lemma export_dispatch_eq:
  assumes order: "evaluation_order order"
    and lawful: "\<forall>sc \<in> set scs. lawful_contract sc"
    and argc: "argc = length ds"
    and arity: "ac_static_arity acc = None \<or> ac_static_arity acc = Some argc"
    and mode: "opted \<or> \<not> ac_mutable acc"
  shows "export_overload_dispatch ex opted order undef acc (map overload_of scs) argc (ds, w) =
    dispatch_meaning undef (ac_mutable acc) scs (ds, w)"
  using lawful
proof (induction scs)
  case Nil
  then show ?case by (simp add: dispatch_meaning_def act_return_def)
next
  case (Cons sc scs)
  have access: "can_access acc (overload_of sc)" if "argc = length (sc_converters sc)"
    using that arity by (auto simp: can_access_def)
  have IH: "export_overload_dispatch ex opted order undef acc (map overload_of scs) argc (ds, w) =
      dispatch_meaning undef (ac_mutable acc) scs (ds, w)"
    using Cons by simp
  show ?case
  proof (cases "\<not> sc_unmatched sc \<and> argc = length (sc_converters sc)")
    case True
    have c: "candidate_call_optional ex opted order undef acc (overload_of sc) (ds, w) =
      (if viable ds sc
       then act_bind
          (on_snd (run_contract undef sc (map2 (\<lambda>cv d. the (cv_from cv d)) (sc_converters sc) ds)))
          (\<lambda>d. act_return (Some d))
          (if ac_mutable acc then map2 (\<lambda>cv d. snd (cv_take cv d)) (sc_converters sc) ds else ds, w)
       else (Return None, (ds, w)))"
      using True Cons.prems argc mode order by (simp add: candidate_scalar viable_def)
    show ?thesis
    proof (cases "viable ds sc")
      case v: True
      show ?thesis
        using True access
        by (auto simp: dispatch_meaning_def v act_bind_def c act_return_def
            split: outcome.splits prod.splits)
    next
      case False
      then have "dispatch_meaning undef (ac_mutable acc) (sc # scs) (ds, w) = dispatch_meaning undef (ac_mutable acc) scs (ds, w)"
        by (simp add: dispatch_meaning_def)
      then show ?thesis using IH True access False by (simp add: act_bind_step c)
    qed
  next
    case False
    then have "\<not> viable ds sc" using argc by (auto simp: viable_def dest: list_all2_lengthD)
    then have "dispatch_meaning undef (ac_mutable acc) (sc # scs) (ds, w) = dispatch_meaning undef (ac_mutable acc) scs (ds, w)"
      by (simp add: dispatch_meaning_def)
    then show ?thesis using False IH by auto
  qed
qed


subsection \<open>Commitment\<close>

text \<open>
  Once a contract's probes have accepted, the choice is final. No matter what its
  conversions do, also when they contradict the probes, a backend that opted in never goes on
  to the contracts declared later: the outcome is that of this candidate, and it is never the
  empty result that means no match.
\<close>
theorem accepted_probe_commits:
  assumes "\<not> ov_unmatched ov" "can_access acc ov" "argc = callable_arity ov"
    and "plan_prepare True (ov_args ov) ds w = (Return ps, w1)"
    and "plan_probe True (ov_args ov) ds ps w1 = (Return True, w2)"
  shows "export_overload_dispatch ex True order undef acc (ov # rest) argc (ds, w) =
      candidate_call_impl ex True order undef acc ov ps (ds, w2) \<and>
    fst (candidate_call_impl ex True order undef acc ov ps (ds, w2)) \<noteq> Return None"
proof -
  have never: "fst (candidate_call_impl ex True order undef acc ov ps s) \<noteq> Return None" for s
    by (auto simp: candidate_call_impl_def act_bind_def accepted_export_arguments_def act_raise_def
        act_return_def raise_error_def split: outcome.splits prod.splits)
  have "candidate_call_optional ex True order undef acc ov (ds, w) =
      candidate_call_impl ex True order undef acc ov ps (ds, w2)"
    using assms(4,5) by (simp add: candidate_call_optional_def act_bind_step on_snd_pair)
  with assms(1-3) never [of "(ds, w2)"] show ?thesis
    by (auto simp: act_bind_def act_return_def split: outcome.splits prod.splits)
qed

text \<open>
  A converter whose probe accepts everything and whose conversion rejects everything: the
  error names the contradiction although a later contract would match.
\<close>

theorem accepted_probe_commits_witness:
  "\<exists>liar honest :: (nat, nat, nat) overload.
     export_overload_dispatch True True (\<lambda>n. [0..<n]) 0 vector_accessor [liar, honest] 1 ([7], 0) =
       (Throw (BadConversion ''dynabridge export argument rejected an accepted probe''), ([7], 0)) \<and>
     export_overload_dispatch True True (\<lambda>n. [0..<n]) 0 vector_accessor [honest] 1 ([7], 0) =
       (Return (Some 8), ([7], 0))"
proof -
  let ?cv = "\<lambda>f. scalar_arg \<lparr>cv_probe = (\<lambda>_. True), cv_to = id, cv_from = f, cv_take = (\<lambda>d. (f d, d))\<rparr> :: (nat, nat, nat) export_arg"
  let ?ov = "\<lambda>f. \<lparr>ov_unmatched = False, ov_args = [?cv f],
      ov_callable = (\<lambda>xs. act_return (hd xs + 1)), ov_result = Some act_return\<rparr> :: (nat, nat, nat) overload"
  let ?liar = "?ov (\<lambda>_. None)" and ?honest = "?ov Some"
  have impl: "candidate_call_impl True True (\<lambda>n. [0..<n]) 0 vector_accessor ?liar [PTrue] ([7], 0) =
      (Throw (BadConversion ''dynabridge export argument rejected an accepted probe''), ([7], 0))"
    by (simp add: candidate_call_impl_def convert_arguments_def plan_convert_def try_slot_def
        vector_accessor_def accepted_export_arguments_def act_bind_def act_return_def act_raise_def
        raise_error_def on_snd_def)
  have "export_overload_dispatch True True (\<lambda>n. [0..<n]) 0 vector_accessor [?liar, ?honest] 1 ([7], 0) =
      (Throw (BadConversion ''dynabridge export argument rejected an accepted probe''), ([7], 0))"
    using accepted_probe_commits [of ?liar vector_accessor 1 "[7]" 0 "[PTrue]" 0 0 True "\<lambda>n. [0..<n]" 0 "[?honest]"] impl
    by (simp add: plan_prepare_def plan_probe_def probe_arg_def act_return_def act_bind_def
        vector_accessor_def can_access_def callable_arity_def)
  moreover have "export_overload_dispatch True True (\<lambda>n. [0..<n]) 0 vector_accessor [?honest] 1 ([7], 0) =
      (Return (Some 8), ([7], 0))"
    by (simp add: candidate_call_optional_def plan_prepare_def plan_probe_def probe_arg_def can_access_def
        callable_arity_def candidate_call_impl_def convert_arguments_def plan_convert_def try_slot_def
        vector_accessor_def accepted_export_arguments_def call_converted_def act_bind_def act_return_def on_snd_def)
  ultimately show ?thesis by blast
qed

subsection \<open>Single contracts\<close>

lemma invoke_converted_scalar:
  assumes o: "evaluation_order order" and len: "length cvs = length ds"
    and l: "\<forall>cv \<in> set cvs. lawful_converter cv {}"
  shows "invoke_converted ex opted order msg (map scalar_arg cvs) continue (ds, w) =
    (if list_all2 cv_probe cvs ds
     then on_snd (continue (map2 cv_from cvs ds)) (map2 (\<lambda>cv d. snd (cv_take cv d)) cvs ds, w)
     else (raise_error ex (BadConversion msg),
           (if opted then ds else map2 (\<lambda>cv d. snd (cv_take cv d)) cvs ds, w)))"
proof -
  have acc: "accepted_export_arguments ex opted (map2 cv_from cvs ds) =
      (if list_all2 cv_probe cvs ds then act_return True
       else if opted then act_raise ex (BadConversion ''dynabridge export argument rejected an accepted probe'')
       else act_return False)"
    unfolding accepted_export_arguments_def all_optionals_iff none_in_map2 [OF len l] ..
  have conv: "convert_arguments order (tuple_export_arg_accessor (length ds)) (map scalar_arg cvs) (map (\<lambda>_. PTrue) cvs) (ds, w) =
      (Return (map2 cv_from cvs ds), (map2 (\<lambda>cv d. snd (cv_take cv d)) cvs ds, w))"
    using convert_arguments_scalar [OF o len l, of "tuple_export_arg_accessor (length ds)"] by (simp add: tuple_export_arg_accessor_def)
  show ?thesis
  proof (cases opted)
    case True
    with len show ?thesis
      by (simp add: acc [unfolded eqTrueI [OF True] if_True] invoke_converted_def plan_prepare_scalar plan_probe_def probe_args_scalar
          act_bind_step conv act_raise_def)
  next
    case False
    then have "opted = False" by simp
    with len show ?thesis
      by (simp add: acc [unfolded \<open>opted = False\<close> if_False] invoke_converted_def plan_prepare_scalar plan_probe_def
          act_bind_step conv act_raise_def)
  qed
qed

text \<open>A single contract called with as many arguments as it declares.\<close>

definition contract_meaning ::
    "bool \<Rightarrow> string \<Rightarrow> 'd \<Rightarrow> ('d, 'n, 'w) scalar_contract \<Rightarrow> 'd list \<Rightarrow> ('w, 'd) action" where
  "contract_meaning ex msg undef sc args =
     (if list_all2 cv_probe (sc_converters sc) args
      then run_contract undef sc (map2 (\<lambda>cv d. the (cv_from cv d)) (sc_converters sc) args)
      else act_raise ex (BadConversion msg))"

lemma with_tuple_invoke_scalar:
  assumes "evaluation_order order" "length (sc_converters sc) = length args" "lawful_contract sc"
  shows "with_tuple (\<lambda>_. invoke_converted ex opted order msg (ov_args (overload_of sc))
      (call_converted order undef (overload_of sc))) args = contract_meaning ex msg undef sc args"
proof
  fix w
  have thes: "map the (map2 cv_from (sc_converters sc) args) = map2 (\<lambda>cv d. the (cv_from cv d)) (sc_converters sc) args"
    by (simp add: case_prod_unfold comp_def)
  have l: "\<forall>cv \<in> set (sc_converters sc). lawful_converter cv {}"
    using assms(3) by (simp add: lawful_contract_def)
  have cc: "call_converted order undef (overload_of sc) (map2 cv_from (sc_converters sc) args) =
      run_contract undef sc (map2 (\<lambda>cv d. the (cv_from cv d)) (sc_converters sc) args)"
    using call_converted_scalar [OF assms(1), of "map2 cv_from (sc_converters sc) args" sc undef] assms(2)
    unfolding thes by simp
  show "with_tuple (\<lambda>_. invoke_converted ex opted order msg (ov_args (overload_of sc))
      (call_converted order undef (overload_of sc))) args w = contract_meaning ex msg undef sc args w"
    by (auto simp: with_tuple_def invoke_converted_scalar [OF assms(1,2) l] contract_meaning_def cc
        on_snd_def act_raise_def split: prod.splits)
qed

text \<open>
  Calling a bound function, member or constructor with the declared number of arguments
  converts them all and calls it once with the results, in whatever order the compiler
  evaluates; if one argument does not convert, the error of that kind of binder is raised and
  native code does not run. A member call whose receiver has no native object fails before any
  argument is looked at.
\<close>
theorem single_contract_binders:
  assumes "evaluation_order order" "length (sc_converters sc) = length args" "lawful_contract sc"
  shows "callable_binder_call ex opted order undef (overload_of sc) args =
      contract_meaning ex ''dynabridge export argument conversion failed'' undef sc args \<and>
    member_binder_call ex opted order undef bind_object native (\<lambda>p. overload_of (sc\<lparr>sc_callable := member p\<rparr>)) receiver args =
      act_bind (bind_object receiver) (\<lambda>object. act_bind (native object) (\<lambda>proxy. case proxy of
          None \<Rightarrow> act_raise ex (RuntimeError ''dynabridge export object has no proxy receiver'')
        | Some p \<Rightarrow> contract_meaning ex ''dynabridge export member argument conversion failed'' undef
            (sc\<lparr>sc_callable := member p\<rparr>) args)) \<and>
    constructor_invoke ex opted order (map scalar_arg (sc_converters sc)) construct self args =
      (if list_all2 cv_probe (sc_converters sc) args
       then construct self (map2 (\<lambda>cv d. the (cv_from cv d)) (sc_converters sc) args)
       else act_raise ex (BadConversion ''dynabridge export constructor argument conversion failed''))"
    (is "?free \<and> ?member \<and> ?construct")
proof (intro conjI)
  show ?free unfolding callable_binder_call_def by (rule with_tuple_invoke_scalar [OF assms])
  have "with_tuple (\<lambda>_. invoke_converted ex opted order msg (ov_args (overload_of (sc\<lparr>sc_callable := f\<rparr>)))
      (call_converted order undef (overload_of (sc\<lparr>sc_callable := f\<rparr>)))) args =
      contract_meaning ex msg undef (sc\<lparr>sc_callable := f\<rparr>) args" for f msg
    using assms by (intro with_tuple_invoke_scalar) (simp_all add: lawful_contract_def)
  then show ?member unfolding member_binder_call_def by simp
  have l: "\<forall>cv \<in> set (sc_converters sc). lawful_converter cv {}"
    using assms(3) by (simp add: lawful_contract_def)
  let ?conv = "map2 cv_from (sc_converters sc) args"
  have gets: "act_at (order (length ?conv)) (\<lambda>i. ea_get (map scalar_arg (sc_converters sc) ! i) (the (?conv ! i)))
      (map the ?conv) = act_return (map the ?conv)" (is "?lhs = _")
  proof
    fix w
    have "?lhs w = (Return (map (\<lambda>i. the (?conv ! i)) [0..<length ?conv]), w)"
      using assms(1,2) by (intro act_at_order) (auto simp: act_return_def)
    also have "map (\<lambda>i. the (?conv ! i)) [0..<length ?conv] = map the ?conv"
      by (auto intro!: nth_equalityI)
    finally show "?lhs w = act_return (map the ?conv) w" by (simp add: act_return_def)
  qed
  have thes: "map the ?conv = map2 (\<lambda>cv d. the (cv_from cv d)) (sc_converters sc) args"
    by (simp add: case_prod_unfold comp_def)
  show ?construct
  proof
    fix w
    show "constructor_invoke ex opted order (map scalar_arg (sc_converters sc)) construct self args w =
        (if list_all2 cv_probe (sc_converters sc) args
         then construct self (map2 (\<lambda>cv d. the (cv_from cv d)) (sc_converters sc) args)
         else act_raise ex (BadConversion ''dynabridge export constructor argument conversion failed'')) w"
      unfolding constructor_invoke_def with_tuple_def invoke_converted_scalar [OF assms(1,2) l]
        gets
      unfolding thes act_bind_return
      by (auto simp: on_snd_def act_raise_def split: prod.splits)
  qed
qed

subsection \<open>The order of events\<close>

text \<open>
  An instrumented candidate: its arguments accept or reject as given and append to a log what
  is done with them.
\<close>

datatype event = Bound nat | Probed nat | Converted nat | Got nat | Called

definition traced_arg ::
    "(nat \<Rightarrow> bool) \<Rightarrow> (nat \<Rightarrow> bool) \<Rightarrow> nat \<Rightarrow> ('d, nat, event list) export_arg" where
  "traced_arg descr accept i =
     \<lparr>ea_descriptor = descr i,
      ea_probe = (\<lambda>d log. (Return (accept i), log @ [Probed i])),
      ea_try_const = (\<lambda>d log. (Return (if accept i then Some i else None), log @ [Bound i])),
      ea_try_mut = (\<lambda>(d, log). (Return (if accept i then Some i else None), (d, log @ [Converted i]))),
      ea_get = (\<lambda>x log. (Return x, log @ [Got i]))\<rparr>"

definition traced_overload ::
    "(nat \<Rightarrow> bool) \<Rightarrow> (nat \<Rightarrow> bool) \<Rightarrow> nat \<Rightarrow> ('d, nat, event list) overload" where
  "traced_overload descr accept n =
     \<lparr>ov_unmatched = False, ov_args = map (traced_arg descr accept) [0..<n],
      ov_callable = (\<lambda>xs log. (Return (length xs), log @ [Called])), ov_result = None\<rparr>"

text \<open>The indices a left-to-right loop visits until one is rejected.\<close>

fun visited :: "(nat \<Rightarrow> bool) \<Rightarrow> nat list \<Rightarrow> nat list" where
  "visited accept [] = []"
| "visited accept (i # is) = i # (if accept i then visited accept is else [])"

definition candidate_log ::
    "(nat \<Rightarrow> bool) \<Rightarrow> (nat \<Rightarrow> bool) \<Rightarrow> nat list \<Rightarrow> nat \<Rightarrow> event list" where
  "candidate_log descr accept order n =
     map Bound (filter descr [0..<n]) @
     map Probed (filter (\<lambda>i. \<not> descr i) (visited accept [0..<n])) @
     (if \<forall>i < n. accept i
      then map Converted (filter (\<lambda>i. \<not> descr i) order) @ map Got order @ [Called]
      else [])"

abbreviation traced_prep :: "(nat \<Rightarrow> bool) \<Rightarrow> (nat \<Rightarrow> bool) \<Rightarrow> nat \<Rightarrow> nat prepared" where
  "traced_prep descr accept i \<equiv>
     (if descr i then PMade (if accept i then Some i else None) else PTrue)"

lemma traced_prepare:
  "length ds = length is \<Longrightarrow>
   act_map (\<lambda>(a, d). prepare_arg a d) (zip (map (traced_arg descr accept) is) ds) log =
     (Return (map (traced_prep descr accept) is), log @ map Bound (filter descr is))"
proof (induction "is" ds arbitrary: log rule: list_induct2')
  case (4 i "is" d ds)
  then show ?case
    by (simp add: prepare_arg_def traced_arg_def act_bind_def act_return_def)
qed (simp_all add: act_return_def)

lemma traced_probe:
  "length ds = length is \<Longrightarrow>
   probe_args (map (traced_arg descr accept) is) ds (map (traced_prep descr accept) is) log =
     (Return (\<forall>i \<in> set is. accept i), log @ map Probed (filter (\<lambda>i. \<not> descr i) (visited accept is)))"
proof (induction "is" ds arbitrary: log rule: list_induct2')
  case (4 i "is" d ds)
  then show ?case
    by (simp add: probe_arg_def traced_arg_def act_bind_def act_return_def)
qed (simp_all add: act_return_def)

lemma traced_convert_aux:
  assumes acc: "ac_mutable acc" and all: "\<forall>i < n. accept i"
  shows "set is \<subseteq> {..<n} \<Longrightarrow> length ds = n \<Longrightarrow>
    act_at is (\<lambda>i. plan_convert acc (map (traced_arg descr accept) [0..<n] ! i)
        (map (traced_prep descr accept) [0..<n] ! i) i) res (ds, log) =
      (Return (fold (\<lambda>i res. res[i := Some i]) is res),
       (ds, log @ map Converted (filter (\<lambda>i. \<not> descr i) is)))"
proof (induction "is" arbitrary: res log)
  case (Cons i "is")
  with acc all show ?case
    by (simp add: plan_convert_def try_slot_def traced_arg_def act_bind_def act_return_def)
qed (simp add: act_return_def)

lemma traced_get_aux:
  "set is \<subseteq> {..<n} \<Longrightarrow> length res = n \<Longrightarrow>
    act_at is (\<lambda>i. ea_get (map (traced_arg descr accept) [0..<n] ! i) (the (map Some [0..<n] ! i))) res log =
      (Return (fold (\<lambda>i res. res[i := i]) is res), log @ map Got is)"
proof (induction "is" arbitrary: res log)
  case (Cons i "is")
  then show ?case by (simp add: traced_arg_def act_bind_def)
qed (simp add: act_return_def)

text \<open>
  What a backend that opted in does with a candidate, in order. Every object or callable
  argument is bound exactly once, before the first probe; then the scalars are probed from left
  to right up to the first that rejects; only when nothing rejected are the scalars converted,
  each once, then all arguments fetched, then the native function called once.
\<close>
theorem candidate_event_order:
  assumes "evaluation_order order" "ac_mutable acc" "length (ds :: 'd list) = n"
  shows "snd (snd (candidate_call_optional ex True order undef acc (traced_overload descr accept n) (ds, log))) =
      log @ candidate_log descr accept (order n) n \<and>
    fst (candidate_call_optional ex True order undef acc (traced_overload descr accept n) (ds, log)) =
      Return (if \<forall>i < n. accept i then Some undef else None)"
proof -
  let ?as = "map (traced_arg descr accept) [0..<n] :: ('d, nat, event list) export_arg list" and ?ps = "map (traced_prep descr accept) [0..<n]"
  have o: "set (order n) = {..<n}" using assms(1) by (simp add: evaluation_order_def)
  have prep: "plan_prepare True ?as ds log = (Return ?ps, log @ map Bound (filter descr [0..<n]))"
  proof (cases "\<exists>i<n. descr i")
    case True
    then have "\<exists>a \<in> set ?as. ea_descriptor a" by (auto simp: traced_arg_def)
    then show ?thesis
      using traced_prepare [of ds "[0..<n]"] assms(3) by (simp only: plan_prepare_def) simp
  next
    case False
    then have "\<not> (\<exists>a \<in> set ?as. ea_descriptor a)" "filter descr [0..<n] = []" "?ps = map (\<lambda>_. PTrue) ?as"
      by (auto simp: traced_arg_def filter_empty_conv)
    then show ?thesis by (simp add: plan_prepare_def act_return_def)
  qed
  have probe: "plan_probe True ?as ds ?ps l =
      (Return (\<forall>i<n. accept i), l @ map Probed (filter (\<lambda>i. \<not> descr i) (visited accept [0..<n])))" for l
    using traced_probe [of ds "[0..<n]"] assms(3) by (auto simp: plan_probe_def)
  have run: "candidate_call_impl ex True order undef acc (traced_overload descr accept n) ?ps (ds, l) =
      (Return (Some undef), (ds, l @ map Converted (filter (\<lambda>i. \<not> descr i) (order n)) @ map Got (order n) @ [Called]))"
    if all: "\<forall>i<n. accept i" for l
  proof -
    have "fold (\<lambda>i res. res[i := Some i]) (order n) (replicate n None) = map Some [0..<n]"
      using o by (subst fold_update_map) auto
    then have conv: "convert_arguments order acc ?as ?ps (ds, l) =
        (Return (map Some [0..<n]), (ds, l @ map Converted (filter (\<lambda>i. \<not> descr i) (order n))))"
      using traced_convert_aux [OF assms(2) all, of "order n" ds descr "replicate n None" l] o assms(3)
      by (simp add: convert_arguments_def)
    have "act_at (order n) (\<lambda>i. ea_get (?as ! i) (the (map Some [0..<n] ! i))) (map the (map Some [0..<n])) l' =
        (Return (fold (\<lambda>i res. res[i := i]) (order n) (map the (map Some [0..<n]))), l' @ map Got (order n))" for l'
      using traced_get_aux [of "order n" n "map the (map Some [0..<n])"] o by simp
    then have call: "call_converted order undef (traced_overload descr accept n) (map Some [0..<n]) l' =
        (Return undef, l' @ map Got (order n) @ [Called])" for l'
      by (simp add: call_converted_def traced_overload_def act_bind_def act_return_def comp_def)
    show ?thesis
      by (simp add: candidate_call_impl_def traced_overload_def [of descr accept n, THEN arg_cong [where f = ov_args], simplified]
          act_bind_step [where s = "(ds, l)"] conv accepted_export_arguments_def)
        (simp add: act_bind_def act_return_def on_snd_def call)
  qed
  have as: "ov_args (traced_overload descr accept n) = ?as" by (simp add: traced_overload_def)
  have "candidate_call_optional ex True order undef acc (traced_overload descr accept n) (ds, log) =
     (let l = log @ map Bound (filter descr [0..<n]) @ map Probed (filter (\<lambda>i. \<not> descr i) (visited accept [0..<n])) in
      if \<forall>i<n. accept i then candidate_call_impl ex True order undef acc (traced_overload descr accept n) ?ps (ds, l)
      else (Return None, (ds, l)))"
    unfolding candidate_call_optional_def as
    by (simp only: fst_conv act_bind_step(1) [where s = "(ds, l)" for l] on_snd_pair [where d = ds] prep probe)
      (auto simp: Let_def act_return_def)
  then show ?thesis by (auto simp: run candidate_log_def Let_def)
qed


text \<open>
  Three arguments, the second an object, evaluated from right to left; and the same with the
  last one rejected.
\<close>

theorem candidate_event_order_witness:
  "snd (snd (candidate_call_optional True True (\<lambda>n. rev [0..<n]) () consuming_vector_accessor
      (traced_overload (\<lambda>i. i = 1) (\<lambda>i. True) 3) ([(), (), ()], []))) =
    [Bound 1, Probed 0, Probed 2, Converted 2, Converted 0, Got 2, Got 1, Got 0, Called] \<and>
   snd (snd (candidate_call_optional True True (\<lambda>n. rev [0..<n]) () consuming_vector_accessor
      (traced_overload (\<lambda>i. i = 1) (\<lambda>i. i < 2) 3) ([(), (), ()], []))) =
    [Bound 1, Probed 0, Probed 2]"
proof -
  have "candidate_log (\<lambda>i. i = 1) (\<lambda>i. True) (rev [0..<3]) 3 =
      [Bound 1, Probed 0, Probed 2, Converted 2, Converted 0, Got 2, Got 1, Got 0, Called]"
    "candidate_log (\<lambda>i. i = 1) (\<lambda>i. i < 2) (rev [0..<3]) 3 = [Bound 1, Probed 0, Probed 2]"
    by (simp_all add: candidate_log_def upt_rec numeral_eq_Suc All_less_Suc)
  moreover have "ac_mutable consuming_vector_accessor" by (simp add: consuming_vector_accessor_def)
  ultimately show ?thesis
    using candidate_event_order [of "\<lambda>n. rev [0..<n]" consuming_vector_accessor "[(), (), ()]" 3 True "()"
        "\<lambda>i. i = 1" _ "[]"]
    by (simp del: upt_rec_numeral)
qed

end
