(* ===== verification/RpcBackend.thy ===== *)
theory RpcBackend
  imports RpcRouter ExportDispatch
begin

section \<open>The RPC backend\<close>

text \<open>
  \<open>rpc_backend\<close> of \<open>dynabridge/backends/rpc.h\<close>: its five converters, the invoker of a route,
  and the client side that encodes a call, sends it through a transport and converts the
  answer. A C++ \<open>int\<close> and \<open>unsigned\<close> have 32 bits.
\<close>

subsection \<open>Native values\<close>

datatype rpc_native =
    NInt "32 word" | NUnsigned u32 | NDouble u64 | NBool bool | NString bytes

datatype rpc_type = TInt | TUnsigned | TDouble | TBool | TString

definition natives_of :: "rpc_type \<Rightarrow> rpc_native set" where
  "natives_of ty =
     (case ty of TInt \<Rightarrow> range NInt | TUnsigned \<Rightarrow> range NUnsigned | TDouble \<Rightarrow> range NDouble
      | TBool \<Rightarrow> range NBool | TString \<Rightarrow> range NString)"

subsection \<open>Converters\<close>

definition int_probe :: "rpc_value \<Rightarrow> bool" where
  "int_probe v \<longleftrightarrow> v_kind v = SignedInteger \<and> sint (as_signed v) \<ge> int_min \<and>
     sint (as_signed v) \<le> int_max"

definition int_from :: "rpc_value \<Rightarrow> rpc_native option" where
  "int_from v =
     (if v_kind v \<noteq> SignedInteger \<or> sint (as_signed v) < int_min \<or> sint (as_signed v) > int_max
      then None else Some (NInt (scast (as_signed v))))"

definition int_converter :: "(rpc_value, rpc_native) converter_ops" where
  "int_converter =
     \<lparr>cv_probe = int_probe,
      cv_to = (\<lambda>x. case x of NInt i \<Rightarrow> value_signed (scast i) | _ \<Rightarrow> default_value),
      cv_from = int_from, cv_take = (\<lambda>v. (int_from v, v))\<rparr>"

definition unsigned_probe :: "rpc_value \<Rightarrow> bool" where
  "unsigned_probe v \<longleftrightarrow> v_kind v = UnsignedInteger \<and> unat (as_unsigned v) \<le> unsigned_max"

definition unsigned_from :: "rpc_value \<Rightarrow> rpc_native option" where
  "unsigned_from v =
     (if v_kind v \<noteq> UnsignedInteger \<or> unat (as_unsigned v) > unsigned_max then None
      else Some (NUnsigned (ucast (as_unsigned v))))"

definition unsigned_converter :: "(rpc_value, rpc_native) converter_ops" where
  "unsigned_converter =
     \<lparr>cv_probe = unsigned_probe,
      cv_to = (\<lambda>x. case x of NUnsigned i \<Rightarrow> value_unsigned (ucast i) | _ \<Rightarrow> default_value),
      cv_from = unsigned_from, cv_take = (\<lambda>v. (unsigned_from v, v))\<rparr>"

definition double_from :: "rpc_value \<Rightarrow> rpc_native option" where
  "double_from v = (if v_kind v \<noteq> Real then None else Some (NDouble (as_real v)))"

definition double_converter :: "(rpc_value, rpc_native) converter_ops" where
  "double_converter =
     \<lparr>cv_probe = (\<lambda>v. v_kind v = Real),
      cv_to = (\<lambda>x. case x of NDouble d \<Rightarrow> value_real d | _ \<Rightarrow> default_value),
      cv_from = double_from, cv_take = (\<lambda>v. (double_from v, v))\<rparr>"

definition bool_from :: "rpc_value \<Rightarrow> rpc_native option" where
  "bool_from v = (if v_kind v \<noteq> Boolean then None else Some (NBool (as_boolean v)))"

definition bool_converter :: "(rpc_value, rpc_native) converter_ops" where
  "bool_converter =
     \<lparr>cv_probe = (\<lambda>v. v_kind v = Boolean),
      cv_to = (\<lambda>x. case x of NBool b \<Rightarrow> value_boolean b | _ \<Rightarrow> default_value),
      cv_from = bool_from, cv_take = (\<lambda>v. (bool_from v, v))\<rparr>"

text \<open>
  The string converter copies from a constant value and takes from a mutable one; towards the
  wire it owns a moved string and borrows any other (\<open>borrow\<close>).
\<close>

definition string_from :: "rpc_value \<Rightarrow> rpc_native option" where
  "string_from v = (if v_kind v \<noteq> String then None else Some (NString (copy_string v)))"

definition string_take :: "rpc_value \<Rightarrow> rpc_native option \<times> rpc_value" where
  "string_take v =
     (if v_kind v \<noteq> String then (None, v)
      else case take_string v of (t, v') \<Rightarrow> (Some (NString t), v'))"

definition string_converter :: "bool \<Rightarrow> (rpc_value, rpc_native) converter_ops" where
  "string_converter borrow =
     \<lparr>cv_probe = (\<lambda>v. v_kind v = String),
      cv_to = (\<lambda>x. case x of
          NString t \<Rightarrow> if borrow then value_borrowed_string t else value_string t
        | _ \<Rightarrow> default_value),
      cv_from = string_from, cv_take = string_take\<rparr>"

definition rpc_converter :: "bool \<Rightarrow> rpc_type \<Rightarrow> (rpc_value, rpc_native) converter_ops" where
  "rpc_converter borrow ty =
     (case ty of TInt \<Rightarrow> int_converter | TUnsigned \<Rightarrow> unsigned_converter
      | TDouble \<Rightarrow> double_converter | TBool \<Rightarrow> bool_converter
      | TString \<Rightarrow> string_converter borrow)"

subsection \<open>The converters' laws\<close>

text \<open>
  A converter of values that travel: what comes out of a frame owns its content, and converts
  like what went in.
\<close>

locale wire_converter = lawful_converter cv natives
  for cv :: "(rpc_value, 'n) converter_ops" and natives :: "'n set" +
  assumes from_owned: "cv_from cv (owned_value_of v) = cv_from cv v"
begin

lemma from_wire: "x \<in> natives \<Longrightarrow> cv_from cv (owned_value_of (cv_to cv x)) = Some x"
  by (simp add: from_owned from_to)

lemma probe_wire: "cv_probe cv (owned_value_of v) \<longleftrightarrow> cv_probe cv v"
  by (simp add: probe_iff from_owned)

lemma response_carries:
  "x \<in> natives \<Longrightarrow> encode_response ex (cv_to cv x) = Return frame \<Longrightarrow>
     obind (decode_response ex' frame) (from_cast ex' cv) = Return x"
  by (auto simp: encode_response_eq decode_response_def try_decode_response_frame from_cast_def
      from_wire split: if_splits)

end

lemma as_owned:
  "v_kind v = SignedInteger \<Longrightarrow> as_signed (owned_value_of v) = as_signed v"
  "v_kind v = UnsignedInteger \<Longrightarrow> as_unsigned (owned_value_of v) = as_unsigned v"
  "v_kind v = Real \<Longrightarrow> as_real (owned_value_of v) = as_real v"
  "v_kind v = Boolean \<Longrightarrow> as_boolean (owned_value_of v) = as_boolean v"
  by (simp_all add: owned_value_of_def value_access_defs)

lemma sint_scast_32_64 [simp]: "sint (scast (i :: 32 word) :: 64 word) = sint i"
  by (rule sint_up_scast) (simp add: is_up)

lemma scast_back [simp]: "scast (scast (i :: 32 word) :: 64 word) = i"
proof -
  have "scast (scast i :: 64 word) = (word_of_int (sint (scast i :: 64 word)) :: 32 word)"
    by (rule scast_eq)
  also have "\<dots> = i" unfolding sint_scast_32_64 by simp
  finally show ?thesis .
qed

lemma unat_ucast_32_64 [simp]: "unat (ucast (i :: 32 word) :: 64 word) = unat i"
  by (simp add: unsigned_ucast_eq take_bit_nat_eq_self_iff)
    (rule less_trans [OF unsigned_less], simp)

lemma unat_32_bound: "unat (i :: 32 word) \<le> unsigned_max"
  using unsigned_less [of i, where 'a = nat] by (simp add: unsigned_max_def)

subsection \<open>Interpretations and exactness\<close>

lemma ucast_back [simp]: "ucast (ucast (i :: 32 word) :: 64 word) = i"
proof (rule unsigned_word_eqI [where 'a = nat])
  have "unat (ucast (ucast i :: 64 word) :: 32 word) = take_bit 32 (unat i)"
    by (subst unsigned_ucast_eq) simp
  also have "\<dots> = unat i" using unsigned_less [of i, where 'a = nat] by (simp add: take_bit_nat_eq_self)
  finally show "unat (ucast (ucast i :: 64 word) :: 32 word) = unat i" .
qed

interpretation int_conv: wire_converter int_converter "natives_of TInt"
  using sint_range
  by unfold_locales (auto simp: int_converter_def int_probe_def int_from_def natives_of_def
      value_access_defs as_owned [unfolded value_access_defs] not_less not_le dest: leD)

interpretation unsigned_conv: wire_converter unsigned_converter "natives_of TUnsigned"
  using unat_32_bound
  by unfold_locales (auto simp: unsigned_converter_def unsigned_probe_def unsigned_from_def
      natives_of_def value_access_defs as_owned [unfolded value_access_defs] not_less not_le dest: leD)

interpretation double_conv: wire_converter double_converter "natives_of TDouble"
  by unfold_locales (auto simp: double_converter_def double_from_def natives_of_def as_owned
      as_real_def [of "value_real d" for d])

interpretation bool_conv: wire_converter bool_converter "natives_of TBool"
  by unfold_locales (auto simp: bool_converter_def bool_from_def natives_of_def as_owned
      as_boolean_def [of "value_boolean d" for d] split: if_splits)

interpretation string_conv: wire_converter "string_converter borrow" "natives_of TString"
  by unfold_locales (auto simp: string_converter_def string_from_def string_take_def natives_of_def
      owned_string_data split: prod.splits dest: arg_cong [where f = fst])

interpretation rpc_conv: wire_converter "rpc_converter borrow ty" "natives_of ty"
  by (cases ty)
    (simp_all add: rpc_converter_def int_conv.wire_converter_axioms unsigned_conv.wire_converter_axioms
      double_conv.wire_converter_axioms bool_conv.wire_converter_axioms string_conv.wire_converter_axioms)

text \<open>What a native value says on the wire.\<close>

definition native_content :: "rpc_native \<Rightarrow> content" where
  "native_content x =
     (case x of NInt i \<Rightarrow> CSigned (sint i) | NUnsigned i \<Rightarrow> CUnsigned (unat i) | NDouble d \<Rightarrow> CReal d
      | NBool b \<Rightarrow> CBoolean b | NString t \<Rightarrow> CString t)"

lemma scast_32_eq_iff:
  "int_min \<le> sint (b :: 64 word) \<Longrightarrow> sint b \<le> int_max \<Longrightarrow> (scast b :: 32 word) = i \<longleftrightarrow> sint b = sint i"
proof -
  assume "int_min \<le> sint b" "sint b \<le> int_max"
  then have "signed_take_bit 31 (sint b) = sint b"
    by (intro signed_take_bit_int_eq_self) (simp_all add: int_min_def int_max_def)
  then have "sint (scast b :: 32 word) = sint b"
    by (simp only: signed_scast_eq) simp
  then show ?thesis by (metis signed_word_eqI)
qed

lemma ucast_32_eq_iff:
  "unat (b :: 64 word) \<le> unsigned_max \<Longrightarrow> (ucast b :: 32 word) = i \<longleftrightarrow> unat b = unat i"
proof -
  assume "unat b \<le> unsigned_max"
  then have "take_bit 32 (unat b) = unat b"
    by (intro take_bit_nat_eq_self) (simp add: unsigned_max_def)
  then have "unat (ucast b :: 32 word) = unat b" by (simp only: unsigned_ucast_eq) simp
  then show ?thesis by (metis unsigned_word_eqI)
qed

lemma rpc_from_iff:
  "cv_from (rpc_converter borrow ty) v = Some x \<longleftrightarrow> x \<in> natives_of ty \<and> content_of v = native_content x"
proof (cases ty)
  case TInt
  show ?thesis
  proof (cases "v_kind v = SignedInteger \<and> int_min \<le> sint (as_signed v) \<and> sint (as_signed v) \<le> int_max")
    case True
    then show ?thesis using TInt
      by (cases x) (auto simp: rpc_converter_def int_converter_def int_from_def natives_of_def
          native_content_def content_of_def scast_32_eq_iff)
  next
    case False
    then show ?thesis using TInt sint_range
      by (cases x; cases "v_kind v") (auto simp: rpc_converter_def int_converter_def int_from_def natives_of_def
          native_content_def content_of_def)
  qed
next
  case TUnsigned
  show ?thesis
  proof (cases "v_kind v = UnsignedInteger \<and> unat (as_unsigned v) \<le> unsigned_max")
    case True
    then show ?thesis using TUnsigned
      by (cases x) (auto simp: rpc_converter_def unsigned_converter_def unsigned_from_def natives_of_def
          native_content_def content_of_def ucast_32_eq_iff)
  next
    case False
    then show ?thesis using TUnsigned unat_32_bound
      by (cases x; cases "v_kind v") (auto simp: rpc_converter_def unsigned_converter_def unsigned_from_def natives_of_def
          native_content_def content_of_def)
  qed
qed (cases x; cases "v_kind v"; auto simp: rpc_converter_def double_converter_def double_from_def
    bool_converter_def bool_from_def string_converter_def string_from_def natives_of_def
    native_content_def content_of_def)+

lemma rpc_probe_iff:
  "cv_probe (rpc_converter borrow ty) v \<longleftrightarrow> content_of v \<in> native_content ` natives_of ty"
  using rpc_from_iff by (auto simp: rpc_conv.probe_iff)

lemma rpc_to_content:
  "x \<in> natives_of ty \<Longrightarrow> content_of (cv_to (rpc_converter borrow ty) x) = native_content x"
  using rpc_from_iff rpc_conv.from_to by blast

text \<open>
  C27: conversions are exact. A dynamic value converts to a native value of a type if and only
  if it carries exactly that value: integers never wrap or lose their sign, a number of the
  wrong kind or out of range is rejected, and the probe accepts exactly what converts. Every
  native value carries its own content to the wire, borrowed or owned.
\<close>
theorem rpc_conversions_exact:
  "(cv_from (rpc_converter borrow ty) v = Some x \<longleftrightarrow> x \<in> natives_of ty \<and> content_of v = native_content x) \<and>
   (cv_probe (rpc_converter borrow ty) v \<longleftrightarrow> content_of v \<in> native_content ` natives_of ty) \<and>
   (x \<in> natives_of ty \<longrightarrow> content_of (cv_to (rpc_converter borrow ty) x) = native_content x)"
  by (simp add: rpc_from_iff rpc_probe_iff rpc_to_content)

theorem rpc_conversions_exact_witness:
  "content_of (cv_to (rpc_converter True TUnsigned) (NUnsigned 4294967295)) = native_content (NUnsigned 4294967295) \<and>
   cv_from (rpc_converter True TInt) (cv_to (rpc_converter True TUnsigned) (NUnsigned 4294967295)) = None"
proof -
  have u: "NUnsigned 4294967295 \<in> natives_of TUnsigned" by (simp add: natives_of_def)
  have "content_of (cv_to (rpc_converter True TUnsigned) (NUnsigned 4294967295)) = native_content (NUnsigned 4294967295)"
    using rpc_conversions_exact [of True TUnsigned _ _] u by blast
  then show ?thesis
    by (simp add: rpc_converter_def unsigned_converter_def int_converter_def int_from_def value_unsigned_def
        as_unsigned_def as_signed_def int_max_def int_min_def default_value_def)
qed


subsection \<open>The route invoker\<close>

text \<open>
  \<open>route::invoke_binder\<close>: the backend opted into probing, so the library's binders are
  dispatched over the router's own argument vector, which they may consume.
\<close>

definition rpc_invoke_binder ::
    "bool \<Rightarrow> (nat \<Rightarrow> nat list) \<Rightarrow> ((rpc_value, rpc_native, 'w) overload list, 'w) invoker" where
  "rpc_invoke_binder ex order binder args w =
     (case binder_dispatch_optional ex True order default_value binder (length args)
        consuming_vector_accessor (args, w) of (r, (_, w')) \<Rightarrow> (r, w'))"

definition rpc_define ::
    "bool \<Rightarrow> (nat \<Rightarrow> nat list) \<Rightarrow> ((rpc_value, rpc_native, 'w) overload list, 'w) route list \<Rightarrow> bytes \<Rightarrow>
     (rpc_value, rpc_native, 'w) overload list \<Rightarrow>
     (((rpc_value, rpc_native, 'w) overload list, 'w) route list
        \<times> (rpc_value, rpc_native, 'w) overload list multiset) outcome" where
  "rpc_define ex order routes name binder =
     router_define ex routes name binder (rpc_invoke_binder ex order)"

subsection \<open>The client side\<close>

record import_context =
  ic_method :: u64

definition import_impl :: "bytes \<Rightarrow> import_context" where
  "import_impl name = \<lparr>ic_method = symbol_id name\<rparr>"

text \<open>The number of arguments is static here, so only the frame size is checked.\<close>

definition encode_request_values :: "bool \<Rightarrow> u64 \<Rightarrow> rpc_value list \<Rightarrow> bytes outcome" where
  "encode_request_values ex m args =
     obind (frame_size_of ex 17 args)
       (\<lambda>frame_size. ofold (encode_value ex) (request_header m (length args)) args)"

text \<open>
  \<open>invoke_impl\<close> for a result type (\<open>Some\<close> its converter) and for \<open>void\<close>; \<open>round_trip\<close> is the
  transport.
\<close>

definition rpc_invoke_impl ::
    "bool \<Rightarrow> (bytes \<Rightarrow> ('w, bytes) action) \<Rightarrow> import_context \<Rightarrow> (rpc_value, rpc_native) converter_ops option \<Rightarrow>
     rpc_value list \<Rightarrow> ('w, rpc_native option) action" where
  "rpc_invoke_impl ex round_trip ctx result args w =
     (case encode_request_values ex (ic_method ctx) args of
        Return frame \<Rightarrow>
          act_bind (round_trip frame) (\<lambda>response w.
            (obind (decode_response ex response) (\<lambda>v.
               case result of
                 None \<Rightarrow> Return None
               | Some cv \<Rightarrow> obind (from_cast ex cv v) (\<lambda>x. Return (Some x))), w)) w
      | Throw e \<Rightarrow> (Throw e, w)
      | Abort \<Rightarrow> (Abort, w))"

text \<open>\<open>invoke\<close>: each native argument goes through its converter, borrowed or moved.\<close>

definition rpc_invoke ::
    "bool \<Rightarrow> (bytes \<Rightarrow> ('w, bytes) action) \<Rightarrow> import_context \<Rightarrow> rpc_type option \<Rightarrow>
     (bool \<times> rpc_type \<times> rpc_native) list \<Rightarrow> ('w, rpc_native option) action" where
  "rpc_invoke ex round_trip ctx result args =
     rpc_invoke_impl ex round_trip ctx (map_option (rpc_converter False) result)
       (map (\<lambda>(borrow, ty, x). cv_to (rpc_converter borrow ty) x) args)"

lemma encode_request_values_eq:
  "length args \<le> uint32_max \<Longrightarrow> encode_request_values ex m args = encode_request ex m args"
  by (simp add: encode_request_values_def encode_request_def)

lemma lawful_rpc: "lawful_converter (rpc_converter borrow ty) {}"
  using rpc_conv.lawful_converter_axioms [of borrow ty] by (simp add: lawful_converter_def)

subsection \<open>Remote calls\<close>

text \<open>
  A remote function: an overload set of typed contracts. \<open>callable\<close> gets the native arguments;
  the result type is \<open>None\<close> for \<open>void\<close>.
\<close>

record 'w rpc_contract =
  rc_args :: "rpc_type list"
  rc_result :: "rpc_type option"
  rc_callable :: "rpc_native list \<Rightarrow> ('w, rpc_native) action"

definition rpc_scalar :: "'w rpc_contract \<Rightarrow> (rpc_value, rpc_native, 'w) scalar_contract" where
  "rpc_scalar c =
     \<lparr>sc_unmatched = False, sc_converters = map (rpc_converter False) (rc_args c),
      sc_callable = rc_callable c,
      sc_result = map_option (\<lambda>ty x. act_return (cv_to (rpc_converter False ty) x)) (rc_result c)\<rparr>"

lemma lawful_rpc_scalar [simp]: "lawful_contract (rpc_scalar c)"
  by (simp add: lawful_contract_def rpc_scalar_def lawful_rpc)

text \<open>What a call of the overload set means: the first contract with the argument types.\<close>

definition types_of :: "rpc_native \<Rightarrow> rpc_type" where
  "types_of x = (case x of NInt _ \<Rightarrow> TInt | NUnsigned _ \<Rightarrow> TUnsigned | NDouble _ \<Rightarrow> TDouble
     | NBool _ \<Rightarrow> TBool | NString _ \<Rightarrow> TString)"

definition call_meaning ::
    "'w rpc_contract list \<Rightarrow> rpc_native list \<Rightarrow> ('w, rpc_value option) action" where
  "call_meaning cs xs =
     (case find (\<lambda>c. rc_args c = map types_of xs) cs of
        None \<Rightarrow> act_return None
      | Some c \<Rightarrow> act_bind (rc_callable c xs) (\<lambda>r. act_return (Some
          (case rc_result c of None \<Rightarrow> default_value | Some ty \<Rightarrow> cv_to (rpc_converter False ty) r))))"

lemma in_natives_iff: "x \<in> natives_of ty \<longleftrightarrow> types_of x = ty"
  by (cases x; cases ty) (auto simp: natives_of_def types_of_def)

lemma native_content_inj: "native_content x = native_content y \<Longrightarrow> x = y"
  by (cases x; cases y) (auto simp: native_content_def signed_word_eqI unsigned_word_eqI)

lemma converters_accept:
  assumes "list_all2 (\<lambda>v x. content_of v = native_content x) vs xs"
  shows "list_all2 cv_probe (map (rpc_converter False) tys) vs \<longleftrightarrow> tys = map types_of xs"
    and "tys = map types_of xs \<Longrightarrow>
      map2 (\<lambda>cv d. the (cv_from cv d)) (map (rpc_converter False) tys) vs = xs"
proof -
  have p: "cv_probe (rpc_converter False ty) v \<longleftrightarrow> ty = types_of x" if "content_of v = native_content x" for ty v x
  proof -
    have "cv_probe (rpc_converter False ty) v \<longleftrightarrow> content_of v \<in> native_content ` natives_of ty"
      by (rule rpc_probe_iff)
    also have "\<dots> \<longleftrightarrow> ty = types_of x"
      using that by (auto simp: in_natives_iff dest: native_content_inj)
    finally show ?thesis .
  qed
  show "list_all2 cv_probe (map (rpc_converter False) tys) vs \<longleftrightarrow> tys = map types_of xs"
    using assms
  proof (induction vs xs arbitrary: tys rule: list_all2_induct)
    case (Cons v vs x xs)
    then show ?case by (cases tys) (auto simp: p)
  qed simp
  have f: "cv_from (rpc_converter False (types_of x)) v = Some x" if "content_of v = native_content x" for v x
    using that by (simp add: rpc_from_iff in_natives_iff)
  show "tys = map types_of xs \<Longrightarrow>
      map2 (\<lambda>cv d. the (cv_from cv d)) (map (rpc_converter False) tys) vs = xs"
    using assms
  proof (induction vs xs arbitrary: tys rule: list_all2_induct)
    case (Cons v vs x xs)
    then show ?case by (simp add: f)
  qed simp
qed


lemma find_map: "find P (map f xs) = map_option f (find (P \<circ> f) xs)"
  by (induction xs) auto

lemma find_cong_pred: "(\<And>x. P x \<longleftrightarrow> Q x) \<Longrightarrow> find P xs = find Q xs"
  by (induction xs) auto

lemma invoke_binder_meaning:
  assumes "evaluation_order order" "list_all2 (\<lambda>v x. content_of v = native_content x) vs xs"
  shows "rpc_invoke_binder ex order (map (overload_of \<circ> rpc_scalar) cs) vs = call_meaning cs xs"
proof
  fix w
  have viable: "viable vs (rpc_scalar c) \<longleftrightarrow> rc_args c = map types_of xs" for c :: "'a rpc_contract"
    using converters_accept(1) [OF assms(2)] by (simp add: viable_def rpc_scalar_def)
  have run: "run_contract default_value (rpc_scalar c)
      (map2 (\<lambda>cv d. the (cv_from cv d)) (sc_converters (rpc_scalar c)) vs) =
      act_bind (rc_callable c xs) (\<lambda>r. act_return
          (case rc_result c of None \<Rightarrow> default_value | Some ty \<Rightarrow> cv_to (rpc_converter False ty) r))"
    if "rc_args c = map types_of xs" for c :: "'a rpc_contract"
    using converters_accept(2) [OF assms(2), of "rc_args c"] that
    by (cases "rc_result c") (simp_all add: run_contract_def rpc_scalar_def)
  have "export_overload_dispatch ex True order default_value consuming_vector_accessor
      (map overload_of (map rpc_scalar cs)) (length vs) (vs, w) =
      dispatch_meaning default_value True (map rpc_scalar cs) (vs, w)"
    using export_dispatch_eq [of order "map rpc_scalar cs" "length vs" vs consuming_vector_accessor True ex default_value w]
      assms(1) by (simp add: consuming_vector_accessor_def)
  moreover have "find (viable vs) (map rpc_scalar cs) = map_option rpc_scalar (find (\<lambda>c. rc_args c = map types_of xs) cs)"
    by (simp add: find_map comp_def viable)
  ultimately have disp: "export_overload_dispatch ex True order default_value consuming_vector_accessor
      (map (overload_of \<circ> rpc_scalar) cs) (length vs) (vs, w) =
      (case find (\<lambda>c. rc_args c = map types_of xs) cs of
         None \<Rightarrow> (Return None, (vs, w))
       | Some c \<Rightarrow>
          act_bind
            (on_snd (run_contract default_value (rpc_scalar c)
              (map2 (\<lambda>cv d. the (cv_from cv d)) (sc_converters (rpc_scalar c)) vs)))
            (\<lambda>d. act_return (Some d))
            (map2 (\<lambda>cv d. snd (cv_take cv d)) (sc_converters (rpc_scalar c)) vs, w))"
    by (simp add: dispatch_meaning_def split: option.split)
  show "rpc_invoke_binder ex order (map (overload_of \<circ> rpc_scalar) cs) vs w = call_meaning cs xs w"
  proof (cases "find (\<lambda>c. rc_args c = map types_of xs) cs")
    case None
    then show ?thesis
      by (simp add: rpc_invoke_binder_def binder_dispatch_optional_def disp call_meaning_def act_return_def)
  next
    case (Some c)
    then have "rc_args c = map types_of xs" by (auto simp: find_Some_iff)
    from run [OF this] Some show ?thesis
      by (auto simp: rpc_invoke_binder_def binder_dispatch_optional_def disp call_meaning_def act_return_def
          on_snd_def act_bind_def split: prod.splits outcome.splits)
  qed
qed

text \<open>
  What a remote call means to the caller: the call itself, except that every failure on the
  server arrives as a remote error with its message.
\<close>

definition remote_meaning ::
    "rpc_type option \<Rightarrow> 'w rpc_contract list \<Rightarrow> rpc_native list \<Rightarrow> ('w, rpc_native option) action" where
  "remote_meaning result cs xs w =
     (case call_meaning cs xs w of
        (Return None, w') \<Rightarrow>
          (Throw (RemoteError (ascii ''RPC argument conversion or arity mismatch'')), w')
      | (Return (Some v), w') \<Rightarrow>
          (if encodable v
           then case result of
               None \<Rightarrow> Return None
             | Some ty \<Rightarrow> obind (from_cast True (rpc_converter False ty) (owned_value_of v)) (\<lambda>x. Return (Some x))
           else Throw (RemoteError (ascii ''RPC string is too large'')), w')
      | (Throw UnknownException, w') \<Rightarrow>
          (Throw (RemoteError (ascii ''unknown RPC server failure'')), w')
      | (Throw e, w') \<Rightarrow> (Throw (RemoteError (what e)), w')
      | (Abort, w') \<Rightarrow> (Abort, w'))"

text \<open>The values a client may pass: typed, and small enough for one frame.\<close>

definition sendable :: "(bool \<times> rpc_native) list \<Rightarrow> bool" where
  "sendable args \<longleftrightarrow> length args \<le> uint32_max \<and>
     (\<forall>(borrow, x) \<in> set args. encodable (cv_to (rpc_converter borrow (types_of x)) x)) \<and>
     17 + length (values_bytes (map (\<lambda>(borrow, x). cv_to (rpc_converter borrow (types_of x)) x) args)) \<le> size_max"


lemma lowered_contents:
  "list_all2 (\<lambda>v x. content_of v = native_content x)
     (map owned_value_of (map (\<lambda>(borrow, x). cv_to (rpc_converter borrow (types_of x)) x) args)) (map snd args)"
  by (induction args) (auto simp: rpc_to_content in_natives_iff)

text \<open>An error the server answers with is the error the client gets.\<close>

lemma error_answered:
  "length m \<le> uint32_max \<Longrightarrow>
     \<exists>frame. encode_error True m = Return frame \<and> decode_response True frame = Throw (RemoteError m)"
  using encode_error_small [of m True] by (auto simp: decode_response_def raise_error_def)

text \<open>What the client makes of the server's answer.\<close>

definition client_result :: "rpc_type option \<Rightarrow> bytes \<Rightarrow> rpc_native option outcome" where
  "client_result result response =
     obind (decode_response True response) (\<lambda>v.
       case map_option (rpc_converter False) result of
         None \<Rightarrow> Return None
       | Some cv \<Rightarrow> obind (from_cast True cv v) (\<lambda>x. Return (Some x)))"

lemma answer_meaning:
  assumes m: "call_meaning cs xs w = (out, w')" and short: "\<And>e. out = Throw e \<Longrightarrow> length (what e) \<le> uint32_max"
    and body: "dispatch_body True routes frame w =
      (case out of
         Return None \<Rightarrow> (encode_error True (ascii ''RPC argument conversion or arity mismatch''), w')
       | Return (Some v) \<Rightarrow> (encode_response True v, w')
       | Throw e \<Rightarrow> (Throw e, w')
       | Abort \<Rightarrow> (Abort, w'))"
  shows "act_bind (router_dispatch True routes frame) (\<lambda>response w. (client_result result response, w)) w
    = remote_meaning result cs xs w"
proof -
  have small: "length (ascii ''RPC argument conversion or arity mismatch'') \<le> uint32_max"
    "length (ascii ''RPC string is too large'') \<le> uint32_max"
    "length (ascii ''unknown RPC server failure'') \<le> uint32_max" by (simp_all add: uint32_max_def)
  note defs = router_dispatch_def body m act_bind_def remote_meaning_def client_result_def
  show ?thesis
  proof (cases out)
    case (Return res)
    show ?thesis
    proof (cases res)
      case None
      with Return error_answered [OF small(1)] show ?thesis by (auto simp: defs)
    next
      case (Some v)
      show ?thesis
      proof (cases "encodable v")
        case True
        then have "decode_response True (response_header 0 @ value_bytes v) = Return (owned_value_of v)"
          by (simp add: decode_response_def try_decode_response_frame)
        with True Return Some show ?thesis by (simp add: defs encode_response_eq split: option.split)
      next
        case False
        with Return Some error_answered [OF small(2)] show ?thesis by (auto simp: defs encode_response_eq raise_error_def)
      qed
    qed
  next
    case (Throw e)
    then show ?thesis using error_answered [OF short [OF Throw]] error_answered [OF small(3)]
      by (cases e) (auto simp: defs)
  next
    case Abort
    then show ?thesis by (simp add: defs)
  qed
qed

text \<open>The client sends one frame, which the router dispatches.\<close>

lemma client_sends:
  assumes "sendable args"
  defines "vs \<equiv> map (\<lambda>(borrow, x). cv_to (rpc_converter borrow (types_of x)) x) args"
  shows "rpc_invoke True (loopback_round_trip True routes) (import_impl name) result
      (map (\<lambda>(borrow, x). (borrow, types_of x, x)) args) w =
    act_bind (router_dispatch True routes (request_frame (symbol_id name) vs))
      (\<lambda>response w. (client_result result response, w)) w"
proof -
  have vs: "length vs \<le> uint32_max" "\<forall>v \<in> set vs. encodable v"
    using assms by (auto simp: sendable_def)
  have "encode_request True (symbol_id name) vs = Return (request_frame (symbol_id name) vs)"
    using assms vs unfolding encode_request_eq_Return by (simp add: sendable_def)
  then have enc: "encode_request_values True (symbol_id name) vs = Return (request_frame (symbol_id name) vs)"
    by (simp only: encode_request_values_eq [OF vs(1)])
  have "map (\<lambda>(borrow, ty, x). cv_to (rpc_converter borrow ty) x) (map (\<lambda>(borrow, x). (borrow, types_of x, x)) args) = vs"
    by (simp add: vs_def case_prod_unfold comp_def)
  then show ?thesis
    unfolding rpc_invoke_def rpc_invoke_impl_def client_result_def [abs_def]
    by (simp add: import_impl_def enc loopback_round_trip_def [abs_def])
qed

text \<open>The client, the frame, the router and the binder put together.\<close>

lemma remote_call_meaning:
  assumes order: "evaluation_order order"
    and route: "find_route routes (symbol_id name) =
      Some (route_make (symbol_id name) name (map (overload_of \<circ> rpc_scalar) cs) (rpc_invoke_binder True order))"
    and args: "sendable args"
    and short: "\<And>e. fst (call_meaning cs (map snd args) w) = Throw e \<Longrightarrow> length (what e) \<le> uint32_max"
  shows "rpc_invoke True (loopback_round_trip True routes) (import_impl name) result
      (map (\<lambda>(borrow, x). (borrow, types_of x, x)) args) w =
    remote_meaning result cs (map snd args) w"
proof -
  let ?vs = "map (\<lambda>(borrow, x). cv_to (rpc_converter borrow (types_of x)) x) args"
  let ?frame = "request_frame (symbol_id name) ?vs"
  obtain out w' where m: "call_meaning cs (map snd args) w = (out, w')" by fastforce
  have "length ?vs \<le> uint32_max" "\<forall>v \<in> set ?vs. encodable v" using args by (auto simp: sendable_def)
  then have dec: "try_decode_request ?frame = Some \<lparr>rq_method = symbol_id name, rq_args = map owned_value_of ?vs\<rparr>"
    by (rule try_decode_request_frame)
  have inv: "rpc_invoke_binder True order (map (overload_of \<circ> rpc_scalar) cs) (map owned_value_of ?vs) =
      call_meaning cs (map snd args)"
    by (rule invoke_binder_meaning [OF order lowered_contents])
  have "dispatch_body True routes ?frame w =
      (case out of
         Return None \<Rightarrow> (encode_error True (ascii ''RPC argument conversion or arity mismatch''), w')
       | Return (Some v) \<Rightarrow> (encode_response True v, w')
       | Throw e \<Rightarrow> (Throw e, w')
       | Abort \<Rightarrow> (Abort, w'))"
    by (simp add: dispatch_body_cases dec route inv route_invoke_def route_make_def m del: map_map
        split: outcome.split option.split)
  from answer_meaning [OF m _ this] show ?thesis
    unfolding client_sends [OF args] using short m by simp
qed

text \<open>
  C1: a remote call is the call. A client that imports a name and calls it through the
  loopback transport gets the result of the native function that the server defined under this
  name for these argument types, converted back exactly, and the native function runs once on
  the very arguments the client passed; a call no contract matches, a result too large for a
  frame and an exception of the native code each come back as a remote error.
\<close>
theorem remote_call_refines:
  assumes order: "evaluation_order order"
    and route: "find_route routes (symbol_id name) =
      Some (route_make (symbol_id name) name (map (overload_of \<circ> rpc_scalar) cs) (rpc_invoke_binder True order))"
    and args: "sendable args"
    and short: "\<And>e. fst (call_meaning cs (map snd args) w) = Throw e \<Longrightarrow> length (what e) \<le> uint32_max"
  shows "rpc_invoke True (loopback_round_trip True routes) (import_impl name) result
      (map (\<lambda>(borrow, x). (borrow, types_of x, x)) args) w =
    remote_meaning result cs (map snd args) w"
  by (rule remote_call_meaning [OF order route args short])

subsection \<open>Remote calls in action\<close>

text \<open>
  An overload set of two contracts, an integer sum and a string echo that counts its calls in
  the world, called with two integers and with a borrowed string.
\<close>

definition sample_contracts :: "nat rpc_contract list" where
  "sample_contracts =
     [\<lparr>rc_args = [TInt, TInt], rc_result = Some TInt,
       rc_callable = (\<lambda>xs calls. case xs of [NInt a, NInt b] \<Rightarrow> (Return (NInt (a + b)), calls + 1)
                                 | _ \<Rightarrow> (Abort, calls))\<rparr>,
      \<lparr>rc_args = [TString], rc_result = Some TString,
       rc_callable = (\<lambda>xs calls. (Return (hd xs), calls + 1))\<rparr>]"

definition sample_routes ::
    "((rpc_value, rpc_native, nat) overload list, nat) route list" where
  "sample_routes = [route_make (symbol_id [115]) [115] (map (overload_of \<circ> rpc_scalar) sample_contracts)
     (rpc_invoke_binder True (\<lambda>n. [0..<n]))]"

theorem remote_call_refines_witness:
  "rpc_invoke True (loopback_round_trip True sample_routes) (import_impl [115]) (Some TInt)
     [(False, TInt, NInt 2), (False, TInt, NInt 3)] 0 = (Return (Some (NInt 5)), 1) \<and>
   rpc_invoke True (loopback_round_trip True sample_routes) (import_impl [115]) (Some TString)
     [(True, TString, NString [104, 105])] 0 = (Return (Some (NString [104, 105])), 1) \<and>
   rpc_invoke True (loopback_round_trip True sample_routes) (import_impl [115]) (Some TInt)
     [(False, TBool, NBool True)] 0 =
     (Throw (RemoteError (ascii ''RPC argument conversion or arity mismatch'')), 0)"
proof -
  have route: "find_route sample_routes (symbol_id [115]) =
      Some (route_make (symbol_id [115]) [115] (map (overload_of \<circ> rpc_scalar) sample_contracts)
        (rpc_invoke_binder True (\<lambda>n. [0..<n])))"
    by (simp add: sample_routes_def find_route_def found_at_def lower_bound_def route_make_def)
  note call = remote_call_refines [of "\<lambda>n. [0..<n]" sample_routes "[115]" sample_contracts, OF _ route]
  note eval = call_meaning_def sample_contracts_def types_of_def act_bind_def act_return_def
    remote_meaning_def rpc_converter_def int_converter_def string_converter_def encodable_def
    uint32_max_def owned_value_of_def value_access_defs from_cast_def int_from_def string_from_def
    int_min_def int_max_def sendable_def values_bytes_def length_value_bytes size_max_def
    bool_converter_def
  have "rpc_invoke True (loopback_round_trip True sample_routes) (import_impl [115]) (Some TInt)
      [(False, TInt, NInt 2), (False, TInt, NInt 3)] 0 =
      remote_meaning (Some TInt) sample_contracts [NInt 2, NInt 3] 0"
    using call [of "[(False, NInt 2), (False, NInt 3)]" 0 "Some TInt"] by (simp add: eval)
  moreover have "rpc_invoke True (loopback_round_trip True sample_routes) (import_impl [115]) (Some TString)
      [(True, TString, NString [104, 105])] 0 =
      remote_meaning (Some TString) sample_contracts [NString [104, 105]] 0"
    using call [of "[(True, NString [104, 105])]" 0 "Some TString"] by (simp add: eval)
  moreover have "rpc_invoke True (loopback_round_trip True sample_routes) (import_impl [115]) (Some TInt)
      [(False, TBool, NBool True)] 0 = remote_meaning (Some TInt) sample_contracts [NBool True] 0"
    using call [of "[(False, NBool True)]" 0 "Some TInt"] by (simp add: eval)
  moreover have "remote_meaning (Some TInt) sample_contracts [NInt 2, NInt 3] 0 = (Return (Some (NInt 5)), 1)"
    by (simp add: eval)
  moreover have "remote_meaning (Some TString) sample_contracts [NString [104, 105]] 0 =
      (Return (Some (NString [104, 105])), 1)"
    by (simp add: eval string_data_def value_factory_defs)
  moreover have "remote_meaning (Some TInt) sample_contracts [NBool True] 0 =
      (Throw (RemoteError (ascii ''RPC argument conversion or arity mismatch'')), 0)"
    by (simp add: eval)
  ultimately show ?thesis by simp
qed


lemma length_rpc_scalar [simp]: "length (sc_converters (rpc_scalar c)) = length (rc_args c)"
  by (simp add: rpc_scalar_def)

theorem single_contract_binders_witness:
  "callable_binder_call True True (\<lambda>n. [0..<n]) default_value
     (overload_of (rpc_scalar \<lparr>rc_args = [TInt], rc_result = Some TInt, rc_callable = (\<lambda>xs w. (Return (hd xs), w + 1))\<rparr>))
     [value_signed 7] (0 :: nat) = (Return (value_signed 7), 1) \<and>
   callable_binder_call True True (\<lambda>n. [0..<n]) default_value
     (overload_of (rpc_scalar \<lparr>rc_args = [TInt], rc_result = Some TInt, rc_callable = (\<lambda>xs w. (Return (hd xs), w + 1))\<rparr>))
     [value_boolean True] (0 :: nat) =
     (Throw (BadConversion ''dynabridge export argument conversion failed''), 0)"
proof -
  let ?c = "\<lparr>rc_args = [TInt], rc_result = Some TInt, rc_callable = (\<lambda>xs w. (Return (hd xs), w + 1))\<rparr> :: nat rpc_contract"
  have call: "callable_binder_call True True (\<lambda>n. [0..<n]) default_value (overload_of (rpc_scalar ?c)) [v] =
      contract_meaning True ''dynabridge export argument conversion failed'' default_value (rpc_scalar ?c) [v]" for v
    by (rule single_contract_binders [THEN conjunct1]) simp_all
  show ?thesis
    unfolding call
    by (simp add: contract_meaning_def rpc_scalar_def rpc_converter_def int_converter_def int_probe_def
        int_from_def value_access_defs int_min_def int_max_def run_contract_def act_bind_def act_return_def
        act_raise_def raise_error_def)
qed

end
