(* ===== verification/RpcService.thy ===== *)
theory RpcService
  imports RpcBackend
begin

section \<open>A server and its clients\<close>

text \<open>A server that defines functions one after the other, each an overload set under a name.\<close>

fun rpc_serve ::
    "(nat \<Rightarrow> nat list) \<Rightarrow> ((rpc_value, rpc_native, 'w) overload list, 'w) route list \<Rightarrow>
     (bytes \<times> 'w rpc_contract list) list \<Rightarrow> ((rpc_value, rpc_native, 'w) overload list, 'w) route list outcome" where
  "rpc_serve order routes [] = Return routes"
| "rpc_serve order routes ((name, cs) # defs) =
     obind (rpc_define True order routes name (map (overload_of \<circ> rpc_scalar) cs))
       (\<lambda>(routes', destroyed). rpc_serve order routes' defs)"

text \<open>The definition a name has last.\<close>

definition last_definition :: "(bytes \<times> 'w rpc_contract list) list \<Rightarrow> bytes \<Rightarrow> 'w rpc_contract list option" where
  "last_definition defs name = map_of (rev (map (\<lambda>(n, cs). (c_str n, cs)) defs)) (c_str name)"

lemma last_definition_snoc:
  "last_definition (defs @ [(n, cs)]) name = (if c_str n = c_str name then Some cs else last_definition defs name)"
  by (simp add: last_definition_def)

lemma rpc_serve_snoc:
  "rpc_serve order routes (defs @ [(name, cs)]) =
     obind (rpc_serve order routes defs) (\<lambda>routes.
       obind (rpc_define True order routes name (map (overload_of \<circ> rpc_scalar) cs)) (\<lambda>(routes', destroyed). Return routes'))"
proof (induction defs arbitrary: routes)
  case (Cons d defs)
  then show ?case
    by (cases d; cases "rpc_define True order routes (fst d) (map (overload_of \<circ> rpc_scalar) (snd d))") (auto split: prod.split)
qed simp

definition serves ::
    "(nat \<Rightarrow> nat list) \<Rightarrow> (bytes \<times> 'w rpc_contract list) list \<Rightarrow>
     ((rpc_value, rpc_native, 'w) overload list, 'w) route list \<Rightarrow> bool" where
  "serves order defs routes \<longleftrightarrow> routes_ok routes \<and>
     (\<forall>name. case last_definition defs name of
        Some cs \<Rightarrow> find_route routes (symbol_id name) =
          Some (route_make (symbol_id name) name (map (overload_of \<circ> rpc_scalar) cs) (rpc_invoke_binder True order))
      | None \<Rightarrow> (case find_route routes (symbol_id name) of None \<Rightarrow> True | Some r \<Rightarrow> rt_name r \<noteq> c_str name))"

lemma route_make_c_str: "c_str n = c_str m \<Longrightarrow> route_make i n b f = route_make i m b f"
  by (simp add: route_make_def)

lemma symbol_id_cong: "c_str n = c_str m \<Longrightarrow> symbol_id n = symbol_id m"
  by (simp add: symbol_id_def)

lemma rt_name_make [simp]: "rt_name (route_make i n b f) = c_str n"
  by (simp add: route_make_def)

lemma serves_define:
  assumes "serves order defs routes"
    and "rpc_define True order routes m (map (overload_of \<circ> rpc_scalar) cs) = Return (routes', destroyed)"
  shows "serves order (defs @ [(m, cs)]) routes'"
proof -
  let ?route = "route_make (symbol_id m) m (map (overload_of \<circ> rpc_scalar) cs) (rpc_invoke_binder True order)"
  have ok: "routes_ok routes" using assms(1) by (simp add: serves_def)
  have r: "routes' = place_route (symbol_id m) ?route routes"
    and free: "case find_route routes (symbol_id m) of None \<Rightarrow> True | Some r \<Rightarrow> rt_name r = c_str m"
    using assms(2) by (auto simp: rpc_define_def router_define_eq split: option.splits if_splits)
  have find: "find_route routes' i = (if i = symbol_id m then Some ?route else find_route routes i)" for i
    unfolding r by (rule routes.get_put [OF ok]) simp
  have "case last_definition (defs @ [(m, cs)]) name of
        Some cs \<Rightarrow> find_route routes' (symbol_id name) =
          Some (route_make (symbol_id name) name (map (overload_of \<circ> rpc_scalar) cs) (rpc_invoke_binder True order))
      | None \<Rightarrow> (case find_route routes' (symbol_id name) of None \<Rightarrow> True | Some r \<Rightarrow> rt_name r \<noteq> c_str name)" for name
  proof (cases "c_str m = c_str name")
    case True
    then show ?thesis
      using symbol_id_cong [OF True] route_make_c_str [OF True] by (simp add: last_definition_snoc find)
  next
    case False
    have old: "case last_definition defs name of
        Some cs \<Rightarrow> find_route routes (symbol_id name) =
          Some (route_make (symbol_id name) name (map (overload_of \<circ> rpc_scalar) cs) (rpc_invoke_binder True order))
      | None \<Rightarrow> (case find_route routes (symbol_id name) of None \<Rightarrow> True | Some r \<Rightarrow> rt_name r \<noteq> c_str name)"
      using assms(1) by (simp add: serves_def)
    show ?thesis
    proof (cases "symbol_id name = symbol_id m")
      case collision: True
      have "last_definition defs name = None"
        using old free False collision by (auto split: option.splits)
      with False collision show ?thesis by (simp add: last_definition_snoc find)
    next
      case distinct: False
      then have "find_route routes' (symbol_id name) = find_route routes (symbol_id name)" by (simp add: find)
      with False old show ?thesis by (simp only: last_definition_snoc if_False)
    qed
  qed
  moreover have "routes_ok routes'" unfolding r by (rule routes.invar_put [OF ok]) simp
  ultimately show ?thesis by (simp add: serves_def)
qed

lemma rpc_serve_serves: "rpc_serve order [] defs = Return routes \<Longrightarrow> serves order defs routes"
proof (induction defs arbitrary: routes rule: rev_induct)
  case Nil
  then show ?case by (simp add: serves_def last_definition_def routes.get_empty)
next
  case (snoc d defs)
  obtain m cs where d: "d = (m, cs)" by fastforce
  with snoc.prems obtain routes0 destroyed where "rpc_serve order [] defs = Return routes0"
    "rpc_define True order routes0 m (map (overload_of \<circ> rpc_scalar) cs) = Return (routes, destroyed)"
    by (auto simp: rpc_serve_snoc obind_eq_Return)
  with snoc.IH d show ?case by (auto intro: serves_define)
qed

text \<open>
  C2: a server answers for what it has defined. Once a sequence of definitions has gone through,
  each an overload set under a name, a client that imports one of the names and calls it over the
  loopback transport gets what the last definition of that name means, whatever else was defined
  before, between and after; an earlier definition of the name is never reached again.
\<close>

theorem served_functions_answer:
  assumes "evaluation_order order" "rpc_serve order [] defs = Return routes"
    and "last_definition defs name = Some cs" "sendable args"
    and "\<And>e. fst (call_meaning cs (map snd args) w) = Throw e \<Longrightarrow> length (what e) \<le> uint32_max"
  shows "rpc_invoke True (loopback_round_trip True routes) (import_impl name) result
      (map (\<lambda>(borrow, x). (borrow, types_of x, x)) args) w =
    remote_meaning result cs (map snd args) w"
proof -
  have "find_route routes (symbol_id name) =
      Some (route_make (symbol_id name) name (map (overload_of \<circ> rpc_scalar) cs) (rpc_invoke_binder True order))"
    using rpc_serve_serves [OF assms(2)] assms(3) by (simp add: serves_def split: option.splits)
  from remote_call_meaning [OF assms(1) this assms(4,5)] show ?thesis .
qed

text \<open>A function is defined, then replaced under its name.\<close>

theorem served_functions_answer_witness:
  "case rpc_serve (\<lambda>n. [0..<n]) [] [([115], []), ([115], sample_contracts)] of
     Return routes \<Rightarrow> rpc_invoke True (loopback_round_trip True routes) (import_impl [115]) (Some TInt)
       [(False, TInt, NInt 2), (False, TInt, NInt 3)] 0 = (Return (Some (NInt 5)), 1)
   | _ \<Rightarrow> False"
proof -
  note eval = call_meaning_def sample_contracts_def types_of_def act_bind_def act_return_def
    remote_meaning_def rpc_converter_def int_converter_def encodable_def
    uint32_max_def owned_value_of_def value_access_defs from_cast_def int_from_def
    int_min_def int_max_def sendable_def values_bytes_def length_value_bytes size_max_def
  let ?defs = "[([115], []), ([115], sample_contracts)]"
  obtain routes where r: "rpc_serve (\<lambda>n. [0..<n]) [] ?defs = Return routes"
    by (simp add: rpc_define_def router_define_eq routes.get_empty find_route_def found_at_def lower_bound_def route_make_def)
  have l: "last_definition ?defs [115] = Some sample_contracts" by (simp add: last_definition_def)
  have "rpc_invoke True (loopback_round_trip True routes) (import_impl [115]) (Some TInt)
      [(False, TInt, NInt 2), (False, TInt, NInt 3)] 0 =
      remote_meaning (Some TInt) sample_contracts [NInt 2, NInt 3] 0"
    using served_functions_answer [OF _ r l, of "[(False, NInt 2), (False, NInt 3)]" 0 "Some TInt"] by (simp add: eval)
  also have "\<dots> = (Return (Some (NInt 5)), 1)" by (simp add: eval)
  finally show ?thesis unfolding r by simp
qed

end
