(* ===== verification/AsyncOp.thy ===== *)
theory AsyncOp
  imports Actions Ownership
begin

section \<open>Asynchronous operations\<close>

text \<open>
  \<open>operation_state\<close> of \<open>dynabridge/async.h\<close> as a state machine. A thread is the list of atomic
  sections it still has to run; a section that holds the mutex, or one that exclusively owns
  what it touches, is one instruction, and the sections of different threads interleave freely.
  The exclusive ownership is not assumed: taking a slot that is not there is recorded as a
  fault, and the invariant shows that no fault happens.
\<close>

datatype async_error = NoError | ErrorCode int | Exception cpp_exn

datatype 'v async_result = AValue 'v | AFailed async_error

text \<open>The \<open>error\<close> member of a result; a successful one holds a default-constructed error.\<close>

fun error_of :: "'v async_result \<Rightarrow> async_error" where
  "error_of (AValue v) = NoError"
| "error_of (AFailed e) = e"

record 'v op_state =
  op_delivered :: bool
  op_retired :: bool
  op_submitting :: bool
  op_cleaned :: bool
  op_pending_detach :: "async_error option"
  op_context :: bool
  op_access :: bool
  op_operation :: bool
  op_handler :: bool
  op_calls :: "'v async_result list"
  op_requested :: bool
  op_released :: nat
  op_fault :: bool
  op_aborted :: bool

text \<open>
  The last five fields are ghosts: the results the handler was called with, whether a delivery
  was ever requested, how often the borrow was released, whether an absent slot was used, and
  whether the contract check aborted the process.
\<close>

definition op_initial :: "bool \<Rightarrow> 'v op_state" where
  "op_initial access =
     \<lparr>op_delivered = False, op_retired = False, op_submitting = True, op_cleaned = False,
      op_pending_detach = None, op_context = True, op_access = access, op_operation = True,
      op_handler = True, op_calls = [], op_requested = False, op_released = 0, op_fault = False,
      op_aborted = False\<rparr>"

datatype (discs_sels) 'v instr =
    Deliver "'v async_result" bool
  | TakeHandler
  | ReleaseAccess bool
  | CallHandler "'v async_result"
  | Cleanup
  | DropOperation
  | Reject async_error
  | Submitted
  | RunOperation

subsection \<open>Atomic sections\<close>

text \<open>
  \<open>deliver\<close>: the locked section decides what the rest of the call does, in this order: take the
  handler, release the borrow, call the handler, clean up.
\<close>

definition exec_deliver ::
    "'v async_result \<Rightarrow> bool \<Rightarrow> 'v op_state \<Rightarrow> 'v instr list \<times> 'v op_state" where
  "exec_deliver r retire s0 =
     (let s = s0\<lparr>op_requested := True\<rparr> in
      if \<not> retire \<and> op_submitting s then
        ([], if op_pending_detach s = None then s\<lparr>op_pending_detach := Some (error_of r)\<rparr> else s)
      else if retire \<and> op_retired s then ([], s)
      else
        let release = retire \<and> op_access s;
            s1 = (if retire then s\<lparr>op_retired := True, op_access := False\<rparr> else s);
            consume = \<not> op_delivered s1
        in ((if consume then [TakeHandler] else []) @ [ReleaseAccess release] @
            (if consume then [CallHandler r] else []) @ [Cleanup],
            if consume then s1\<lparr>op_delivered := True\<rparr> else s1))"

text \<open>\<open>cleanup\<close>: the first thread that finds the operation retired and submitted claims it.\<close>

definition exec_cleanup :: "'v op_state \<Rightarrow> 'v instr list \<times> 'v op_state" where
  "exec_cleanup s =
     (if \<not> op_retired s \<or> op_submitting s \<or> op_cleaned s then ([], s)
      else ([DropOperation], s\<lparr>op_cleaned := True\<rparr>))"

text \<open>\<open>reject\<close>: rejecting after retirement violates the contract and aborts.\<close>

definition exec_reject :: "async_error \<Rightarrow> 'v op_state \<Rightarrow> 'v instr list \<times> 'v op_state" where
  "exec_reject e s =
     (if op_retired s then ([], s\<lparr>op_aborted := True\<rparr>) else ([Deliver (AFailed e) True], s))"

definition exec_submitted :: "'v op_state \<Rightarrow> 'v instr list \<times> 'v op_state" where
  "exec_submitted s =
     ((case op_pending_detach s of None \<Rightarrow> [] | Some e \<Rightarrow> [Deliver (AFailed e) False]) @ [Cleanup],
      s\<lparr>op_submitting := False, op_pending_detach := None\<rparr>)"

fun exec :: "'v instr \<Rightarrow> 'v op_state \<Rightarrow> 'v instr list \<times> 'v op_state" where
  "exec (Deliver r retire) s = exec_deliver r retire s"
| "exec TakeHandler s = ([], s\<lparr>op_fault := op_fault s \<or> \<not> op_handler s, op_handler := False\<rparr>)"
| "exec (ReleaseAccess held) s = ([], if held then s\<lparr>op_released := op_released s + 1\<rparr> else s)"
| "exec (CallHandler r) s = ([], s\<lparr>op_calls := op_calls s @ [r]\<rparr>)"
| "exec Cleanup s = exec_cleanup s"
| "exec DropOperation s =
     ([], s\<lparr>op_fault := op_fault s \<or> \<not> op_operation s, op_operation := False, op_context := False\<rparr>)"
| "exec (Reject e) s = exec_reject e s"
| "exec Submitted s = exec_submitted s"
| "exec RunOperation s = ([Submitted], s)"

text \<open>
  \<open>start\<close> runs the operation, which may complete or detach inline any number of times before
  it returns an accepted or a rejected submission or throws.
\<close>

fun operation_ends :: "'v instr list \<Rightarrow> bool" where
  "operation_ends [Submitted] = True"
| "operation_ends [Reject e, Submitted] = True"
| "operation_ends [Deliver r retire, RunOperation] = (retire \<or> (\<exists>e. r = AFailed e))"
| "operation_ends _ = False"

type_synonym 'v op_config = "'v op_state \<times> 'v instr list list"

definition op_start :: "bool \<Rightarrow> 'v op_config \<Rightarrow> bool" where
  "op_start access c \<longleftrightarrow> c = (op_initial access, [[RunOperation]])"

text \<open>One section of one thread; the process stops once it aborted.\<close>

inductive op_exec :: "'v op_config \<Rightarrow> 'v op_config \<Rightarrow> bool" where
  exec_section: "\<not> op_aborted s \<Longrightarrow> i \<noteq> RunOperation \<Longrightarrow> exec i s = (push, s') \<Longrightarrow>
     op_exec (s, xs @ (i # rest) # ys) (s', xs @ (push @ rest) # ys)"
| exec_operation: "\<not> op_aborted s \<Longrightarrow> operation_ends push \<Longrightarrow>
     op_exec (s, xs @ (RunOperation # rest) # ys)
       (s\<lparr>op_fault := op_fault s \<or> \<not> op_operation s \<or> \<not> op_context s\<rparr>, xs @ (push @ rest) # ys)"

text \<open>
  Besides, anybody who holds a completion token may finish or detach on a new thread, at any
  time and as often as they like.
\<close>

inductive op_step :: "'v op_config \<Rightarrow> 'v op_config \<Rightarrow> bool" where
  step_exec: "op_exec c c' \<Longrightarrow> op_step c c'"
| step_finish: "op_step (s, ts) (s, ts @ [[Deliver r True]])"
| step_detach: "op_step (s, ts) (s, ts @ [[Deliver (AFailed e) False]])"

inductive_cases op_execE: "op_exec (s, ts) c'"
inductive_cases op_stepE: "op_step (s, ts) c'"


subsection \<open>The invariant\<close>

definition count_instr :: "('v instr \<Rightarrow> bool) \<Rightarrow> 'v instr list list \<Rightarrow> nat" where
  "count_instr P ts = length (filter P (concat ts))"

lemma count_instr_head:
  "count_instr P (xs @ (i # rest) # ys) = (if P i then 1 else 0) + count_instr P (xs @ rest # ys)"
  "count_instr P (xs @ (push @ rest) # ys) = length (filter P push) + count_instr P (xs @ rest # ys)"
  "count_instr P (ts @ [push]) = count_instr P ts + length (filter P push)"
  by (simp_all add: count_instr_def)

lemma count_instr_Nil [simp]: "count_instr P [[i]] = (if P i then 1 else 0)"
  by (simp add: count_instr_def)

abbreviation pending_calls :: "'v instr list list \<Rightarrow> nat" where
  "pending_calls \<equiv> count_instr is_CallHandler"

abbreviation takes :: "'v instr list list \<Rightarrow> nat" where
  "takes \<equiv> count_instr (\<lambda>i. i = TakeHandler)"

abbreviation drops :: "'v instr list list \<Rightarrow> nat" where
  "drops \<equiv> count_instr (\<lambda>i. i = DropOperation)"

abbreviation releases :: "'v instr list list \<Rightarrow> nat" where
  "releases \<equiv> count_instr (\<lambda>i. i = ReleaseAccess True)"

abbreviation submissions :: "'v instr list list \<Rightarrow> nat" where
  "submissions \<equiv> count_instr (\<lambda>i. i = Submitted \<or> i = RunOperation)"

abbreviation cleanups :: "'v instr list list \<Rightarrow> nat" where
  "cleanups \<equiv> count_instr (\<lambda>i. i = Cleanup)"

abbreviation deliveries :: "'v instr list list \<Rightarrow> nat" where
  "deliveries \<equiv> count_instr is_Deliver"

text \<open>
  Who still has to do what: every duty (calling the handler, emptying its slot, releasing the
  borrow, dropping the operation, ending the submission) lies with exactly one thread or is
  done.
\<close>

fun op_inv :: "bool \<Rightarrow> 'v op_config \<Rightarrow> bool" where
  "op_inv access (s, ts) \<longleftrightarrow>
     length (op_calls s) + pending_calls ts = of_bool (op_delivered s) \<and>
     of_bool (op_handler s) = of_bool (\<not> op_delivered s) + takes ts \<and>
     of_bool (op_operation s) = of_bool (\<not> op_cleaned s) + drops ts \<and>
     op_context s = op_operation s \<and>
     op_released s + releases ts + of_bool (op_access s) = of_bool (access) \<and>
     (op_access s \<longrightarrow> \<not> op_retired s) \<and> (\<not> access \<longrightarrow> \<not> op_access s) \<and>
     submissions ts = of_bool (op_submitting s) \<and>
     (op_cleaned s \<longrightarrow> op_retired s \<and> \<not> op_submitting s) \<and>
     (op_retired s \<longrightarrow> op_delivered s) \<and>
     (op_pending_detach s \<noteq> None \<longrightarrow> op_submitting s) \<and>
     (op_requested s \<longrightarrow> op_delivered s \<or> op_pending_detach s \<noteq> None \<or> 0 < deliveries ts) \<and>
     (op_retired s \<and> \<not> op_submitting s \<and> \<not> op_cleaned s \<longrightarrow> 0 < cleanups ts) \<and>
     \<not> op_fault s"

lemma op_inv_start: "op_start access c \<Longrightarrow> op_inv access c"
  by (simp add: op_start_def op_initial_def)

lemma op_inv_detach:
  assumes "op_inv access (s, xs @ (Deliver r retire # rest) # ys)" "op_submitting s"
  shows "op_pending_detach s = None \<Longrightarrow>
      op_inv access (s\<lparr>op_requested := True, op_pending_detach := Some e\<rparr>, xs @ rest # ys)"
    and "op_pending_detach s \<noteq> None \<Longrightarrow> op_inv access (s\<lparr>op_requested := True\<rparr>, xs @ rest # ys)"
  using assms by (simp_all add: count_instr_head)

lemma op_inv_deliver:
  assumes inv: "op_inv access (s, xs @ (Deliver r retire # rest) # ys)"
  shows "op_inv access (snd (exec_deliver r retire s), xs @ (fst (exec_deliver r retire s) @ rest) # ys)"
proof -
  consider "\<not> retire \<and> op_submitting s" | "retire \<and> op_retired s"
    | "retire" "\<not> op_retired s" "op_delivered s" | "retire" "\<not> op_retired s" "\<not> op_delivered s"
    | "\<not> retire" "\<not> op_submitting s" "op_delivered s" | "\<not> retire" "\<not> op_submitting s" "\<not> op_delivered s"
    by blast
  then show ?thesis
  proof cases
    case 1
    with op_inv_detach [OF inv] show ?thesis
      by (cases "op_pending_detach s") (simp_all del: op_inv.simps add: exec_deliver_def Let_def)
  next
    case 2
    with inv show ?thesis by (cases access; cases "op_access s") (simp_all add: exec_deliver_def count_instr_head)
  next
    case 3
    with inv show ?thesis by (cases "op_access s") (simp_all add: exec_deliver_def count_instr_head)
  next
    case 4
    with inv show ?thesis by (cases "op_access s") (simp_all add: exec_deliver_def count_instr_head)
  next
    case 5
    with inv show ?thesis by (simp add: exec_deliver_def count_instr_head)
  next
    case 6
    with inv show ?thesis
      by (cases "op_cleaned s"; cases "op_retired s") (simp_all add: exec_deliver_def count_instr_head)
  qed
qed

lemma op_inv_exec:
  assumes "op_inv access (s, xs @ (i # rest) # ys)" "i \<noteq> RunOperation"
  shows "op_inv access (snd (exec i s), xs @ (fst (exec i s) @ rest) # ys)"
  using assms
proof (induction i)
  case (Deliver r retire)
  from op_inv_deliver [OF Deliver(1)] show ?case by (simp del: op_inv.simps)
next
  case (Reject e)
  then show ?case
    by (cases access; cases "op_access s"; cases "op_retired s") (simp_all add: exec_reject_def count_instr_head)
next
  case (ReleaseAccess held)
  then show ?case by (cases held) (simp_all add: count_instr_head)
next
  case Cleanup
  then show ?case
    by (cases "op_retired s"; cases "op_submitting s"; cases "op_cleaned s")
      (simp_all add: exec_cleanup_def count_instr_head)
next
  case Submitted
  then show ?case
    by (cases "op_pending_detach s"; cases "op_delivered s"; cases "op_retired s"; cases "op_submitting s")
      (simp_all add: exec_submitted_def count_instr_head)
next
  case TakeHandler
  then show ?case by (cases "op_delivered s"; cases "op_handler s") (simp_all add: count_instr_head)
next
  case DropOperation
  then show ?case by (cases "op_cleaned s"; cases "op_operation s") (simp_all add: count_instr_head)
qed (simp_all add: count_instr_head)


lemma op_inv_running:
  assumes "op_inv access (s, xs @ (RunOperation # rest) # ys)"
  shows "op_submitting s \<and> op_operation s \<and> op_context s \<and> \<not> op_fault s"
  using assms
  by (cases "op_submitting s"; cases "op_operation s"; cases "op_cleaned s") (simp_all add: count_instr_head)

lemma op_inv_operation:
  assumes "op_inv access (s, xs @ (RunOperation # rest) # ys)" "operation_ends push"
  shows "op_inv access (s, xs @ (push @ rest) # ys)"
proof -
  have "op_inv access (s, xs @ ([Submitted] @ rest) # ys)"
    "op_inv access (s, xs @ ([Reject e, Submitted] @ rest) # ys)"
    "op_inv access (s, xs @ ([Deliver r retire, RunOperation] @ rest) # ys)" for e r retire
    using assms(1) by (simp_all add: count_instr_head del: append.simps)
  with assms(2) show ?thesis
    by (cases push rule: operation_ends.cases) (simp_all del: op_inv.simps)
qed

lemma op_inv_step:
  assumes "op_inv access c" "op_step c c'"
  shows "op_inv access c'"
  using assms(2,1)
proof (induction rule: op_step.induct)
  case (step_exec c c')
  then show ?case
  proof (induction rule: op_exec.induct)
    case (exec_section s i push s' xs rest ys)
    then show ?case using op_inv_exec [of access s xs i rest ys] by (simp del: op_inv.simps)
  next
    case (exec_operation s push xs rest ys)
    from op_inv_running [OF exec_operation.prems]
    have "s\<lparr>op_fault := op_fault s \<or> \<not> op_operation s \<or> \<not> op_context s\<rparr> = s" by simp
    with op_inv_operation [OF exec_operation.prems exec_operation.hyps(2)] show ?case by simp
  qed
next
  case (step_finish s ts r)
  then show ?case by (simp add: count_instr_head)
next
  case (step_detach s ts e)
  then show ?case by (simp add: count_instr_head)
qed

interpretation op_machine: invariant_machine "op_start access" op_step "op_inv access"
  by unfold_locales (blast intro: op_inv_start op_inv_step)+


subsection \<open>Delivery\<close>

text \<open>
  C6: under every interleaving of submission, completion and detachment, from any number of
  threads, the handler is called at most once, the borrow released at most once, no slot is
  used after it was emptied, and the operation and its context stay alive while its submit body
  runs, also when it completes inline.
\<close>
theorem async_delivery_safe:
  assumes "reaches (op_start access) op_step (s, ts)"
  shows "length (op_calls s) \<le> 1 \<and> op_released s \<le> of_bool access \<and> \<not> op_fault s \<and>
    ((\<exists>t \<in> set ts. RunOperation \<in> set t) \<longrightarrow> op_operation s \<and> op_context s)"
proof -
  have inv: "op_inv access (s, ts)" by (rule op_machine.reaches_inv [OF assms])
  have "op_operation s \<and> op_context s" if "t \<in> set ts" "RunOperation \<in> set t" for t
  proof -
    have "0 < submissions ts" using that by (auto simp: count_instr_def filter_empty_conv)
    with inv have "op_submitting s" by (cases "op_submitting s") simp_all
    with inv show ?thesis by (cases "op_operation s"; cases "op_cleaned s") simp_all
  qed
  moreover have "length (op_calls s) \<le> 1" using inv by (cases "op_delivered s") simp_all
  moreover have "op_released s \<le> of_bool access"
  proof -
    from inv have "op_released s + releases ts + of_bool (op_access s) = of_bool access" by simp
    then show ?thesis by simp
  qed
  ultimately show ?thesis using inv by auto
qed

lemma op_reaches_exec:
  "reaches (op_start access) op_step c \<Longrightarrow> op_exec c c' \<Longrightarrow> reaches (op_start access) op_step c'"
  by (blast intro: reaches_step step_exec)

text \<open>Inline completion: the operation finishes with 7 before it returns.\<close>

lemma inline_completion:
  "reaches (op_start True) op_step
     (op_initial True\<lparr>op_requested := True, op_retired := True, op_access := False, op_delivered := True,
        op_handler := False, op_released := 1, op_calls := [AValue (7 :: nat)]\<rparr>, [[Cleanup, RunOperation]])"
proof -
  let ?s0 = "op_initial True :: nat op_state"
  let ?s1 = "?s0\<lparr>op_requested := True, op_retired := True, op_access := False, op_delivered := True\<rparr>"
  have r0: "reaches (op_start True) op_step (?s0, [[RunOperation]])"
    by (rule reaches_start) (simp add: op_start_def)
  have "op_exec (?s0, [] @ (RunOperation # []) # []) (?s0\<lparr>op_fault := op_fault ?s0 \<or> \<not> op_operation ?s0 \<or> \<not> op_context ?s0\<rparr>,
      [] @ ([Deliver (AValue 7) True, RunOperation] @ []) # [])"
    by (rule exec_operation) (simp_all add: op_initial_def)
  then have "op_exec (?s0, [[RunOperation]]) (?s0, [[Deliver (AValue 7) True, RunOperation]])"
    by (simp add: op_initial_def)
  with r0 have r1: "reaches (op_start True) op_step (?s0, [[Deliver (AValue 7) True, RunOperation]])"
    by (rule op_reaches_exec)
  have "op_exec (?s0, [] @ (Deliver (AValue 7) True # [RunOperation]) # [])
      (?s1, [] @ ([TakeHandler, ReleaseAccess True, CallHandler (AValue 7), Cleanup] @ [RunOperation]) # [])"
    by (rule exec_section) (simp_all add: op_initial_def exec_deliver_def)
  with r1 have r2: "reaches (op_start True) op_step (?s1, [[TakeHandler, ReleaseAccess True, CallHandler (AValue 7), Cleanup, RunOperation]])"
    by (auto intro: op_reaches_exec)
  have "op_exec (?s1, [] @ (TakeHandler # [ReleaseAccess True, CallHandler (AValue 7), Cleanup, RunOperation]) # [])
      (?s1\<lparr>op_handler := False\<rparr>, [] @ ([] @ [ReleaseAccess True, CallHandler (AValue 7), Cleanup, RunOperation]) # [])"
    by (rule exec_section) (simp_all add: op_initial_def)
  with r2 have r3: "reaches (op_start True) op_step (?s1\<lparr>op_handler := False\<rparr>,
      [[ReleaseAccess True, CallHandler (AValue 7), Cleanup, RunOperation]])"
    by (auto intro: op_reaches_exec)
  have "op_exec (?s1\<lparr>op_handler := False\<rparr>, [] @ (ReleaseAccess True # [CallHandler (AValue 7), Cleanup, RunOperation]) # [])
      (?s1\<lparr>op_handler := False, op_released := 1\<rparr>, [] @ ([] @ [CallHandler (AValue 7), Cleanup, RunOperation]) # [])"
    by (rule exec_section) (simp_all add: op_initial_def)
  with r3 have r4: "reaches (op_start True) op_step (?s1\<lparr>op_handler := False, op_released := 1\<rparr>,
      [[CallHandler (AValue 7), Cleanup, RunOperation]])"
    by (auto intro: op_reaches_exec)
  have "op_exec (?s1\<lparr>op_handler := False, op_released := 1\<rparr>, [] @ (CallHandler (AValue 7) # [Cleanup, RunOperation]) # [])
      (?s1\<lparr>op_handler := False, op_released := 1, op_calls := [AValue 7]\<rparr>, [] @ ([] @ [Cleanup, RunOperation]) # [])"
    by (rule exec_section) (simp_all add: op_initial_def)
  with r4 show ?thesis by (auto intro: op_reaches_exec simp: op_initial_def)
qed

theorem async_delivery_safe_witness:
  "\<exists>s :: nat op_state. reaches (op_start True) op_step (s, [[Cleanup, RunOperation]]) \<and>
     op_calls s = [AValue 7] \<and> length (op_calls s) \<le> 1 \<and> op_operation s \<and> op_context s"
  using async_delivery_safe [OF inline_completion] inline_completion by fastforce

text \<open>
  C33: when every thread has run to its end, nothing is left undone: if delivery was ever
  requested, by a completion, a detachment or a rejection, the handler was called exactly once,
  and a retired operation has released its borrow, its handler, its operation and its context.
\<close>
theorem async_quiescent_complete:
  assumes "reaches (op_start access) op_step (s, ts)" "\<forall>t \<in> set ts. t = []"
  shows "(op_requested s \<longrightarrow> length (op_calls s) = 1) \<and>
    (op_retired s \<longrightarrow> op_released s = of_bool access \<and> \<not> op_access s \<and> \<not> op_handler s \<and>
       \<not> op_operation s \<and> \<not> op_context s)"
proof -
  have inv: "op_inv access (s, ts)" by (rule op_machine.reaches_inv [OF assms(1)])
  have "concat ts = []" using assms(2) by simp
  then have none: "count_instr P ts = 0" for P unfolding count_instr_def by (simp only: filter.simps list.size)
  from inv have sub: "\<not> op_submitting s" by (cases "op_submitting s") (simp_all add: none)
  with inv have "op_requested s \<longrightarrow> op_delivered s" by (cases "op_pending_detach s") (simp_all add: none)
  moreover have "op_delivered s \<longrightarrow> length (op_calls s) = 1 \<and> \<not> op_handler s"
    using inv by (cases "op_handler s"; cases "op_delivered s") (simp_all add: none)
  moreover have "op_retired s \<longrightarrow> op_delivered s \<and> op_cleaned s \<and> \<not> op_access s"
    using inv sub by (simp add: none) blast
  moreover have "op_cleaned s \<longrightarrow> \<not> op_operation s \<and> \<not> op_context s"
    using inv by (cases "op_operation s"; cases "op_cleaned s") (simp_all add: none)
  moreover have "\<not> op_access s \<longrightarrow> op_released s = of_bool access"
    using inv by (cases "op_access s") (simp_all add: none)
  ultimately show ?thesis by blast
qed

subsection \<open>Termination\<close>

text \<open>Upper bounds of the sections a thread still has to run.\<close>

fun weight :: "'v instr \<Rightarrow> nat" where
  "weight (Deliver r retire) = 7"
| "weight TakeHandler = 1"
| "weight (ReleaseAccess held) = 1"
| "weight (CallHandler r) = 1"
| "weight Cleanup = 2"
| "weight DropOperation = 1"
| "weight (Reject e) = 8"
| "weight Submitted = 10"
| "weight RunOperation = 11"

definition weights :: "'v instr list list \<Rightarrow> nat" where
  "weights ts = sum_list (map weight (concat ts))"

lemma exec_weight: "i \<noteq> RunOperation \<Longrightarrow> sum_list (map weight (fst (exec i s))) < weight i"
  by (cases i) (auto simp: exec_deliver_def Let_def exec_cleanup_def exec_reject_def exec_submitted_def
      split: option.split)

lemma op_exec_smaller:
  assumes "\<not> op_aborted s" "\<exists>t \<in> set ts. t \<noteq> []"
  shows "\<exists>s' ts'. op_exec (s, ts) (s', ts') \<and> weights ts' < weights ts"
proof -
  from assms(2) obtain xs i rest ys where ts: "ts = xs @ (i # rest) # ys"
    by (metis neq_Nil_conv split_list)
  show ?thesis
  proof (cases "i = RunOperation")
    case True
    have "op_exec (s, xs @ (RunOperation # rest) # ys)
        (s\<lparr>op_fault := op_fault s \<or> \<not> op_operation s \<or> \<not> op_context s\<rparr>, xs @ ([Submitted] @ rest) # ys)"
      using assms(1) by (intro exec_operation) simp_all
    then show ?thesis unfolding ts True by (intro exI, rule conjI) (simp_all add: weights_def)
  next
    case False
    have "op_exec (s, xs @ (i # rest) # ys) (snd (exec i s), xs @ (fst (exec i s) @ rest) # ys)"
      using assms(1) False by (intro exec_section) simp_all
    moreover have "weights (xs @ (fst (exec i s) @ rest) # ys) < weights (xs @ (i # rest) # ys)"
      using exec_weight [OF False, of s] by (simp add: weights_def)
    ultimately show ?thesis unfolding ts by blast
  qed
qed

lemma op_threads_run_out:
  "\<exists>s' ts'. op_exec\<^sup>*\<^sup>* (s, ts) (s', ts') \<and> (op_aborted s' \<or> (\<forall>t \<in> set ts'. t = []))"
proof (induction "weights ts" arbitrary: s ts rule: less_induct)
  case less
  show ?case
  proof (cases "op_aborted s \<or> (\<forall>t \<in> set ts. t = [])")
    case True
    then show ?thesis by blast
  next
    case False
    then obtain s1 ts1 where "op_exec (s, ts) (s1, ts1)" "weights ts1 < weights ts"
      using op_exec_smaller by blast
    with less obtain s' ts' where "op_exec\<^sup>*\<^sup>* (s1, ts1) (s', ts')" "op_aborted s' \<or> (\<forall>t \<in> set ts'. t = [])"
      by blast
    with \<open>op_exec (s, ts) (s1, ts1)\<close> show ?thesis by (blast intro: converse_rtranclp_into_rtranclp)
  qed
qed



text \<open>The same operation run to its end: its submit body accepts after the inline completion.\<close>

theorem async_quiescent_complete_witness:
  "\<exists>s :: nat op_state. reaches (op_start True) op_step (s, [[]]) \<and>
     op_calls s = [AValue 7] \<and> op_released s = 1 \<and> \<not> op_operation s \<and> \<not> op_handler s"
proof -
  let ?s = "op_initial True\<lparr>op_requested := True, op_retired := True, op_access := False, op_delivered := True,
        op_handler := False, op_released := 1, op_calls := [AValue (7 :: nat)]\<rparr>"
  have "op_exec (?s, [] @ (Cleanup # [RunOperation]) # []) (?s, [] @ ([] @ [RunOperation]) # [])"
    by (rule exec_section) (simp_all add: op_initial_def exec_cleanup_def)
  with inline_completion have r1: "reaches (op_start True) op_step (?s, [[RunOperation]])"
    by (auto intro: op_reaches_exec)
  have "op_exec (?s, [] @ (RunOperation # []) # []) (?s\<lparr>op_fault := op_fault ?s \<or> \<not> op_operation ?s \<or> \<not> op_context ?s\<rparr>,
      [] @ ([Submitted] @ []) # [])"
    by (rule exec_operation) (simp_all add: op_initial_def)
  then have "op_exec (?s, [[RunOperation]]) (?s, [[Submitted]])" by (simp add: op_initial_def)
  with r1 have r2: "reaches (op_start True) op_step (?s, [[Submitted]])" by (rule op_reaches_exec)
  have "op_exec (?s, [] @ (Submitted # []) # []) (?s\<lparr>op_submitting := False\<rparr>, [] @ ([Cleanup] @ []) # [])"
    by (rule exec_section) (simp_all add: op_initial_def exec_submitted_def)
  with r2 have r3: "reaches (op_start True) op_step (?s\<lparr>op_submitting := False\<rparr>, [[Cleanup]])"
    by (auto intro: op_reaches_exec)
  have "op_exec (?s\<lparr>op_submitting := False\<rparr>, [] @ (Cleanup # []) # [])
      (?s\<lparr>op_submitting := False, op_cleaned := True\<rparr>, [] @ ([DropOperation] @ []) # [])"
    by (rule exec_section) (simp_all add: op_initial_def exec_cleanup_def)
  with r3 have r4: "reaches (op_start True) op_step (?s\<lparr>op_submitting := False, op_cleaned := True\<rparr>, [[DropOperation]])"
    by (auto intro: op_reaches_exec)
  let ?t = "?s\<lparr>op_submitting := False, op_cleaned := True, op_operation := False, op_context := False\<rparr>"
  have "op_exec (?s\<lparr>op_submitting := False, op_cleaned := True\<rparr>, [] @ (DropOperation # []) # []) (?t, [] @ ([] @ []) # [])"
    by (rule exec_section) (simp_all add: op_initial_def)
  with r4 have r5: "reaches (op_start True) op_step (?t, [[]])" by (auto intro: op_reaches_exec)
  from async_quiescent_complete [OF r5] have "op_released ?t = 1 \<and> \<not> op_operation ?t \<and> \<not> op_handler ?t" by simp
  with r5 show ?thesis by (intro exI [of _ ?t]) simp
qed

subsection \<open>Detaching during submission\<close>

definition detach_deferred :: "bool \<Rightarrow> 'v op_config \<Rightarrow> bool" where
  "detach_deferred access c \<longleftrightarrow>
     (op_submitting (fst c) \<and> op_delivered (fst c) \<longrightarrow> op_retired (fst c)) \<and>
     (\<not> op_retired (fst c) \<longrightarrow> op_access (fst c) = access)"

lemma detach_deferred_step:
  assumes "detach_deferred access c" "op_step c c'"
  shows "detach_deferred access c'"
  using assms(2,1)
proof (induction rule: op_step.induct)
  case (step_exec c c')
  then show ?case
  proof (induction rule: op_exec.induct)
    case (exec_section s i push s' xs rest ys)
    then show ?case
      by (cases i) (auto simp: detach_deferred_def exec_deliver_def exec_cleanup_def exec_reject_def
          exec_submitted_def Let_def split: if_splits)
  qed (simp add: detach_deferred_def)
qed (simp_all add: detach_deferred_def)

interpretation detach_machine: invariant_machine "op_start access" op_step "detach_deferred access"
proof
  show "detach_deferred access c" if "op_start access c" for c :: "'a op_config"
    using that by (simp add: op_start_def op_initial_def detach_deferred_def)
qed (rule detach_deferred_step)

text \<open>
  Detaching during submission is provisional. While the submit body runs and no completion
  has retired the operation, the handler was not called, however often the operation was
  detached; and a rejection at that point is delivered with its own error and releases the
  borrow.
\<close>
theorem rejection_wins_over_detach:
  assumes "reaches (op_start access) op_step (s, ts)" "op_submitting s" "\<not> op_retired s"
  shows "op_calls s = [] \<and> op_handler s \<and>
    exec (Reject e) s = ([Deliver (AFailed e) True], s) \<and>
    fst (exec (Deliver (AFailed e) True) s) =
      [TakeHandler, ReleaseAccess access, CallHandler (AFailed e), Cleanup]"
proof -
  have inv: "op_inv access (s, ts)" by (rule op_machine.reaches_inv [OF assms(1)])
  have "detach_deferred access (s, ts)" by (rule detach_machine.reaches_inv [OF assms(1)])
  with assms(2,3) have d: "\<not> op_delivered s" "op_access s = access" by (simp_all add: detach_deferred_def)
  with inv have "op_calls s = [] \<and> op_handler s" by (cases "op_handler s") simp_all
  then show ?thesis
    using d assms(3) by (simp add: exec_reject_def exec_deliver_def)
qed


theorem rejection_wins_over_detach_witness:
  "\<exists>s :: nat op_state. reaches (op_start True) op_step (s, [[RunOperation]]) \<and>
     op_pending_detach s = Some (ErrorCode 1) \<and> op_calls s = [] \<and>
     fst (exec (Deliver (AFailed (ErrorCode 2)) True) s) =
       [TakeHandler, ReleaseAccess True, CallHandler (AFailed (ErrorCode 2)), Cleanup]"
proof -
  let ?init = "op_initial True :: nat op_state"
  let ?s = "?init\<lparr>op_requested := True, op_pending_detach := Some (ErrorCode 1)\<rparr>"
  have r0: "reaches (op_start True) op_step (?init, [[RunOperation]])"
    by (rule reaches_start) (simp add: op_start_def)
  have "op_exec (?init, [] @ (RunOperation # []) # []) (?init\<lparr>op_fault := op_fault ?init \<or> \<not> op_operation ?init \<or> \<not> op_context ?init\<rparr>,
      [] @ ([Deliver (AFailed (ErrorCode 1)) False, RunOperation] @ []) # [])"
    by (rule exec_operation) (simp_all add: op_initial_def)
  then have "op_exec (?init, [[RunOperation]]) (?init, [[Deliver (AFailed (ErrorCode 1)) False, RunOperation]])"
    by (simp add: op_initial_def)
  with r0 have r1: "reaches (op_start True) op_step (?init, [[Deliver (AFailed (ErrorCode 1)) False, RunOperation]])"
    by (rule op_reaches_exec)
  have "op_exec (?init, [] @ (Deliver (AFailed (ErrorCode 1)) False # [RunOperation]) # []) (?s, [] @ ([] @ [RunOperation]) # [])"
    by (rule exec_section) (simp_all add: op_initial_def exec_deliver_def)
  with r1 have r2: "reaches (op_start True) op_step (?s, [[RunOperation]])"
    by (auto intro: op_reaches_exec)
  from rejection_wins_over_detach [OF r2, of "ErrorCode 2"] have "op_calls ?s = [] \<and>
    fst (exec (Deliver (AFailed (ErrorCode 2)) True) ?s) =
      [TakeHandler, ReleaseAccess True, CallHandler (AFailed (ErrorCode 2)), Cleanup]"
    by (simp add: op_initial_def)
  with r2 show ?thesis by (intro exI [of _ ?s]) simp
qed

subsection \<open>Invocations\<close>

text \<open>
  \<open>static_invocation\<close>: a cold operation with its context and borrow. A move leaves the source
  without context; its \<open>optional\<close> operation stays engaged (moved from).
\<close>

record ('c, 'a, 'o) invocation =
  si_context :: "'c option"
  si_access :: "'a option"
  si_operation :: "'o option"

definition require :: "bool \<Rightarrow> unit outcome" where
  "require condition = (if condition then Return () else Abort)"

definition make_invocation :: "'c option \<Rightarrow> 'o \<Rightarrow> 'a option \<Rightarrow> ('c, 'a, 'o) invocation outcome" where
  "make_invocation owner op access =
     obind (require (owner \<noteq> None))
       (\<lambda>_. Return \<lparr>si_context = owner, si_access = access, si_operation = Some op\<rparr>)"

definition si_move_construct ::
    "('c, 'a, 'o) invocation \<Rightarrow> ('c, 'a, 'o) invocation \<times> ('c, 'a, 'o) invocation" where
  "si_move_construct other =
     (\<lparr>si_context = si_context other, si_access = si_access other, si_operation = si_operation other\<rparr>,
      other\<lparr>si_context := None, si_access := None\<rparr>)"

text \<open>What an invocation keeps alive: its share of the context, as long as it has one.\<close>

definition si_destroy :: "('c, 'a, 'o) invocation \<Rightarrow> 'c multiset" where
  "si_destroy this = opt_mset (si_context this)"

definition si_move_assign ::
    "bool \<Rightarrow> ('c, 'a, 'o) invocation \<Rightarrow> ('c, 'a, 'o) invocation \<Rightarrow>
     ('c, 'a, 'o) invocation \<times> ('c, 'a, 'o) invocation \<times> 'c multiset" where
  "si_move_assign same this other =
     (if same then (this, other, {#})
      else case si_move_construct other of (new, other') \<Rightarrow> (new, other', si_destroy this))"

interpretation invocation_owner: move_only_owner si_context si_move_construct si_move_assign si_destroy
  by unfold_locales (auto simp: si_move_construct_def si_move_assign_def si_destroy_def)

text \<open>
  \<open>start\<close>: the contract check, then a fresh operation state that takes everything over. The
  result is what the state machine starts from, with the operation it runs.
\<close>

definition si_start ::
    "('c, 'a, 'o) invocation \<Rightarrow> (('c \<times> 'o) \<times> 'v op_config) outcome \<times> ('c, 'a, 'o) invocation" where
  "si_start this =
     (case (si_operation this, si_context this) of
        (Some op, Some ctx) \<Rightarrow>
          (Return ((ctx, op), (op_initial (si_access this \<noteq> None), [[RunOperation]])),
           this\<lparr>si_context := None, si_access := None, si_operation := None\<rparr>)
      | _ \<Rightarrow> (Abort, this))"

text \<open>
  The erased \<open>invocation\<close>: a unique pointer to the call, which \<open>start\<close> takes before it starts
  the call in it.
\<close>

definition erased_start ::
    "('c, 'a, 'o) invocation option \<Rightarrow>
     (('c \<times> 'o) \<times> 'v op_config) outcome \<times> ('c, 'a, 'o) invocation option" where
  "erased_start this = (case this of None \<Rightarrow> (Abort, None) | Some call \<Rightarrow> (fst (si_start call), None))"

text \<open>
  An invocation starts once. A prepared invocation starts exactly the operation state of
  the protocol, with its borrow; starting it again, or starting one that was moved from, is a
  contract violation that terminates the process, also when it was erased.
\<close>
theorem invocation_starts_once:
  assumes "make_invocation owner op access = Return call"
  shows "(\<exists>ctx c. owner = Some ctx \<and>
      si_start call = (Return ((ctx, op), c), snd (si_start call :: (_ \<times> 'v op_config) outcome \<times> _)) \<and>
      op_start (access \<noteq> None) (c :: 'v op_config)) \<and>
    fst (si_start (snd (si_start call :: (_ \<times> 'v op_config) outcome \<times> _)) :: (_ \<times> 'v op_config) outcome \<times> _) = Abort \<and>
    fst (si_start (snd (si_move_construct call)) :: (_ \<times> 'v op_config) outcome \<times> _) = Abort \<and>
    (si_start (fst (si_move_construct call)) :: (_ \<times> 'v op_config) outcome \<times> _) = si_start call \<and>
    fst (erased_start (Some call) :: (_ \<times> 'v op_config) outcome \<times> _) = fst (si_start call) \<and>
    fst (erased_start (snd (erased_start (Some call) :: (_ \<times> 'v op_config) outcome \<times> _)) :: (_ \<times> 'v op_config) outcome \<times> _) = Abort"
  using assms
  by (cases owner)
    (auto simp: make_invocation_def require_def si_start_def si_move_construct_def erased_start_def op_start_def)

theorem invocation_starts_once_witness:
  "\<exists>call. make_invocation (Some (1 :: nat)) (2 :: nat) (None :: nat option) = Return call \<and>
    fst (si_start (snd (si_start call :: (_ \<times> nat op_config) outcome \<times> _)) :: (_ \<times> nat op_config) outcome \<times> _) = Abort"
proof -
  let ?call = "\<lparr>si_context = Some (1 :: nat), si_access = None :: nat option, si_operation = Some (2 :: nat)\<rparr>"
  have "make_invocation (Some 1) 2 None = Return ?call" by (simp add: make_invocation_def require_def)
  with invocation_starts_once [OF this] show ?thesis by blast
qed

end
