(* ===== verification/AsyncFlow.thy ===== *)
theory AsyncFlow
  imports AsyncOp
begin

section \<open>Asynchronous calls in a flow\<close>

text \<open>
  The adapter \<open>dynabridge/extensions/flux_foundry/async.h\<close> between invocations and an external
  flow library. The library is a parameter: what it does with a result is the log of results
  it was resumed with.
\<close>

datatype 'v flow_result = FlowValue 'v | FlowError async_error

fun forward_result :: "'v async_result \<Rightarrow> 'v flow_result" where
  "forward_result (AValue v) = FlowValue v"
| "forward_result (AFailed e) = FlowError e"

record ('call, 'v) awaitable =
  aw_call :: "'call option"
  aw_input_error :: async_error
  aw_resumed :: "'v flow_result list"

definition make_awaitable :: "'call flow_result \<Rightarrow> ('call, 'v) awaitable" where
  "make_awaitable input =
     (case input of
        FlowValue call \<Rightarrow> \<lparr>aw_call = Some call, aw_input_error = NoError, aw_resumed = []\<rparr>
      | FlowError e \<Rightarrow> \<lparr>aw_call = None, aw_input_error = e, aw_resumed = []\<rparr>)"

definition aw_resume :: "'v flow_result \<Rightarrow> ('call, 'v) awaitable \<Rightarrow> ('call, 'v) awaitable" where
  "aw_resume r a = a\<lparr>aw_resumed := aw_resumed a @ [r]\<rparr>"

text \<open>
  \<open>submit\<close>: \<open>start\<close> stands for starting the call; it throws before it took the handler, or it
  runs and perhaps completes inline. The call leaves its slot first.
\<close>

definition aw_submit ::
    "('call \<Rightarrow> 'v async_result option outcome) \<Rightarrow> ('call, 'v) awaitable \<Rightarrow>
     int outcome \<times> ('call, 'v) awaitable" where
  "aw_submit start a =
     (case aw_call a of
        None \<Rightarrow> (Return 0, aw_resume (FlowError (aw_input_error a)) a)
      | Some call \<Rightarrow>
          let a = a\<lparr>aw_call := None\<rparr> in
          (case start call of
             Return None \<Rightarrow> (Return 0, a)
           | Return (Some r) \<Rightarrow> (Return 0, aw_resume (forward_result r) a)
           | Throw e \<Rightarrow> (Return 0, aw_resume (FlowError (Exception e)) a)
           | Abort \<Rightarrow> (Abort, a)))"

text \<open>\<open>invocation_sink\<close>: a shared slot whose handler runs at most once.\<close>

definition sink_emplace ::
    "'h option \<Rightarrow> 'v flow_result \<Rightarrow> ('h \<times> 'v flow_result) option \<times> 'h option" where
  "sink_emplace slot result =
     (case slot of None \<Rightarrow> (None, None) | Some h \<Rightarrow> (Some (h, result), None))"

text \<open>
  \<open>start_invocation\<close>: the flow is built (\<open>owned\<close>) and run on the call, or, when there is no
  memory for it, the call is dropped and the handler gets the error.
\<close>

definition not_enough_memory :: int where "not_enough_memory = 12"

definition start_invocation ::
    "bool \<Rightarrow> ('call \<Rightarrow> 'h option \<Rightarrow> ('h \<times> 'v flow_result) option \<times> 'h option) \<Rightarrow> 'call \<Rightarrow> 'h \<Rightarrow>
     ('h \<times> 'v flow_result) option \<times> 'h option" where
  "start_invocation owned run call handler =
     (let slot = Some handler in
      if \<not> owned then sink_emplace slot (FlowError (ErrorCode not_enough_memory))
      else run call slot)"

text \<open>
  An awaitable is resumed exactly when it should be. Submission returns zero; it resumes the
  flow at once with the input's error when there is no call, with the exception when starting
  throws, and with the result when the call completes inline; otherwise it leaves the resumption
  to the completion. The call cannot be submitted twice, and a sink runs its handler once.
\<close>
theorem awaitable_resumes:
  "(fst (aw_submit start (make_awaitable (FlowError e))) = Return 0 \<and>
    aw_resumed (snd (aw_submit start (make_awaitable (FlowError e)))) = [FlowError e]) \<and>
   (start call \<noteq> Abort \<longrightarrow>
     fst (aw_submit start (make_awaitable (FlowValue call))) = Return 0 \<and>
     aw_call (snd (aw_submit start (make_awaitable (FlowValue call)))) = None \<and>
     aw_resumed (snd (aw_submit start (make_awaitable (FlowValue call)))) =
       (case start call of Return None \<Rightarrow> [] | Return (Some r) \<Rightarrow> [forward_result r]
        | Throw x \<Rightarrow> [FlowError (Exception x)] | Abort \<Rightarrow> [])) \<and>
   fst (sink_emplace (snd (sink_emplace slot r)) r') = None"
  by (auto simp: aw_submit_def make_awaitable_def aw_resume_def sink_emplace_def Let_def
      split: outcome.splits option.splits)

text \<open>A call that completes inline, and one whose start throws.\<close>

theorem awaitable_resumes_witness:
  "aw_resumed (snd (aw_submit (\<lambda>call. Return (Some (AValue (Suc call)))) (make_awaitable (FlowValue (4 :: nat))))) =
     [FlowValue (5 :: nat)] \<and>
   aw_resumed (snd (aw_submit (\<lambda>call. Throw UnknownException) (make_awaitable (FlowValue (4 :: nat))))) =
     [FlowError (Exception UnknownException) :: nat flow_result]"
  using awaitable_resumes [where start = "\<lambda>call. Return (Some (AValue (Suc call)))" and call = 4,
      THEN conjunct2, THEN conjunct1]
    awaitable_resumes [where start = "\<lambda>call :: nat. Throw UnknownException :: nat async_result option outcome" and call = 4,
      THEN conjunct2, THEN conjunct1]
  by simp

end
