(* ===== verification/UvExecutor.thy ===== *)
theory UvExecutor
  imports Prelude
begin

section \<open>The libuv executor\<close>

text \<open>
  \<open>uv_executor\<close> of \<open>dynabridge/extensions/flux_foundry/uv_executor.h\<close> as a state machine of the
  loop thread and any number of other threads. libuv is a parameter: \<open>uv_async_send\<close> marks the
  handle for one later callback on the loop (several sends may coalesce), \<open>uv_close\<close> calls
  \<open>on_closed\<close> on the loop later and no other callback of the handle after it.
\<close>

datatype handle_state = HOpen | HClosing | HDeleted

text \<open>
  The loop thread is idle (in the loop, or in code outside this executor) or inside \<open>on_async\<close>
  with the rest of its round and its two decisions.
\<close>

datatype 't loop_pc = Idle | Running "'t list" bool bool

record 't uv_state =
  uv_tasks :: "'t list"
  uv_closing :: bool
  uv_wakeup :: bool
  uv_handle :: handle_state
  uv_pc :: "'t loop_pc"
  uv_owner :: bool
  uv_sends :: nat
  uv_accepted :: "'t list"
  uv_done :: "'t list"
  uv_inline :: "'t list"
  uv_fault :: bool
  uv_terminated :: bool

text \<open>
  \<open>uv_owner\<close> says that \<open>state_\<close> is not null; \<open>uv_sends\<close> counts the calls of \<open>close\<close> between
  their locked section and their \<open>uv_async_send\<close>. The last five fields are ghosts: the tasks
  queued and run from the queue, those run inline, a use of the state after its deletion, and
  \<open>std::terminate\<close>.
\<close>

definition max_tasks_per_round :: nat where "max_tasks_per_round = 16"

definition uv_initial :: "'t uv_state" where
  "uv_initial = \<lparr>uv_tasks = [], uv_closing = False, uv_wakeup = False, uv_handle = HOpen, uv_pc = Idle,
     uv_owner = True, uv_sends = 0, uv_accepted = [], uv_done = [], uv_inline = [],
     uv_fault = False, uv_terminated = False\<rparr>"

text \<open>The constructor, with the answer of \<open>uv_async_init\<close>.\<close>

definition uv_construct :: "bool \<Rightarrow> int \<Rightarrow> 't uv_state outcome" where
  "uv_construct has_loop status =
     (if \<not> has_loop \<or> status \<noteq> 0 then Throw (RuntimeError ''uv_async_init failed'')
      else Return uv_initial)"

definition uv_dispatch :: "bool \<Rightarrow> 't \<Rightarrow> 't uv_state \<Rightarrow> 't uv_state" where
  "uv_dispatch on_loop task s =
     (if \<not> uv_owner s \<or> uv_closing s then s\<lparr>uv_terminated := True\<rparr>
      else if on_loop \<and> uv_tasks s = [] then s\<lparr>uv_inline := uv_inline s @ [task]\<rparr>
      else s\<lparr>uv_tasks := uv_tasks s @ [task], uv_accepted := uv_accepted s @ [task], uv_wakeup := True\<rparr>)"

text \<open>\<open>close\<close> in its two parts, the locked one and the send.\<close>

definition uv_close_mark :: "'t uv_state \<Rightarrow> 't uv_state" where
  "uv_close_mark s =
     (if \<not> uv_owner s then s
      else s\<lparr>uv_owner := False, uv_closing := True, uv_sends := uv_sends s + 1\<rparr>)"

definition uv_close_send :: "'t uv_state \<Rightarrow> 't uv_state" where
  "uv_close_send s =
     (if uv_sends s = 0 then s
      else s\<lparr>uv_sends := uv_sends s - 1, uv_fault := uv_fault s \<or> uv_handle s = HDeleted, uv_wakeup := True\<rparr>)"

text \<open>\<open>on_async\<close>: its locked section, one task, and its end; then \<open>on_closed\<close>.\<close>

definition on_async_take :: "'t uv_state \<Rightarrow> 't uv_state" where
  "on_async_take s =
     (let round = take max_tasks_per_round (uv_tasks s);
          remaining = drop max_tasks_per_round (uv_tasks s);
          rearm = (remaining \<noteq> [])
      in s\<lparr>uv_wakeup := False, uv_tasks := remaining,
           uv_pc := Running round rearm (uv_closing s \<and> \<not> rearm)\<rparr>)"

definition on_async_task :: "'t \<Rightarrow> 't list \<Rightarrow> bool \<Rightarrow> bool \<Rightarrow> 't uv_state \<Rightarrow> 't uv_state" where
  "on_async_task task round rearm closes s =
     s\<lparr>uv_done := uv_done s @ [task], uv_pc := Running round rearm closes\<rparr>"

definition on_async_end :: "bool \<Rightarrow> bool \<Rightarrow> 't uv_state \<Rightarrow> 't uv_state" where
  "on_async_end rearm closes s =
     (if rearm then s\<lparr>uv_pc := Idle, uv_wakeup := True\<rparr>
      else if closes then s\<lparr>uv_pc := Idle, uv_handle := HClosing\<rparr>
      else s\<lparr>uv_pc := Idle\<rparr>)"

definition on_closed :: "'t uv_state \<Rightarrow> 't uv_state" where
  "on_closed s = s\<lparr>uv_handle := HDeleted\<rparr>"

subsection \<open>Steps\<close>

inductive loop_step :: "'t uv_state \<Rightarrow> 't uv_state \<Rightarrow> bool" where
  loop_wake: "uv_pc s = Idle \<Longrightarrow> uv_wakeup s \<Longrightarrow> uv_handle s = HOpen \<Longrightarrow>
     loop_step s (on_async_take s)"
| loop_task: "uv_pc s = Running (t # ts) rearm closes \<Longrightarrow>
     loop_step s (on_async_task t ts rearm closes s)"
| loop_end: "uv_pc s = Running [] rearm closes \<Longrightarrow> loop_step s (on_async_end rearm closes s)"
| loop_closed: "uv_pc s = Idle \<Longrightarrow> uv_handle s = HClosing \<Longrightarrow> loop_step s (on_closed s)"

text \<open>
  Threads dispatch from inside or outside the loop thread. \<open>close\<close> on the loop thread runs to
  its end before the loop does anything else; when \<open>remote\<close>, other threads may close too, and
  the loop may run between the two parts.
\<close>

inductive uv_step :: "bool \<Rightarrow> 't uv_state \<Rightarrow> 't uv_state \<Rightarrow> bool" for remote where
  step_loop: "loop_step s s' \<Longrightarrow> uv_step remote s s'"
| step_dispatch: "uv_step remote s (uv_dispatch on_loop task s)"
| step_close_on_loop: "uv_step remote s (uv_close_send (uv_close_mark s))"
| step_close_mark: "remote \<Longrightarrow> uv_step remote s (uv_close_mark s)"
| step_close_send: "remote \<Longrightarrow> uv_step remote s (uv_close_send s)"

definition round_of :: "'t loop_pc \<Rightarrow> 't list" where
  "round_of pc = (case pc of Idle \<Rightarrow> [] | Running ts _ _ \<Rightarrow> ts)"

text \<open>
  The invariant: queued tasks are done, in the round or still queued, in order; a queued task
  or a completed \<open>close\<close> always has a wakeup or the end of the current round to see it; the
  handle closes only when the queue is empty for good.
\<close>

definition uv_inv :: "bool \<Rightarrow> 't uv_state \<Rightarrow> bool" where
  "uv_inv remote s \<longleftrightarrow>
     uv_accepted s = uv_done s @ round_of (uv_pc s) @ uv_tasks s \<and>
     length (round_of (uv_pc s)) \<le> max_tasks_per_round \<and>
     (uv_closing s \<longleftrightarrow> \<not> uv_owner s) \<and>
     (uv_sends s > 0 \<longrightarrow> uv_closing s) \<and>
     (case uv_pc s of
        Idle \<Rightarrow> uv_handle s = HOpen \<longrightarrow>
          (uv_tasks s \<noteq> [] \<or> uv_closing s \<and> uv_sends s = 0 \<longrightarrow> uv_wakeup s)
      | Running _ rearm closes \<Rightarrow> uv_handle s = HOpen \<and>
          (uv_tasks s \<noteq> [] \<longrightarrow> rearm \<or> uv_wakeup s) \<and>
          (uv_closing s \<and> uv_sends s = 0 \<longrightarrow> rearm \<or> closes \<or> uv_wakeup s) \<and>
          (closes \<longrightarrow> uv_closing s \<and> uv_tasks s = [] \<and> \<not> rearm)) \<and>
     (uv_handle s \<noteq> HOpen \<longrightarrow> uv_closing s \<and> uv_tasks s = []) \<and>
     (\<not> remote \<longrightarrow> uv_sends s = 0 \<and> \<not> uv_fault s)"

lemma uv_inv_initial: "s = uv_initial \<Longrightarrow> uv_inv remote s"
  by (simp add: uv_inv_def uv_initial_def round_of_def)

lemma uv_inv_loop: "loop_step s s' \<Longrightarrow> uv_inv remote s \<Longrightarrow> uv_inv remote s'"
proof (induction rule: loop_step.induct)
  case (loop_wake s)
  then show ?case
    by (auto simp: uv_inv_def on_async_take_def Let_def round_of_def)
next
  case (loop_task s t ts rearm closes)
  then show ?case by (auto simp: uv_inv_def on_async_task_def round_of_def)
next
  case (loop_end s rearm closes)
  then show ?case by (auto simp: uv_inv_def on_async_end_def round_of_def)
next
  case (loop_closed s)
  then show ?case by (auto simp: uv_inv_def on_closed_def round_of_def)
qed

lemma uv_inv_dispatch: "uv_inv remote s \<Longrightarrow> uv_inv remote (uv_dispatch on_loop task s)"
  by (auto simp: uv_inv_def uv_dispatch_def split: loop_pc.splits)

lemma uv_inv_mark: "uv_inv remote s \<Longrightarrow> remote \<Longrightarrow> uv_inv remote (uv_close_mark s)"
  by (auto simp: uv_inv_def uv_close_mark_def split: loop_pc.splits)

lemma uv_inv_send: "uv_inv remote s \<Longrightarrow> remote \<Longrightarrow> uv_inv remote (uv_close_send s)"
  by (auto simp: uv_inv_def uv_close_send_def split: loop_pc.splits)

lemma uv_inv_close: "uv_inv remote s \<Longrightarrow> uv_inv remote (uv_close_send (uv_close_mark s))"
  by (auto simp: uv_inv_def uv_close_send_def uv_close_mark_def split: loop_pc.splits)

lemma uv_inv_step: "uv_inv remote s \<Longrightarrow> uv_step remote s s' \<Longrightarrow> uv_inv remote s'"
  by (erule uv_step.cases)
    (simp_all add: uv_inv_loop uv_inv_dispatch uv_inv_mark uv_inv_send uv_inv_close)

interpretation uv_machine: invariant_machine "\<lambda>s. s = uv_initial" "uv_step remote" "uv_inv remote"
  by unfold_locales (blast intro: uv_inv_initial uv_inv_step)+


subsection \<open>Properties\<close>

lemma uv_reaches_step:
  "reaches (\<lambda>s. s = uv_initial) (uv_step remote) s \<Longrightarrow> uv_step remote s s' \<Longrightarrow>
     reaches (\<lambda>s. s = uv_initial) (uv_step remote) s'"
  by (rule reaches_step)

text \<open>Three tasks queued by another thread and a round in progress, the executor closed.\<close>

definition uv_sample :: "nat uv_state" where
  "uv_sample = on_async_task 1 [2, 3] False True (on_async_take (uv_close_send (uv_close_mark
     (uv_dispatch False 3 (uv_dispatch False 2 (uv_dispatch False 1 uv_initial))))))"

lemma uv_sample_reaches: "reaches (\<lambda>s. s = uv_initial) (uv_step remote) uv_sample"
proof -
  let ?d = "uv_dispatch False 3 (uv_dispatch False 2 (uv_dispatch False 1 uv_initial)) :: nat uv_state"
  have "reaches (\<lambda>s. s = uv_initial) (uv_step remote) ?d"
    by (intro uv_reaches_step [OF _ step_dispatch] reaches_start refl)
  then have c: "reaches (\<lambda>s. s = uv_initial) (uv_step remote) (uv_close_send (uv_close_mark ?d))"
    by (rule uv_reaches_step) (rule step_close_on_loop)
  have "loop_step (uv_close_send (uv_close_mark ?d)) (on_async_take (uv_close_send (uv_close_mark ?d)))"
    by (rule loop_wake)
      (simp_all add: uv_close_send_def uv_close_mark_def uv_dispatch_def uv_initial_def)
  with c have t: "reaches (\<lambda>s. s = uv_initial) (uv_step remote) (on_async_take (uv_close_send (uv_close_mark ?d)))"
    by (blast intro: uv_reaches_step step_loop)
  have "loop_step (on_async_take (uv_close_send (uv_close_mark ?d))) uv_sample"
    unfolding uv_sample_def
    by (rule loop_task)
      (simp add: on_async_take_def max_tasks_per_round_def uv_close_send_def uv_close_mark_def
        uv_dispatch_def uv_initial_def)
  with t show ?thesis by (blast intro: uv_reaches_step step_loop)
qed

text \<open>
  C8: queued tasks run once each, in the order they were queued, at most sixteen per wakeup,
  under every interleaving of the threads; and when the executor's state is deleted, every
  task that was queued has been run.
\<close>
theorem uv_runs_in_order:
  assumes "reaches (\<lambda>s. s = uv_initial) (uv_step remote) s"
  shows "uv_accepted s = uv_done s @ round_of (uv_pc s) @ uv_tasks s \<and>
    length (round_of (uv_pc s)) \<le> 16 \<and>
    (uv_handle s = HDeleted \<longrightarrow> uv_pc s = Idle \<and> uv_done s = uv_accepted s)"
proof -
  have inv: "uv_inv remote s" by (rule uv_machine.reaches_inv [OF assms])
  then have "uv_handle s = HDeleted \<longrightarrow> uv_pc s = Idle \<and> uv_tasks s = []"
    by (auto simp: uv_inv_def split: loop_pc.splits)
  with inv show ?thesis by (auto simp: uv_inv_def max_tasks_per_round_def round_of_def)
qed

theorem uv_runs_in_order_witness:
  "uv_accepted uv_sample = [1, 2, 3] \<and> uv_done uv_sample = [1] \<and> round_of (uv_pc uv_sample) = [2, 3] \<and>
   uv_accepted uv_sample = uv_done uv_sample @ round_of (uv_pc uv_sample) @ uv_tasks uv_sample"
  using uv_runs_in_order [OF uv_sample_reaches]
  by (simp add: uv_sample_def on_async_task_def on_async_take_def max_tasks_per_round_def uv_close_send_def
      uv_close_mark_def uv_dispatch_def uv_initial_def round_of_def)

text \<open>Running the loop alone: the round, then wakeup after wakeup until the queue is empty.\<close>

lemma loop_round:
  "uv_pc s = Running ts rearm closes \<Longrightarrow>
     loop_step\<^sup>*\<^sup>* s (on_async_end rearm closes (s\<lparr>uv_done := uv_done s @ ts, uv_pc := Running [] rearm closes\<rparr>))"
proof (induction ts arbitrary: s)
  case Nil
  then have "loop_step s (on_async_end rearm closes s)" by (rule loop_end)
  moreover have "s\<lparr>uv_done := uv_done s @ [], uv_pc := Running [] rearm closes\<rparr> = s" using Nil by simp
  ultimately show ?case by simp
next
  case (Cons t ts)
  have "loop_step s (on_async_task t ts rearm closes s)" using Cons.prems by (rule loop_task)
  moreover have "loop_step\<^sup>*\<^sup>* (on_async_task t ts rearm closes s)
      (on_async_end rearm closes (s\<lparr>uv_done := uv_done s @ t # ts, uv_pc := Running [] rearm closes\<rparr>))"
    using Cons.IH [of "on_async_task t ts rearm closes s"] by (simp add: on_async_task_def)
  ultimately show ?case by (rule converse_rtranclp_into_rtranclp)
qed

lemma loop_steps_inv: "loop_step\<^sup>*\<^sup>* s s' \<Longrightarrow> uv_inv remote s \<Longrightarrow> uv_inv remote s'"
  by (induction rule: rtranclp_induct) (auto intro: uv_inv_loop)

lemma loop_keeps:
  "loop_step\<^sup>*\<^sup>* s s' \<Longrightarrow> uv_accepted s' = uv_accepted s \<and> uv_closing s' = uv_closing s \<and> uv_sends s' = uv_sends s"
  by (induction rule: rtranclp_induct)
    (auto elim!: loop_step.cases simp: on_async_take_def on_async_task_def on_async_end_def on_closed_def Let_def split: if_splits)

text \<open>One wakeup from idle removes up to sixteen tasks and ends idle again.\<close>

lemma loop_wakeup:
  assumes "uv_inv remote s" "uv_pc s = Idle" "uv_handle s = HOpen" "uv_wakeup s"
  shows "\<exists>s'. loop_step\<^sup>*\<^sup>* s s' \<and> uv_pc s' = Idle \<and>
    uv_tasks s' = drop max_tasks_per_round (uv_tasks s) \<and>
    (uv_tasks s' \<noteq> [] \<longrightarrow> uv_wakeup s' \<and> uv_handle s' = HOpen) \<and>
    (uv_tasks s' = [] \<longrightarrow> (uv_handle s' = HClosing \<longleftrightarrow> uv_closing s) \<and> uv_handle s' \<noteq> HDeleted)"
proof -
  let ?t = "on_async_take s"
  obtain ts rearm closes where pc: "uv_pc ?t = Running ts rearm closes"
    and r: "rearm = (drop max_tasks_per_round (uv_tasks s) \<noteq> [])" "closes = (uv_closing s \<and> \<not> rearm)"
    by (simp add: on_async_take_def Let_def)
  have "loop_step s ?t" using assms(2,4,3) by (rule loop_wake)
  let ?u = "on_async_end rearm closes (?t\<lparr>uv_done := uv_done ?t @ ts, uv_pc := Running [] rearm closes\<rparr>)"
  from \<open>loop_step s ?t\<close> have run: "loop_step\<^sup>*\<^sup>* s ?u"
    using loop_round [OF pc] by (rule converse_rtranclp_into_rtranclp)
  have "uv_pc ?u = Idle \<and> uv_tasks ?u = drop max_tasks_per_round (uv_tasks s) \<and>
    (uv_tasks ?u \<noteq> [] \<longrightarrow> uv_wakeup ?u \<and> uv_handle ?u = HOpen) \<and>
    (uv_tasks ?u = [] \<longrightarrow> (uv_handle ?u = HClosing \<longleftrightarrow> uv_closing s) \<and> uv_handle ?u \<noteq> HDeleted)"
    using assms(3) r by (auto simp: on_async_end_def on_async_take_def Let_def)
  with run show ?thesis by blast
qed

text \<open>Wakeup after wakeup, until the queue is empty and a closed handle is deleted.\<close>

lemma idle_drains:
  assumes "uv_inv remote s" "uv_pc s = Idle"
  shows "\<exists>s'. loop_step\<^sup>*\<^sup>* s s' \<and> uv_pc s' = Idle \<and> uv_tasks s' = [] \<and>
    (uv_closing s \<and> uv_sends s = 0 \<longrightarrow> uv_handle s' = HDeleted)"
  using assms
proof (induction "length (uv_tasks s)" arbitrary: s rule: less_induct)
  case less
  show ?case
  proof (cases "uv_handle s = HOpen \<and> uv_wakeup s")
    case True
    with less.prems obtain s1 where s1: "loop_step\<^sup>*\<^sup>* s s1" "uv_pc s1 = Idle"
      "uv_tasks s1 = drop max_tasks_per_round (uv_tasks s)"
      "uv_tasks s1 \<noteq> [] \<longrightarrow> uv_wakeup s1 \<and> uv_handle s1 = HOpen"
      "uv_tasks s1 = [] \<longrightarrow> (uv_handle s1 = HClosing \<longleftrightarrow> uv_closing s) \<and> uv_handle s1 \<noteq> HDeleted"
      using loop_wakeup by blast
    have inv1: "uv_inv remote s1" by (rule loop_steps_inv [OF s1(1) less.prems(1)])
    show ?thesis
    proof (cases "uv_tasks s1 = []")
      case empty: True
      show ?thesis
      proof (cases "uv_closing s")
        case True
        with empty s1 have "loop_step s1 (on_closed s1)" by (intro loop_closed) simp_all
        with s1 empty show ?thesis
          by (intro exI [of _ "on_closed s1"]) (auto simp: on_closed_def)
      next
        case False
        with s1 empty show ?thesis by blast
      qed
    next
      case False
      then have "length (uv_tasks s1) < length (uv_tasks s)"
        using s1(3) by (auto simp: max_tasks_per_round_def)
      from less.hyps [OF this inv1 s1(2)] obtain s' where "loop_step\<^sup>*\<^sup>* s1 s'" "uv_pc s' = Idle"
        "uv_tasks s' = []" "uv_closing s1 \<and> uv_sends s1 = 0 \<longrightarrow> uv_handle s' = HDeleted" by blast
      with s1(1) loop_keeps [OF s1(1)] show ?thesis by (intro exI [of _ s']) auto
    qed
  next
    case False
    with less.prems have "uv_tasks s = []" "uv_closing s \<and> uv_sends s = 0 \<longrightarrow> uv_handle s \<noteq> HOpen"
      by (auto simp: uv_inv_def)
    moreover have "loop_step s (on_closed s)" if "uv_handle s = HClosing"
      using less.prems(2) that by (rule loop_closed)
    ultimately show ?thesis using less.prems(2)
      by (cases "uv_handle s") (auto simp: on_closed_def intro: exI [of _ s] exI [of _ "on_closed s"])
  qed
qed

text \<open>
  C34: no wakeup is lost and shutdown completes. From every reachable state the loop, left to
  itself, runs every queued task; and if the executor was closed, it then closes and deletes
  its handle, so that a loop that keeps running after \<open>close\<close> frees everything.
\<close>
theorem uv_drains:
  assumes "reaches (\<lambda>s. s = uv_initial) (uv_step remote) s"
  shows "\<exists>s'. loop_step\<^sup>*\<^sup>* s s' \<and> uv_done s' = uv_accepted s \<and>
    (uv_closing s \<and> uv_sends s = 0 \<longrightarrow> uv_handle s' = HDeleted)"
proof -
  have inv: "uv_inv remote s" by (rule uv_machine.reaches_inv [OF assms])
  obtain s1 where s1: "loop_step\<^sup>*\<^sup>* s s1" "uv_pc s1 = Idle"
  proof (cases "uv_pc s")
    case (Running ts rearm closes)
    then show ?thesis using loop_round [OF Running]
      by (intro that) (auto simp: on_async_end_def)
  qed (blast intro: that)
  have "uv_inv remote s1" by (rule loop_steps_inv [OF s1(1) inv])
  from idle_drains [OF this s1(2)] obtain s' where s': "loop_step\<^sup>*\<^sup>* s1 s'" "uv_pc s' = Idle" "uv_tasks s' = []"
    "uv_closing s1 \<and> uv_sends s1 = 0 \<longrightarrow> uv_handle s' = HDeleted" by blast
  then have all: "loop_step\<^sup>*\<^sup>* s s'" using s1(1) by auto
  have "uv_inv remote s'" by (rule loop_steps_inv [OF all inv])
  then have "uv_done s' = uv_accepted s'" using s'(2,3) by (simp add: uv_inv_def round_of_def)
  with all s' loop_keeps [OF all] loop_keeps [OF s1(1)] show ?thesis by (intro exI [of _ s']) auto
qed

theorem uv_drains_witness:
  "\<exists>s'. loop_step\<^sup>*\<^sup>* uv_sample s' \<and> uv_done s' = [1, 2, 3] \<and> uv_handle s' = HDeleted"
  using uv_drains [OF uv_sample_reaches]
  by (simp add: uv_sample_def on_async_task_def on_async_take_def max_tasks_per_round_def uv_close_send_def
      uv_close_mark_def uv_dispatch_def uv_initial_def round_of_def)


subsection \<open>Closing\<close>

text \<open>
  When only the loop thread closes the executor, no thread ever touches the state after it
  was deleted, whatever other threads dispatch.
\<close>
theorem uv_close_on_loop_safe:
  "reaches (\<lambda>s. s = uv_initial) (uv_step False) s \<Longrightarrow> \<not> uv_fault s"
  using uv_machine.reaches_inv [of False s] by (simp add: uv_inv_def)

theorem uv_close_on_loop_safe_witness: "\<not> uv_fault uv_sample \<and> uv_closing uv_sample"
  using uv_close_on_loop_safe [OF uv_sample_reaches]
  by (simp add: uv_sample_def on_async_task_def on_async_take_def max_tasks_per_round_def uv_close_send_def
      uv_close_mark_def uv_dispatch_def uv_initial_def)

text \<open>
  C37: closing from another thread can use the state after its deletion. \<open>close\<close> marks the
  executor as closing under the lock but sends the wakeup after it: when a task is queued and
  its wakeup pending, the loop may take the round, see the mark, close the handle and delete
  the state, all before the closing thread calls \<open>uv_async_send\<close> on the handle in it.
\<close>
theorem uv_remote_close_use_after_free:
  "\<exists>s :: nat uv_state. reaches (\<lambda>s. s = uv_initial) (uv_step True) s \<and> uv_fault s \<and> \<not> uv_terminated s"
proof -
  let ?a = "uv_close_mark (uv_dispatch False 1 uv_initial) :: nat uv_state"
  let ?b = "on_async_take ?a" and ?e = "on_async_end False True (on_async_task 1 [] False True (on_async_take ?a))"
  note defs = uv_close_mark_def uv_dispatch_def uv_initial_def on_async_take_def on_async_task_def
    on_async_end_def on_closed_def max_tasks_per_round_def
  have a: "reaches (\<lambda>s. s = uv_initial) (uv_step True) ?a"
    by (intro uv_reaches_step [OF _ step_close_mark] uv_reaches_step [OF _ step_dispatch] reaches_start refl TrueI)
  have 1: "loop_step ?a ?b" by (rule loop_wake) (simp_all add: defs)
  have 2: "loop_step ?b (on_async_task 1 [] False True ?b)" by (rule loop_task) (simp add: defs)
  have 3: "loop_step (on_async_task 1 [] False True ?b) ?e" by (rule loop_end) (simp add: defs)
  have 4: "loop_step ?e (on_closed ?e)" by (rule loop_closed) (simp_all add: defs)
  from a have "reaches (\<lambda>s. s = uv_initial) (uv_step True) (on_closed ?e)"
    by (intro uv_reaches_step [OF _ step_loop [OF 4]] uv_reaches_step [OF _ step_loop [OF 3]]
        uv_reaches_step [OF _ step_loop [OF 2]] uv_reaches_step [OF _ step_loop [OF 1]])
  then have "reaches (\<lambda>s. s = uv_initial) (uv_step True) (uv_close_send (on_closed ?e))"
    by (rule uv_reaches_step) (rule step_close_send, simp)
  moreover have "uv_fault (uv_close_send (on_closed ?e)) \<and> \<not> uv_terminated (uv_close_send (on_closed ?e))"
    by (simp add: defs uv_close_send_def)
  ultimately show ?thesis by blast
qed

end
