(* ===== verification/PyExecutor.thy ===== *)
theory PyExecutor
  imports Prelude
begin

section \<open>The Python interpreter executor\<close>

text \<open>
  \<open>python_interpreter_executor\<close> of
  \<open>dynabridge/extensions/flux_foundry/python_interpreter_executor.h\<close> as a state machine of its
  worker thread, the thread that shuts it down, and any number of others. CPython is a
  parameter: \<open>PyGILState_Ensure\<close> and \<open>PyEval_RestoreThread\<close> wait until the interpreter lock is
  free and take it. A condition variable wakes its waiter when the predicate holds.
\<close>

datatype gil_owner = GilFree | GilMain | GilWorker | GilOther

datatype 't worker_pc = WStart | WWait | WBatch "'t list" | WRun "'t list" | WExited

datatype main_pc = MRunning | MMarked | MJoining bool | MJoined bool | MDone

record 't py_state =
  px_tasks :: "'t list"
  px_stopping :: bool
  px_worker_id :: bool
  px_worker :: "'t worker_pc"
  px_main :: main_pc
  px_gil :: gil_owner
  px_accepted :: "'t list"
  px_done :: "'t list"
  px_inline :: "'t list"
  px_terminated :: bool

text \<open>\<open>px_worker_id\<close> says that \<open>worker_id_\<close> is set; the last four fields are ghosts.\<close>

definition px_initial :: "gil_owner \<Rightarrow> 't py_state" where
  "px_initial gil = \<lparr>px_tasks = [], px_stopping = False, px_worker_id = False, px_worker = WStart,
     px_main = MRunning, px_gil = gil, px_accepted = [], px_done = [], px_inline = [],
     px_terminated = False\<rparr>"

definition px_construct :: "bool \<Rightarrow> gil_owner \<Rightarrow> 't py_state outcome" where
  "px_construct initialized gil =
     (if \<not> initialized
      then Throw (RuntimeError ''python_interpreter_executor requires an initialized interpreter'')
      else Return (px_initial gil))"

subsection \<open>Operations\<close>

text \<open>\<open>dispatch\<close>, from the worker (inside a task) or from another thread.\<close>

definition px_dispatch :: "bool \<Rightarrow> 't \<Rightarrow> 't py_state \<Rightarrow> 't py_state" where
  "px_dispatch on_worker task s =
     (if px_stopping s then s\<lparr>px_terminated := True\<rparr>
      else if px_worker_id s \<and> on_worker then s\<lparr>px_inline := px_inline s @ [task]\<rparr>
      else s\<lparr>px_tasks := px_tasks s @ [task], px_accepted := px_accepted s @ [task]\<rparr>)"

text \<open>\<open>shutdown\<close>: the locked section, the release of the interpreter lock, the join, the restore.\<close>

definition shutdown_mark :: "'t py_state \<Rightarrow> 't py_state" where
  "shutdown_mark s = (if px_stopping s then s else s\<lparr>px_stopping := True, px_main := MMarked\<rparr>)"

definition shutdown_release :: "'t py_state \<Rightarrow> 't py_state" where
  "shutdown_release s =
     (if px_gil s = GilMain then s\<lparr>px_gil := GilFree, px_main := MJoining True\<rparr>
      else s\<lparr>px_main := MJoining False\<rparr>)"

definition shutdown_restore :: "bool \<Rightarrow> 't py_state \<Rightarrow> 't py_state" where
  "shutdown_restore released s =
     (if released then s\<lparr>px_gil := GilMain, px_main := MDone\<rparr> else s\<lparr>px_main := MDone\<rparr>)"

text \<open>\<open>run\<close>: storing the id, taking a batch, one task, the end of a batch.\<close>

definition run_start :: "'t py_state \<Rightarrow> 't py_state" where
  "run_start s = s\<lparr>px_worker_id := True, px_worker := WWait\<rparr>"

definition run_take :: "'t py_state \<Rightarrow> 't py_state" where
  "run_take s =
     (let batch = px_tasks s; s = s\<lparr>px_tasks := []\<rparr> in
      if batch = [] \<and> px_stopping s then s\<lparr>px_worker := WExited\<rparr> else s\<lparr>px_worker := WBatch batch\<rparr>)"

definition run_task :: "'t \<Rightarrow> 't list \<Rightarrow> 't py_state \<Rightarrow> 't py_state" where
  "run_task task batch s = s\<lparr>px_done := px_done s @ [task], px_worker := WRun batch\<rparr>"

definition run_release :: "'t py_state \<Rightarrow> 't py_state" where
  "run_release s = s\<lparr>px_gil := GilFree, px_worker := WWait\<rparr>"

subsection \<open>Steps\<close>

text \<open>Steps that need nothing new from outside: the worker's, the shutdown's, a lock release.\<close>

inductive px_run :: "'t py_state \<Rightarrow> 't py_state \<Rightarrow> bool" where
  worker_start: "px_worker s = WStart \<Longrightarrow> px_run s (run_start s)"
| worker_take: "px_worker s = WWait \<Longrightarrow> px_stopping s \<or> px_tasks s \<noteq> [] \<Longrightarrow> px_run s (run_take s)"
| worker_gil: "px_worker s = WBatch b \<Longrightarrow> px_gil s = GilFree \<Longrightarrow>
     px_run s (s\<lparr>px_gil := GilWorker, px_worker := WRun b\<rparr>)"
| worker_task: "px_worker s = WRun (t # ts) \<Longrightarrow> px_run s (run_task t ts s)"
| worker_release: "px_worker s = WRun [] \<Longrightarrow> px_run s (run_release s)"
| main_release: "px_main s = MMarked \<Longrightarrow> px_run s (shutdown_release s)"
| main_join: "px_main s = MJoining r \<Longrightarrow> px_worker s = WExited \<Longrightarrow> px_run s (s\<lparr>px_main := MJoined r\<rparr>)"
| main_restore: "px_main s = MJoined r \<Longrightarrow> r \<longrightarrow> px_gil s = GilFree \<Longrightarrow> px_run s (shutdown_restore r s)"
| other_release: "px_gil s = GilOther \<Longrightarrow> px_run s (s\<lparr>px_gil := GilFree\<rparr>)"

inductive px_step :: "'t py_state \<Rightarrow> 't py_state \<Rightarrow> bool" where
  step_run: "px_run s s' \<Longrightarrow> px_step s s'"
| step_dispatch: "on_worker \<longrightarrow> (\<exists>b. px_worker s = WRun b) \<Longrightarrow> px_step s (px_dispatch on_worker task s)"
| step_shutdown: "px_main s = MRunning \<Longrightarrow> px_step s (shutdown_mark s)"
| step_main_acquire: "px_main s = MRunning \<or> px_main s = MDone \<Longrightarrow> px_gil s = GilFree \<Longrightarrow> px_step s (s\<lparr>px_gil := GilMain\<rparr>)"
| step_main_yield: "px_main s = MRunning \<or> px_main s = MDone \<Longrightarrow> px_gil s = GilMain \<Longrightarrow> px_step s (s\<lparr>px_gil := GilFree\<rparr>)"
| step_other_acquire: "px_gil s = GilFree \<Longrightarrow> px_step s (s\<lparr>px_gil := GilOther\<rparr>)"

definition batch_of :: "'t worker_pc \<Rightarrow> 't list" where
  "batch_of pc = (case pc of WBatch b \<Rightarrow> b | WRun b \<Rightarrow> b | _ \<Rightarrow> [])"

text \<open>
  The invariant: tasks are done, in the batch or queued, in order; exactly a running worker
  holds the lock for itself; a worker that exited left nothing behind; the thread that joins
  does not hold the lock.
\<close>

definition px_inv :: "'t py_state \<Rightarrow> bool" where
  "px_inv s \<longleftrightarrow>
     px_accepted s = px_done s @ batch_of (px_worker s) @ px_tasks s \<and>
     (px_gil s = GilWorker \<longleftrightarrow> (\<exists>b. px_worker s = WRun b)) \<and>
     (px_worker s = WExited \<longrightarrow> px_stopping s \<and> px_tasks s = []) \<and>
     (px_main s = MRunning \<longleftrightarrow> \<not> px_stopping s) \<and>
     (\<forall>r. px_main s = MJoining r \<or> px_main s = MJoined r \<longrightarrow> px_gil s \<noteq> GilMain) \<and>
     ((\<exists>r. px_main s = MJoined r) \<or> px_main s = MDone \<longrightarrow> px_worker s = WExited)"

lemma px_inv_start: "\<exists>gil. s = px_initial gil \<and> gil \<noteq> GilWorker \<Longrightarrow> px_inv s"
  by (auto simp: px_inv_def px_initial_def batch_of_def)

lemma px_inv_run: "px_run s s' \<Longrightarrow> px_inv s \<Longrightarrow> px_inv s'"
proof (induction rule: px_run.induct)
  case (worker_take s)
  then show ?case by (cases "px_tasks s") (auto simp: px_inv_def run_take_def batch_of_def Let_def)
next
  case (main_release s)
  then show ?case by (cases "px_gil s") (auto simp: px_inv_def shutdown_release_def)
next
  case (main_restore s r)
  then show ?case by (cases r) (auto simp: px_inv_def shutdown_restore_def batch_of_def)
qed (auto simp: px_inv_def batch_of_def run_start_def run_task_def run_release_def)

lemma px_inv_step: "px_inv s \<Longrightarrow> px_step s s' \<Longrightarrow> px_inv s'"
  by (erule px_step.cases)
    (auto simp: px_inv_run, auto simp: px_inv_def px_dispatch_def shutdown_mark_def)

interpretation px_machine: invariant_machine "\<lambda>s. \<exists>gil. s = px_initial gil \<and> gil \<noteq> GilWorker" px_step px_inv
  by unfold_locales (blast intro: px_inv_start px_inv_step)+


subsection \<open>Properties\<close>

lemma px_run_steps_inv: "px_run\<^sup>*\<^sup>* s s' \<Longrightarrow> px_inv s \<Longrightarrow> px_inv s'"
  by (induction rule: rtranclp_induct) (auto intro: px_inv_run)

lemma px_reaches_run:
  "reaches (\<lambda>s. \<exists>gil. s = px_initial gil \<and> gil \<noteq> GilWorker) px_step s \<Longrightarrow> px_run s s' \<Longrightarrow>
     reaches (\<lambda>s. \<exists>gil. s = px_initial gil \<and> gil \<noteq> GilWorker) px_step s'"
  by (blast intro: reaches_step step_run)

text \<open>Two tasks queued and the shutdown begun by a thread that holds the interpreter lock.\<close>

definition px_sample :: "nat py_state" where
  "px_sample = shutdown_mark (px_dispatch False 2 (px_dispatch False 1 (px_initial GilMain)))"

lemma px_sample_reaches:
  "reaches (\<lambda>s. \<exists>gil. s = px_initial gil \<and> gil \<noteq> GilWorker) px_step px_sample"
proof -
  let ?R = "reaches (\<lambda>s. \<exists>gil. s = px_initial gil \<and> gil \<noteq> GilWorker) px_step"
  have 0: "?R (px_initial GilMain)" by (rule reaches_start) auto
  have 1: "?R (px_dispatch False 1 (px_initial GilMain))"
    by (rule reaches_step [OF 0]) (rule step_dispatch, simp)
  have 2: "?R (px_dispatch False 2 (px_dispatch False 1 (px_initial GilMain)))"
    by (rule reaches_step [OF 1]) (rule step_dispatch, simp)
  show ?thesis
    unfolding px_sample_def
    by (rule reaches_step [OF 2]) (rule step_shutdown, simp add: px_dispatch_def px_initial_def)
qed

text \<open>
  Tasks from other threads run once each, in the order they were dispatched, and only while
  the worker holds the interpreter lock; when shutdown has returned, the worker has exited and
  every dispatched task has been run.
\<close>
theorem py_runs_in_order:
  assumes "reaches (\<lambda>s. \<exists>gil. s = px_initial gil \<and> gil \<noteq> GilWorker) px_step s"
  shows "px_accepted s = px_done s @ batch_of (px_worker s) @ px_tasks s \<and>
    ((\<exists>b. px_worker s = WRun b) \<longrightarrow> px_gil s = GilWorker) \<and>
    (px_main s = MDone \<longrightarrow> px_worker s = WExited \<and> px_done s = px_accepted s)"
  using px_machine.reaches_inv [OF assms] by (auto simp: px_inv_def batch_of_def)

theorem py_runs_in_order_witness:
  "px_accepted px_sample = [1, 2] \<and> px_gil px_sample = GilMain \<and>
   px_accepted px_sample = px_done px_sample @ batch_of (px_worker px_sample) @ px_tasks px_sample"
  using py_runs_in_order [OF px_sample_reaches]
  by (simp add: px_sample_def shutdown_mark_def px_dispatch_def px_initial_def)

lemma finish_batch:
  "px_worker s = WRun b \<Longrightarrow>
     px_run\<^sup>*\<^sup>* s (s\<lparr>px_done := px_done s @ b, px_gil := GilFree, px_worker := WWait\<rparr>)"
proof (induction b arbitrary: s)
  case Nil
  then have "px_run s (run_release s)" by (rule worker_release)
  then show ?case by (simp add: run_release_def r_into_rtranclp)
next
  case (Cons t b)
  have "px_run s (run_task t b s)" using Cons.prems by (rule worker_task)
  moreover have "px_run\<^sup>*\<^sup>* (run_task t b s) (s\<lparr>px_done := px_done s @ t # b, px_gil := GilFree, px_worker := WWait\<rparr>)"
    using Cons.IH [of "run_task t b s"] by (simp add: run_task_def)
  ultimately show ?case by (rule converse_rtranclp_into_rtranclp)
qed

text \<open>With nobody else holding the lock, the worker gets to its wait, with the lock free.\<close>

lemma worker_to_wait:
  assumes "px_gil s \<noteq> GilMain" "px_inv s" "px_worker s \<noteq> WExited"
  shows "\<exists>s'. px_run\<^sup>*\<^sup>* s s' \<and> px_worker s' = WWait \<and> px_gil s' = GilFree \<and>
    px_main s' = px_main s \<and> px_stopping s' = px_stopping s \<and> px_tasks s' = px_tasks s"
proof -
  define s1 where "s1 = (if px_gil s = GilOther then s\<lparr>px_gil := GilFree\<rparr> else s)"
  have r1: "px_run\<^sup>*\<^sup>* s s1" unfolding s1_def using other_release by auto
  have s1: "px_worker s1 = px_worker s" "px_main s1 = px_main s" "px_stopping s1 = px_stopping s"
    "px_tasks s1 = px_tasks s" "px_gil s1 = GilFree \<or> px_gil s1 = GilWorker"
    using assms(1) by (cases "px_gil s"; simp add: s1_def)+
  have inv1: "px_inv s1" by (rule px_run_steps_inv [OF r1 assms(2)])
  show ?thesis
  proof (cases "px_worker s1")
    case WStart
    with inv1 s1(5) have "px_run s1 (run_start s1)" "px_gil s1 = GilFree"
      by (auto simp: px_inv_def intro: worker_start)
    with r1 s1 show ?thesis by (intro exI [of _ "run_start s1"]) (auto simp: run_start_def)
  next
    case WWait
    with inv1 s1(5) have "px_gil s1 = GilFree" by (auto simp: px_inv_def)
    with WWait r1 s1 show ?thesis by blast
  next
    case (WBatch b)
    with inv1 s1(5) have "px_run s1 (s1\<lparr>px_gil := GilWorker, px_worker := WRun b\<rparr>)"
      by (intro worker_gil) (auto simp: px_inv_def)
    moreover have "px_run\<^sup>*\<^sup>* (s1\<lparr>px_gil := GilWorker, px_worker := WRun b\<rparr>)
        (s1\<lparr>px_done := px_done s1 @ b, px_gil := GilFree, px_worker := WWait\<rparr>)"
      using finish_batch [of "s1\<lparr>px_gil := GilWorker, px_worker := WRun b\<rparr>" b] by simp
    ultimately have "px_run\<^sup>*\<^sup>* s (s1\<lparr>px_done := px_done s1 @ b, px_gil := GilFree, px_worker := WWait\<rparr>)"
      using r1 by (meson converse_rtranclp_into_rtranclp rtranclp_trans)
    with s1 show ?thesis
      by (intro exI [of _ "s1\<lparr>px_done := px_done s1 @ b, px_gil := GilFree, px_worker := WWait\<rparr>"]) simp
  next
    case (WRun b)
    from r1 finish_batch [OF WRun]
    have "px_run\<^sup>*\<^sup>* s (s1\<lparr>px_done := px_done s1 @ b, px_gil := GilFree, px_worker := WWait\<rparr>)" by (rule rtranclp_trans)
    with s1 show ?thesis
      by (intro exI [of _ "s1\<lparr>px_done := px_done s1 @ b, px_gil := GilFree, px_worker := WWait\<rparr>"]) simp
  next
    case WExited
    with s1 assms(3) show ?thesis by simp
  qed
qed

lemma worker_exits:
  assumes "px_gil s \<noteq> GilMain" "px_inv s" "px_stopping s"
  shows "\<exists>s'. px_run\<^sup>*\<^sup>* s s' \<and> px_worker s' = WExited \<and> px_main s' = px_main s \<and> px_gil s' \<noteq> GilMain"
proof -
  have exit_idle: "\<exists>s'. px_run\<^sup>*\<^sup>* s s' \<and> px_worker s' = WExited \<and> px_main s' = px_main s \<and> px_gil s' \<noteq> GilMain"
    if "px_worker s = WWait" "px_tasks s = []" "px_stopping s" "px_gil s = GilFree" for s :: "'a py_state"
  proof -
    have "px_run s (run_take s)" using that by (intro worker_take) simp_all
    with that show ?thesis by (intro exI [of _ "run_take s"]) (auto simp: run_take_def)
  qed
  show ?thesis
  proof (cases "px_worker s = WExited")
    case True
    with assms(1) show ?thesis by blast
  next
    case False
    then obtain s1 where s1: "px_run\<^sup>*\<^sup>* s s1" "px_worker s1 = WWait" "px_gil s1 = GilFree"
      "px_main s1 = px_main s" "px_stopping s1" "px_tasks s1 = px_tasks s"
      using worker_to_wait [OF assms(1,2)] assms(3) by auto
    show ?thesis
    proof (cases "px_tasks s1 = []")
      case True
      with exit_idle [of s1] s1 show ?thesis by (metis rtranclp_trans)
    next
      case False
      let ?t = "run_take s1"
      have take: "px_run s1 ?t" using s1 by (intro worker_take) simp_all
      then have run: "px_run\<^sup>*\<^sup>* s ?t" using s1(1) by simp
      have "px_inv ?t" by (rule px_run_steps_inv [OF run assms(2)])
      moreover have "px_gil ?t \<noteq> GilMain" "px_worker ?t \<noteq> WExited" "px_tasks ?t = []"
        "px_stopping ?t" "px_main ?t = px_main s"
        using False s1 by (simp_all add: run_take_def Let_def)
      ultimately obtain s2 where s2: "px_run\<^sup>*\<^sup>* ?t s2" "px_worker s2 = WWait" "px_gil s2 = GilFree"
        "px_main s2 = px_main s" "px_stopping s2" "px_tasks s2 = []"
        using worker_to_wait [of ?t] by auto
      with exit_idle [of s2] run show ?thesis by (metis rtranclp_trans)
    qed
  qed
qed



end
