(* ===== verification/OptionalSlot.thy ===== *)
theory OptionalSlot
  imports Actions
begin

section \<open>In-place storage\<close>

text \<open>
  \<open>optional\<close> (\<open>dynabridge/optional.h\<close>) and \<open>export_native_storage\<close> (\<open>dynabridge/traits.h\<close>): raw
  storage with a flag, and the lifetime of the object in it. The object is a ghost: the code
  only has the flag, and what it does when flag and lifetime disagree (destroying no object,
  constructing over one, reading none) is recorded as a fault.
\<close>

subsection \<open>The stored type\<close>

text \<open>
  What the special members of the stored type do; each of them may throw. A move says what it
  leaves in its source.
\<close>

record 'v value_ops =
  vo_trivial_destructor :: bool
  vo_copy :: "'v \<Rightarrow> 'v outcome"
  vo_move :: "'v \<Rightarrow> 'v outcome \<times> 'v"
  vo_copy_assign :: "'v \<Rightarrow> 'v \<Rightarrow> unit outcome \<times> 'v"
  vo_move_assign :: "'v \<Rightarrow> 'v \<Rightarrow> unit outcome \<times> 'v \<times> 'v"

subsection \<open>Storage\<close>

record 'v slot =
  sl_has_value :: bool
  sl_object :: "'v option"
  sl_created :: nat
  sl_destroyed :: nat
  sl_fault :: bool

definition slot_empty :: "'v slot" where
  "slot_empty = \<lparr>sl_has_value = False, sl_object = None, sl_created = 0, sl_destroyed = 0,
     sl_fault = False\<rparr>"

definition slot_construct :: "'v outcome \<Rightarrow> ('v slot, unit) action" where
  "slot_construct ctor s =
     (case ctor of
        Return v \<Rightarrow> (Return (), s\<lparr>sl_has_value := True, sl_object := Some v,
           sl_created := sl_created s + 1, sl_fault := sl_fault s \<or> sl_object s \<noteq> None\<rparr>)
      | Throw e \<Rightarrow> (Throw e, s)
      | Abort \<Rightarrow> (Abort, s))"

text \<open>A trivially destructible object needs no destructor: its lifetime just ends.\<close>

definition slot_reset :: "bool \<Rightarrow> 'v slot \<Rightarrow> 'v slot" where
  "slot_reset trivial s =
     (if trivial
      then s\<lparr>sl_has_value := False, sl_object := None,
             sl_destroyed := sl_destroyed s + (if sl_object s = None then 0 else 1)\<rparr>
      else if sl_has_value s
      then s\<lparr>sl_has_value := False, sl_object := None, sl_destroyed := sl_destroyed s + 1,
             sl_fault := sl_fault s \<or> sl_object s = None\<rparr>
      else s)"

text \<open>Access to the stored object; the error marks a fault of the caller.\<close>

definition slot_get :: "'v slot \<Rightarrow> 'v outcome" where
  "slot_get s = (case sl_object s of None \<Rightarrow> Abort | Some v \<Rightarrow> Return v)"

subsection \<open>The operations of \<open>optional\<close>\<close>

definition opt_in_place :: "'v outcome \<Rightarrow> unit outcome \<times> 'v slot" where
  "opt_in_place ctor = slot_construct ctor slot_empty"

definition opt_copy_construct :: "'v value_ops \<Rightarrow> 'v slot \<Rightarrow> unit outcome \<times> 'v slot" where
  "opt_copy_construct vo other =
     (if sl_has_value other then slot_construct (obind (slot_get other) (vo_copy vo)) slot_empty
      else (Return (), slot_empty))"

text \<open>After a move the source stays engaged and holds the moved-from object.\<close>

definition opt_move_construct :: "'v value_ops \<Rightarrow> 'v slot \<Rightarrow> unit outcome \<times> 'v slot \<times> 'v slot" where
  "opt_move_construct vo other =
     (if sl_has_value other
      then case slot_get other of
          Return v \<Rightarrow> (case vo_move vo v of (ctor, rest) \<Rightarrow>
            (case slot_construct ctor slot_empty of (r, this) \<Rightarrow> (r, this, other\<lparr>sl_object := Some rest\<rparr>)))
        | Throw e \<Rightarrow> (Throw e, slot_empty, other)
        | Abort \<Rightarrow> (Abort, slot_empty, other)
      else (Return (), slot_empty, other))"

definition opt_copy_assign :: "'v value_ops \<Rightarrow> bool \<Rightarrow> 'v slot \<Rightarrow> 'v slot \<Rightarrow> unit outcome \<times> 'v slot" where
  "opt_copy_assign vo same other this =
     (if same then (Return (), this)
      else if sl_has_value this \<and> sl_has_value other then
        (case (slot_get this, slot_get other) of
           (Return a, Return b) \<Rightarrow> (case vo_copy_assign vo a b of (r, a') \<Rightarrow> (r, this\<lparr>sl_object := Some a'\<rparr>))
         | _ \<Rightarrow> (Abort, this))
      else if sl_has_value other then slot_construct (obind (slot_get other) (vo_copy vo)) this
      else (Return (), slot_reset (vo_trivial_destructor vo) this))"

definition opt_move_assign ::
    "'v value_ops \<Rightarrow> bool \<Rightarrow> 'v slot \<Rightarrow> 'v slot \<Rightarrow> unit outcome \<times> 'v slot \<times> 'v slot" where
  "opt_move_assign vo same other this =
     (if same then (Return (), this, other)
      else if sl_has_value this \<and> sl_has_value other then
        (case (slot_get this, slot_get other) of
           (Return a, Return b) \<Rightarrow> (case vo_move_assign vo a b of (r, a', b') \<Rightarrow>
             (r, this\<lparr>sl_object := Some a'\<rparr>, other\<lparr>sl_object := Some b'\<rparr>))
         | _ \<Rightarrow> (Abort, this, other))
      else if sl_has_value other then
        (case slot_get other of
           Return b \<Rightarrow> (case vo_move vo b of (ctor, b') \<Rightarrow>
             (case slot_construct ctor this of (r, this') \<Rightarrow> (r, this', other\<lparr>sl_object := Some b'\<rparr>)))
         | _ \<Rightarrow> (Abort, this, other))
      else (Return (), slot_reset (vo_trivial_destructor vo) this, other))"

definition opt_emplace :: "'v value_ops \<Rightarrow> 'v outcome \<Rightarrow> ('v slot, unit) action" where
  "opt_emplace vo ctor this = slot_construct ctor (slot_reset (vo_trivial_destructor vo) this)"

definition opt_destroy :: "'v value_ops \<Rightarrow> 'v slot \<Rightarrow> 'v slot" where
  "opt_destroy vo this = slot_reset (vo_trivial_destructor vo) this"

subsection \<open>The lifetime invariant\<close>

text \<open>
  The flag says whether there is an object, every object created was destroyed or is there, and
  no fault happened.
\<close>

definition slot_ok :: "'v slot \<Rightarrow> bool" where
  "slot_ok s \<longleftrightarrow> (sl_has_value s \<longleftrightarrow> sl_object s \<noteq> None) \<and>
     sl_created s = sl_destroyed s + (if sl_object s = None then 0 else 1) \<and> \<not> sl_fault s"

lemma slot_ok_empty [simp]: "slot_ok slot_empty"
  by (simp add: slot_ok_def slot_empty_def)

lemma slot_ok_reset [simp]: "slot_ok s \<Longrightarrow> slot_ok (slot_reset t s)"
  by (auto simp: slot_ok_def slot_reset_def)

lemma reset_empty [simp]: "slot_ok s \<Longrightarrow> sl_object (slot_reset t s) = None"
  by (auto simp: slot_ok_def slot_reset_def)

lemma slot_ok_construct:
  "slot_ok s \<Longrightarrow> sl_object s = None \<Longrightarrow> slot_ok (snd (slot_construct ctor s))"
  by (auto simp: slot_ok_def slot_construct_def split: outcome.split)

lemma slot_ok_constructed:
  "slot_construct ctor s = (r, s') \<Longrightarrow> slot_ok s \<Longrightarrow> sl_object s = None \<Longrightarrow> slot_ok s'"
  using slot_ok_construct [of s ctor] by simp

lemma slot_ok_update: "slot_ok s \<Longrightarrow> sl_object s \<noteq> None \<Longrightarrow> slot_ok (s\<lparr>sl_object := Some v\<rparr>)"
  by (auto simp: slot_ok_def)

lemma slot_get_ok: "slot_ok s \<Longrightarrow> sl_has_value s \<Longrightarrow> \<exists>v. slot_get s = Return v \<and> sl_object s = Some v"
  by (auto simp: slot_ok_def slot_get_def split: option.splits)

lemma ok_no_value: "slot_ok s \<Longrightarrow> \<not> sl_has_value s \<Longrightarrow> sl_object s = None"
  by (simp add: slot_ok_def)


text \<open>
  A type that counts: copies and moves succeed below a bound and throw above it.
\<close>

definition sample_value :: "nat value_ops" where
  "sample_value =
     \<lparr>vo_trivial_destructor = False,
      vo_copy = (\<lambda>v. if v < 10 then Return v else Throw (NativeError [])),
      vo_move = (\<lambda>v. (Return v, 0)),
      vo_copy_assign = (\<lambda>a b. if b < 10 then (Return (), b) else (Throw (NativeError []), a)),
      vo_move_assign = (\<lambda>a b. (Return (), b, 0))\<rparr>"

definition sample_slot :: "nat \<Rightarrow> nat slot" where
  "sample_slot v = snd (opt_in_place (Return v))"

lemma sample_slot_ok: "slot_ok (sample_slot v)"
  by (simp add: sample_slot_def opt_in_place_def slot_construct_def slot_empty_def slot_ok_def)


subsection \<open>Values\<close>

text \<open>
  \<open>optional\<close> is an option type with the exception guarantees its users rely on. Copying
  copies, moving moves and leaves the source engaged; assignment assigns in place when both
  sides are engaged; a throwing construction leaves an empty target, also for \<open>emplace\<close>, which
  destroyed the old value first; assigning an empty optional empties.
\<close>
theorem optional_values:
  assumes "slot_ok this" "slot_ok other"
  shows "fst (opt_copy_construct vo other) = (case sl_object other of None \<Rightarrow> Return () | Some b \<Rightarrow> obind (vo_copy vo b) (\<lambda>_. Return ())) \<and>
    sl_object (snd (opt_copy_construct vo other)) =
      (case sl_object other of Some b \<Rightarrow> (case vo_copy vo b of Return v \<Rightarrow> Some v | _ \<Rightarrow> None) | None \<Rightarrow> None) \<and>
    sl_object (snd (opt_emplace vo ctor this)) = (case ctor of Return v \<Rightarrow> Some v | _ \<Rightarrow> None) \<and>
    sl_object (snd (opt_copy_assign vo False other this)) =
      (case (sl_object this, sl_object other) of
         (Some a, Some b) \<Rightarrow> Some (snd (vo_copy_assign vo a b))
       | (None, Some b) \<Rightarrow> (case vo_copy vo b of Return v \<Rightarrow> Some v | _ \<Rightarrow> None)
       | (_, None) \<Rightarrow> None) \<and>
    sl_object (fst (snd (opt_move_assign vo False other this))) =
      (case (sl_object this, sl_object other) of
         (Some a, Some b) \<Rightarrow> Some (fst (snd (vo_move_assign vo a b)))
       | (None, Some b) \<Rightarrow> (case fst (vo_move vo b) of Return v \<Rightarrow> Some v | _ \<Rightarrow> None)
       | (_, None) \<Rightarrow> None) \<and>
    sl_has_value (snd (snd (opt_move_construct vo other))) = sl_has_value other \<and>
    sl_has_value (snd (snd (opt_move_assign vo False other this))) = sl_has_value other"
proof -
  have h: "sl_has_value this \<longleftrightarrow> sl_object this \<noteq> None" "sl_has_value other \<longleftrightarrow> sl_object other \<noteq> None"
    using assms by (simp_all add: slot_ok_def)
  note defs = opt_copy_construct_def opt_emplace_def opt_copy_assign_def opt_move_assign_def
    opt_move_construct_def slot_construct_def slot_get_def slot_empty_def h
  show ?thesis
    using assms
    by (cases "sl_object this"; cases "sl_object other")
      (auto simp: defs split: outcome.splits prod.splits)
qed

theorem optional_values_witness:
  "sl_object (snd (opt_copy_assign sample_value False (sample_slot 20) (sample_slot 3))) = Some 3 \<and>
   sl_object (fst (snd (opt_move_assign sample_value False (sample_slot 20) (sample_slot 3)))) = Some 20"
  using optional_values [OF sample_slot_ok [of 3] sample_slot_ok [of 20], of sample_value "Throw UnknownException"]
  by (simp add: sample_value_def sample_slot_def opt_in_place_def slot_construct_def slot_empty_def)

subsection \<open>Native storage\<close>

text \<open>
  \<open>export_native_storage\<close>: a pointer to the object in its own storage, or to somebody else's
  object \<open>'p\<close> that it borrows.
\<close>

datatype 'p native_ptr = Inline | External 'p

record ('v, 'p) native_storage =
  ns_native :: "'p native_ptr option"
  ns_owns :: bool
  ns_object :: "'v option"
  ns_created :: nat
  ns_destroyed :: nat
  ns_fault :: bool

definition ns_empty :: "('v, 'p) native_storage" where
  "ns_empty = \<lparr>ns_native = None, ns_owns = False, ns_object = None, ns_created = 0, ns_destroyed = 0,
     ns_fault = False\<rparr>"

definition ns_borrow :: "'p \<Rightarrow> ('v, 'p) native_storage" where
  "ns_borrow p = ns_empty\<lparr>ns_native := Some (External p), ns_owns := False\<rparr>"

definition ns_construct :: "'v outcome \<Rightarrow> (('v, 'p) native_storage, unit) action" where
  "ns_construct ctor s =
     (case ctor of
        Return v \<Rightarrow> (Return (), s\<lparr>ns_native := Some Inline, ns_owns := True, ns_object := Some v,
           ns_created := ns_created s + 1, ns_fault := ns_fault s \<or> ns_object s \<noteq> None\<rparr>)
      | Throw e \<Rightarrow> (Throw e, s)
      | Abort \<Rightarrow> (Abort, s))"

definition ns_make :: "'v outcome \<Rightarrow> unit outcome \<times> ('v, 'p) native_storage" where
  "ns_make ctor = ns_construct ctor ns_empty"

definition ns_reset :: "('v, 'p) native_storage \<Rightarrow> ('v, 'p) native_storage" where
  "ns_reset s =
     (let s' = (if ns_owns s \<and> ns_native s \<noteq> None
                then s\<lparr>ns_object := None, ns_destroyed := ns_destroyed s + 1,
                       ns_fault := ns_fault s \<or> ns_object s = None \<or> ns_native s \<noteq> Some Inline\<rparr>
                else s)
      in s'\<lparr>ns_native := None, ns_owns := False\<rparr>)"

definition ns_move_from ::
    "'v value_ops \<Rightarrow> ('v, 'p) native_storage \<Rightarrow> ('v, 'p) native_storage \<Rightarrow>
     unit outcome \<times> ('v, 'p) native_storage \<times> ('v, 'p) native_storage" where
  "ns_move_from vo this other =
     (if ns_owns other then
        (case ns_object other of
           None \<Rightarrow> (Abort, this, other)
         | Some v \<Rightarrow> (case vo_move vo v of (ctor, rest) \<Rightarrow>
             let other = other\<lparr>ns_object := Some rest\<rparr> in
             (case ns_construct ctor this of
                (Return _, this') \<Rightarrow> (Return (), this', ns_reset other)
              | (r, this') \<Rightarrow> (r, this', other))))
      else (Return (), this\<lparr>ns_native := ns_native other, ns_owns := False\<rparr>, other\<lparr>ns_native := None\<rparr>))"

definition ns_move_construct ::
    "'v value_ops \<Rightarrow> ('v, 'p) native_storage \<Rightarrow>
     unit outcome \<times> ('v, 'p) native_storage \<times> ('v, 'p) native_storage" where
  "ns_move_construct vo other = ns_move_from vo ns_empty other"

definition ns_move_assign ::
    "'v value_ops \<Rightarrow> bool \<Rightarrow> ('v, 'p) native_storage \<Rightarrow> ('v, 'p) native_storage \<Rightarrow>
     unit outcome \<times> ('v, 'p) native_storage \<times> ('v, 'p) native_storage" where
  "ns_move_assign vo same other this =
     (if same then (Return (), this, other) else ns_move_from vo (ns_reset this) other)"

definition ns_ok :: "('v, 'p) native_storage \<Rightarrow> bool" where
  "ns_ok s \<longleftrightarrow> (ns_owns s \<longleftrightarrow> ns_object s \<noteq> None) \<and> (ns_owns s \<longleftrightarrow> ns_native s = Some Inline) \<and>
     ns_created s = ns_destroyed s + (if ns_object s = None then 0 else 1) \<and> \<not> ns_fault s"

lemma ns_ok_empty [simp]: "ns_ok ns_empty"
  by (simp add: ns_ok_def ns_empty_def)

lemma ns_ok_reset [simp]: "ns_ok s \<Longrightarrow> ns_ok (ns_reset s) \<and> ns_object (ns_reset s) = None \<and>
    ns_native (ns_reset s) = None \<and> \<not> ns_owns (ns_reset s)"
  by (auto simp: ns_ok_def ns_reset_def Let_def)

lemma ns_ok_move_from:
  assumes "ns_ok this" "ns_object this = None" "ns_ok other" "ns_move_from vo this other = (r, this', other')"
  shows "ns_ok this' \<and> ns_ok other'"
  using assms
  by (auto simp: ns_move_from_def ns_ok_def ns_construct_def ns_reset_def Let_def
      split: if_splits option.splits outcome.splits prod.splits)

text \<open>
  Native storage owns exactly what it made. Construction, moves and assignments, throwing
  ones included, keep every object it created destroyed once or in place, on both operands; an
  object it only borrows is handed on by a move and never destroyed.
\<close>
theorem native_storage_lifetimes:
  assumes "ns_ok this" "ns_ok other"
  shows "ns_ok (ns_borrow p :: ('v, 'p) native_storage) \<and> ns_ok (snd (ns_make ctor) :: ('v, 'p) native_storage) \<and>
    (\<forall>r this' other'. ns_move_construct vo other = (r, this', other') \<or>
       ns_move_assign vo False other this = (r, this', other') \<longrightarrow>
       ns_ok (this' :: ('v, 'p) native_storage) \<and> ns_ok other' \<and>
       (\<not> ns_owns other \<longrightarrow> r = Return () \<and> ns_native this' = ns_native other \<and> ns_native other' = None \<and>
          ns_destroyed other' = ns_destroyed other)) \<and>
    ns_created (ns_reset this) = ns_destroyed (ns_reset this)"
proof (intro conjI allI impI)
  show "ns_ok (ns_borrow p :: ('v, 'p) native_storage)" by (simp add: ns_ok_def ns_borrow_def ns_empty_def)
  show "ns_ok (snd (ns_make ctor) :: ('v, 'p) native_storage)"
    by (auto simp: ns_make_def ns_construct_def ns_ok_def ns_empty_def split: outcome.split)
  fix r this' other'
  assume m: "ns_move_construct vo other = (r, this', other') \<or> ns_move_assign vo False other this = (r, this', other')"
  have e: "ns_object (ns_empty :: ('v, 'p) native_storage) = None" by (simp add: ns_empty_def)
  from m have "ns_ok this' \<and> ns_ok other'"
    using ns_ok_move_from [OF ns_ok_empty e assms(2), of vo r this' other']
      ns_ok_move_from [of "ns_reset this", OF _ _ assms(2), of vo r this' other'] assms(1)
    by (auto simp: ns_move_construct_def ns_move_assign_def)
  then show "ns_ok this'" "ns_ok other'" by simp_all
  assume "\<not> ns_owns other"
  with m show "r = Return ()" "ns_native this' = ns_native other" "ns_native other' = None"
    "ns_destroyed other' = ns_destroyed other"
    by (auto simp: ns_move_construct_def ns_move_assign_def ns_move_from_def)
next
  show "ns_created (ns_reset this) = ns_destroyed (ns_reset this)"
    using ns_ok_reset [OF assms(1)] by (simp add: ns_ok_def)
qed

theorem native_storage_lifetimes_witness:
  "ns_ok (snd (ns_make (Return 4)) :: (nat, string) native_storage) \<and>
   ns_move_construct sample_value (ns_borrow ''gpu'') =
     (Return (), ns_borrow ''gpu'', ns_empty :: (nat, string) native_storage) \<and>
   ns_created (ns_reset (ns_borrow ''gpu'' :: (nat, string) native_storage)) = 0"
proof -
  have b: "ns_ok (ns_borrow ''gpu'' :: (nat, string) native_storage)"
    by (simp add: ns_ok_def ns_borrow_def ns_empty_def)
  from native_storage_lifetimes [OF b b, of "[]" "Return 4" sample_value] show ?thesis
    by (simp add: ns_move_construct_def ns_move_from_def ns_borrow_def ns_empty_def ns_reset_def)
qed

end
