(* ===== verification/OptionalMembers.thy ===== *)
theory OptionalMembers
  imports Prelude
begin

section \<open>The special members of optional\<close>

text \<open>
  Which of its four copying and moving members \<open>optional<T>\<close> has, and what they do with
  the element (\<open>dynabridge/optional.h\<close>). The class is a chain of bases, each of which
  replaces one member or leaves it to the compiler; the chain is computed here from what is known of
  the element type.
\<close>

subsection \<open>Members and element types\<close>

text \<open>
  A member may be undeclared, deleted, or do its work: copy the bytes, or go through the element's
  copying or moving operations.
\<close>

datatype special = NotDeclared | DeletedMember | Bitwise | ByCopy | ByMove

record specials =
  sp_copy_construct :: special
  sp_move_construct :: special
  sp_copy_assign :: special
  sp_move_assign :: special

text \<open>
  The traits of the element type: for each operation whether it is there and, if so, whether it is
  trivial; and whether destruction is trivial.
\<close>

record element_traits =
  el_copy_construct :: "bool option"
  el_move_construct :: "bool option"
  el_copy_assign :: "bool option"
  el_move_assign :: "bool option"
  el_trivially_destructible :: bool

subsection \<open>What the compiler makes of \<open>= default\<close>\<close>

text \<open>
  Overload resolution for an rvalue: the moving member when it is declared, otherwise the copying
  one.
\<close>

definition for_rvalue :: "special \<Rightarrow> special \<Rightarrow> special" where
  "for_rvalue move copy = (if move = NotDeclared then copy else move)"

text \<open>
  A defaulted member does what the base does. A defaulted moving member that would be deleted takes
  no part in overload resolution, as if it were not declared.
\<close>

definition defaulted_move :: "special \<Rightarrow> special \<Rightarrow> special" where
  "defaulted_move move copy =
     (if for_rvalue move copy = DeletedMember then NotDeclared else for_rvalue move copy)"

definition defaulted_layer :: "specials \<Rightarrow> specials" where
  "defaulted_layer base =
     \<lparr>sp_copy_construct = sp_copy_construct base,
      sp_move_construct = defaulted_move (sp_move_construct base) (sp_copy_construct base),
      sp_copy_assign = sp_copy_assign base,
      sp_move_assign = defaulted_move (sp_move_assign base) (sp_copy_assign base)\<rparr>"

subsection \<open>The layers\<close>

text \<open>
  \<open>optional_payload\<close> is a union and \<open>optional_storage_base\<close> holds it; both
  declare their destructor, so neither has moving members, and a copying member of the union is
  deleted unless the element's is trivial.
\<close>

definition optional_storage_base :: "element_traits \<Rightarrow> specials" where
  "optional_storage_base t =
     \<lparr>sp_copy_construct = (if el_copy_construct t = Some True then Bitwise else DeletedMember),
      sp_move_construct = NotDeclared,
      sp_copy_assign = (if el_copy_assign t = Some True then Bitwise else DeletedMember),
      sp_move_assign = NotDeclared\<rparr>"

definition optional_copy_construct_base :: "element_traits \<Rightarrow> specials" where
  "optional_copy_construct_base t =
     (let base = defaulted_layer (optional_storage_base t) in
      if el_copy_construct t = None then base\<lparr>sp_copy_construct := DeletedMember\<rparr>
      else if el_copy_construct t = Some True \<and> el_trivially_destructible t then base
      else base\<lparr>sp_copy_construct := ByCopy\<rparr>)"

definition optional_move_construct_base :: "element_traits \<Rightarrow> specials" where
  "optional_move_construct_base t =
     (let base = defaulted_layer (optional_copy_construct_base t) in
      if el_move_construct t = None then base\<lparr>sp_move_construct := DeletedMember\<rparr>
      else if el_move_construct t = Some True \<and> el_copy_construct t = Some True \<and> el_trivially_destructible t then base
      else base\<lparr>sp_move_construct := ByMove\<rparr>)"

definition optional_copy_assign_base :: "element_traits \<Rightarrow> specials" where
  "optional_copy_assign_base t =
     (let base = defaulted_layer (optional_move_construct_base t) in
      if el_copy_construct t = None \<or> el_copy_assign t = None then base\<lparr>sp_copy_assign := DeletedMember\<rparr>
      else if el_copy_construct t = Some True \<and> el_copy_assign t = Some True \<and> el_trivially_destructible t then base
      else base\<lparr>sp_copy_assign := ByCopy\<rparr>)"

definition optional_move_assign_base :: "element_traits \<Rightarrow> specials" where
  "optional_move_assign_base t =
     (let base = defaulted_layer (optional_copy_assign_base t) in
      if el_move_construct t = None \<or> el_move_assign t = None then base\<lparr>sp_move_assign := DeletedMember\<rparr>
      else if el_move_construct t = Some True \<and> el_move_assign t = Some True \<and> el_trivially_destructible t then base
      else base\<lparr>sp_move_assign := ByMove\<rparr>)"

definition optional_members :: "element_traits \<Rightarrow> specials" where
  "optional_members t = defaulted_layer (optional_move_assign_base t)"

lemmas defaulted = defaulted_layer_def defaulted_move_def for_rvalue_def Let_def

text \<open>The members of each layer, from those of the layer below.\<close>

lemma copy_construct_layer:
  "sp_copy_construct (optional_copy_construct_base t) =
     (if el_copy_construct t = None then DeletedMember
      else if el_copy_construct t = Some True \<and> el_trivially_destructible t then Bitwise else ByCopy)"
  "sp_move_construct (optional_copy_construct_base t) = (if el_copy_construct t = Some True then Bitwise else NotDeclared)"
  "sp_copy_assign (optional_copy_construct_base t) = (if el_copy_assign t = Some True then Bitwise else DeletedMember)"
  "sp_move_assign (optional_copy_construct_base t) = (if el_copy_assign t = Some True then Bitwise else NotDeclared)"
  by (simp_all add: optional_copy_construct_base_def optional_storage_base_def defaulted)

lemma move_construct_layer:
  "sp_copy_construct (optional_move_construct_base t) = sp_copy_construct (optional_copy_construct_base t)"
  "sp_move_construct (optional_move_construct_base t) =
     (if el_move_construct t = None then DeletedMember
      else if el_move_construct t = Some True \<and> el_copy_construct t = Some True \<and> el_trivially_destructible t then Bitwise
      else ByMove)"
  "sp_copy_assign (optional_move_construct_base t) = (if el_copy_assign t = Some True then Bitwise else DeletedMember)"
  "sp_move_assign (optional_move_construct_base t) = (if el_copy_assign t = Some True then Bitwise else NotDeclared)"
  by (simp_all add: optional_move_construct_base_def copy_construct_layer defaulted)

lemma copy_assign_layer:
  "sp_copy_construct (optional_copy_assign_base t) = sp_copy_construct (optional_copy_construct_base t)"
  "sp_move_construct (optional_copy_assign_base t) =
     (if el_move_construct t = None then NotDeclared
      else if el_move_construct t = Some True \<and> el_copy_construct t = Some True \<and> el_trivially_destructible t then Bitwise
      else ByMove)"
  "sp_copy_assign (optional_copy_assign_base t) =
     (if el_copy_construct t = None \<or> el_copy_assign t = None then DeletedMember
      else if el_copy_construct t = Some True \<and> el_copy_assign t = Some True \<and> el_trivially_destructible t then Bitwise
      else ByCopy)"
  "sp_move_assign (optional_copy_assign_base t) = (if el_copy_assign t = Some True then Bitwise else NotDeclared)"
  by (simp_all add: optional_copy_assign_base_def move_construct_layer defaulted)

lemma move_assign_layer:
  "sp_copy_construct (optional_move_assign_base t) = sp_copy_construct (optional_copy_construct_base t)"
  "sp_move_construct (optional_move_assign_base t) =
     defaulted_move (sp_move_construct (optional_copy_assign_base t)) (sp_copy_construct (optional_copy_construct_base t))"
  "sp_copy_assign (optional_move_assign_base t) = sp_copy_assign (optional_copy_assign_base t)"
  "sp_move_assign (optional_move_assign_base t) =
     (if el_move_construct t = None \<or> el_move_assign t = None then DeletedMember
      else if el_move_construct t = Some True \<and> el_move_assign t = Some True \<and> el_trivially_destructible t
      then defaulted_move (sp_move_assign (optional_copy_assign_base t)) (sp_copy_assign (optional_copy_assign_base t))
      else ByMove)"
  by (simp_all add: optional_move_assign_base_def defaulted_layer_def Let_def copy_assign_layer(1))

text \<open>What construction and assignment from an rvalue come to.\<close>

definition rvalue_construct :: "specials \<Rightarrow> special" where
  "rvalue_construct m = for_rvalue (sp_move_construct m) (sp_copy_construct m)"

definition rvalue_assign :: "specials \<Rightarrow> special" where
  "rvalue_assign m = for_rvalue (sp_move_assign m) (sp_copy_assign m)"

definition all_trivial :: "bool option list \<Rightarrow> bool" where
  "all_trivial ms \<longleftrightarrow> list_all (\<lambda>m. m = Some True) ms"

lemma copy_members:
  "sp_copy_construct (optional_members t) =
     (if el_copy_construct t = None then DeletedMember
      else if all_trivial [el_copy_construct t] \<and> el_trivially_destructible t then Bitwise else ByCopy)"
  "sp_copy_assign (optional_members t) =
     (if el_copy_construct t = None \<or> el_copy_assign t = None then DeletedMember
      else if all_trivial [el_copy_construct t, el_copy_assign t] \<and> el_trivially_destructible t then Bitwise else ByCopy)"
  by (simp_all add: optional_members_def defaulted_layer_def move_assign_layer copy_construct_layer(1) copy_assign_layer(3)
      all_trivial_def)

lemma rvalue_members:
  "rvalue_construct (optional_members t) =
     for_rvalue (defaulted_move (sp_move_construct (optional_move_assign_base t)) (sp_copy_construct (optional_members t)))
       (sp_copy_construct (optional_members t))"
  "rvalue_assign (optional_members t) =
     for_rvalue (defaulted_move (sp_move_assign (optional_move_assign_base t)) (sp_copy_assign (optional_members t)))
       (sp_copy_assign (optional_members t))"
  by (simp_all add: rvalue_construct_def rvalue_assign_def optional_members_def defaulted_layer_def)

lemma for_rvalue_simps [simp]:
  "for_rvalue NotDeclared c = c"
  "m \<noteq> NotDeclared \<Longrightarrow> for_rvalue m c = m"
  "for_rvalue (defaulted_move m c) c = (if m = DeletedMember then c else for_rvalue m c)"
  by (auto simp: for_rvalue_def defaulted_move_def)

lemma defaulted_twice [simp]: "for_rvalue (defaulted_move (defaulted_move m c) c) c = for_rvalue (defaulted_move m c) c"
  by (auto simp: for_rvalue_def defaulted_move_def)

lemma move_construct_member:
  "rvalue_construct (optional_members t) =
     (if el_move_construct t = None then sp_copy_construct (optional_members t)
      else if all_trivial [el_move_construct t, el_copy_construct t] \<and> el_trivially_destructible t then Bitwise else ByMove)"
proof -
  have c: "sp_copy_construct (optional_copy_construct_base t) = sp_copy_construct (optional_members t)"
    by (simp add: optional_members_def defaulted_layer_def move_assign_layer)
  show ?thesis
    unfolding rvalue_members move_assign_layer(2) c defaulted_twice copy_assign_layer(2) by (simp add: all_trivial_def)
qed

lemma move_assign_member:
  "rvalue_assign (optional_members t) =
     (if el_move_construct t = None \<or> el_move_assign t = None then sp_copy_assign (optional_members t)
      else if all_trivial [el_move_construct t, el_move_assign t] \<and> el_trivially_destructible t
      then (if el_copy_assign t = Some True then Bitwise
        else if el_copy_construct t = None \<or> el_copy_assign t = None then DeletedMember else ByCopy)
      else ByMove)"
proof -
  have c: "sp_copy_assign (optional_copy_assign_base t) = sp_copy_assign (optional_members t)"
    by (simp add: optional_members_def defaulted_layer_def move_assign_layer)
  show ?thesis
    unfolding rvalue_members move_assign_layer(4) c copy_assign_layer(4)
    by (auto simp: all_trivial_def copy_members(2) for_rvalue_def defaulted_move_def)
qed

text \<open>
  The copying and moving of an optional follow its element. An optional can be copied exactly
  when its element can, copy-assigned when the element can be copied and copy-assigned; from an
  rvalue it is constructed by moving the element, or as a copy when the element cannot be moved;
  each is a copy of bytes exactly when it is trivial for the element, which no destructor or user
  code observes.
\<close>

theorem optional_special_members:
  "(sp_copy_construct (optional_members t) = DeletedMember \<longleftrightarrow> el_copy_construct t = None) \<and>
   (sp_copy_assign (optional_members t) = DeletedMember \<longleftrightarrow> el_copy_construct t = None \<or> el_copy_assign t = None) \<and>
   (rvalue_construct (optional_members t) = DeletedMember \<longleftrightarrow> el_move_construct t = None \<and> el_copy_construct t = None) \<and>
   (rvalue_construct (optional_members t) = ByMove \<longleftrightarrow>
      el_move_construct t \<noteq> None \<and> \<not> (all_trivial [el_move_construct t, el_copy_construct t] \<and> el_trivially_destructible t)) \<and>
   (sp_copy_construct (optional_members t) = Bitwise \<longleftrightarrow> all_trivial [el_copy_construct t] \<and> el_trivially_destructible t) \<and>
   (sp_copy_assign (optional_members t) = Bitwise \<longleftrightarrow>
      all_trivial [el_copy_construct t, el_copy_assign t] \<and> el_trivially_destructible t)"
  unfolding copy_members move_construct_member by (auto simp: all_trivial_def)

text \<open>
  An optional of a movable type need not be move-assignable. When the element moves trivially
  but has no copy assignment, or no copy construction, assigning an rvalue optional does not
  compile, although moving the element would; when the element moves trivially but copies otherwise,
  assigning an rvalue optional copies the element. In all other cases the element is moved.
\<close>

theorem optional_move_assignment_lost:
  "rvalue_assign (optional_members
       \<lparr>el_copy_construct = None, el_move_construct = Some True, el_copy_assign = None, el_move_assign = Some True,
        el_trivially_destructible = True\<rparr>) = DeletedMember \<and>
   rvalue_assign (optional_members
       \<lparr>el_copy_construct = Some False, el_move_construct = Some True, el_copy_assign = Some False, el_move_assign = Some True,
        el_trivially_destructible = True\<rparr>) = ByCopy \<and>
   (el_move_construct t = None \<or> el_move_assign t = None \<or>
    rvalue_assign (optional_members t) = (if all_trivial [el_move_construct t, el_move_assign t] \<and> el_trivially_destructible t
      then (if el_copy_assign t = Some True then Bitwise
        else if el_copy_construct t = None \<or> el_copy_assign t = None then DeletedMember else ByCopy)
      else ByMove))"
  unfolding move_assign_member by (auto simp: all_trivial_def)

end
