(* ===== verification/PyRuntime.thy ===== *)
theory PyRuntime
  imports Actions Ownership
begin

section \<open>Python objects and references\<close>

text \<open>
  The interpreter as the Python backend sees it (\<open>dynabridge/backends/python.h\<close>): objects are
  addresses with a reference count, and there may be a pending error. \<open>py_held\<close> is a ghost: the
  references that native code on the stack owns at
  the moment. Releasing a reference that is not owned, or using a
  null pointer where an object is needed, is a fault. \<open>py_world\<close> is everything else the
  interpreter knows.
\<close>

record 'w py =
  py_count :: "nat \<Rightarrow> nat"
  py_error :: "py_exc option"
  py_held :: "nat multiset"
  py_fault :: bool
  py_world :: 'w

text \<open>
  The C API functions the backend calls, as the interpreter implements them. None of them is
  code of the program; what they promise is \<open>lawful_api\<close> below.
\<close>

record 'w py_api =
  api_none :: nat
  api_dealloc :: "nat \<Rightarrow> 'w py \<Rightarrow> 'w py"
  api_set_string :: "string \<Rightarrow> bytes \<Rightarrow> 'w py \<Rightarrow> 'w py"
  api_vectorcall :: "nat \<Rightarrow> nat option list \<Rightarrow> 'w py \<Rightarrow> nat option \<times> 'w py"
  api_tuple_new :: "nat \<Rightarrow> 'w py \<Rightarrow> nat option \<times> 'w py"
  api_tuple_set :: "nat \<Rightarrow> nat \<Rightarrow> nat option \<Rightarrow> 'w py \<Rightarrow> 'w py"
  api_call_object :: "nat \<Rightarrow> nat \<Rightarrow> 'w py \<Rightarrow> nat option \<times> 'w py"
  api_getattr :: "nat option \<Rightarrow> string \<Rightarrow> 'w py \<Rightarrow> nat option \<times> 'w py"
  api_import_module :: "string \<Rightarrow> 'w py \<Rightarrow> nat option \<times> 'w py"
  api_module_add :: "nat option \<Rightarrow> string \<Rightarrow> nat option \<Rightarrow> 'w py \<Rightarrow> bool \<times> 'w py"
  api_set_attr :: "nat option \<Rightarrow> string \<Rightarrow> nat option \<Rightarrow> 'w py \<Rightarrow> bool \<times> 'w py"
  api_type_from_spec :: "string \<Rightarrow> nat \<Rightarrow> 'w py \<Rightarrow> nat option \<times> 'w py"
  api_type_alloc :: "nat \<Rightarrow> 'w py \<Rightarrow> nat option \<times> 'w py"
  api_type_check :: "nat \<Rightarrow> nat option \<Rightarrow> 'w py \<Rightarrow> bool"
  api_callable_check :: "nat \<Rightarrow> 'w py \<Rightarrow> bool"

subsection \<open>Reference counting\<close>

definition exc_refs :: "py_exc \<Rightarrow> nat multiset" where
  "exc_refs exc = (case exc of (t, v, tb) \<Rightarrow> opt_mset t + opt_mset v + opt_mset tb)"

definition error_refs :: "'w py \<Rightarrow> nat multiset" where
  "error_refs s = (case py_error s of None \<Rightarrow> {#} | Some exc \<Rightarrow> exc_refs exc)"

definition py_own :: "nat option \<Rightarrow> 'w py \<Rightarrow> 'w py" where
  "py_own r s = s\<lparr>py_held := py_held s + opt_mset r\<rparr>"

definition py_give :: "nat option \<Rightarrow> 'w py \<Rightarrow> 'w py" where
  "py_give r s =
     (case r of
        None \<Rightarrow> s
      | Some x \<Rightarrow> s\<lparr>py_held := py_held s - {#x#}, py_fault := py_fault s \<or> x \<notin># py_held s\<rparr>)"

text \<open>\<open>Py_INCREF\<close>, \<open>Py_XINCREF\<close>, \<open>Py_DECREF\<close> and \<open>Py_XDECREF\<close>.\<close>

definition py_bump :: "nat \<Rightarrow> 'w py \<Rightarrow> 'w py" where
  "py_bump x s = s\<lparr>py_count := (py_count s)(x := py_count s x + 1), py_held := py_held s + {#x#}\<rparr>"

definition py_incref :: "nat option \<Rightarrow> 'w py \<Rightarrow> 'w py" where
  "py_incref r s = (case r of None \<Rightarrow> s\<lparr>py_fault := True\<rparr> | Some x \<Rightarrow> py_bump x s)"

definition py_xincref :: "nat option \<Rightarrow> 'w py \<Rightarrow> 'w py" where
  "py_xincref r s = (case r of None \<Rightarrow> s | Some x \<Rightarrow> py_bump x s)"

text \<open>The last reference takes the object with it: its finalizer runs.\<close>

definition py_unref :: "'w py_api \<Rightarrow> nat \<Rightarrow> 'w py \<Rightarrow> 'w py" where
  "py_unref api x s =
     (let s' = s\<lparr>py_count := (py_count s)(x := py_count s x - 1)\<rparr> in
      if py_count s x \<le> 1 then api_dealloc api x s' else s')"

definition py_drop :: "'w py_api \<Rightarrow> nat \<Rightarrow> 'w py \<Rightarrow> 'w py" where
  "py_drop api x s =
     (if x \<in># py_held s then py_unref api x (s\<lparr>py_held := py_held s - {#x#}\<rparr>)
      else s\<lparr>py_fault := True\<rparr>)"

definition py_decref :: "'w py_api \<Rightarrow> nat option \<Rightarrow> 'w py \<Rightarrow> 'w py" where
  "py_decref api r s = (case r of None \<Rightarrow> s\<lparr>py_fault := True\<rparr> | Some x \<Rightarrow> py_drop api x s)"

definition py_xdecref :: "'w py_api \<Rightarrow> nat option \<Rightarrow> 'w py \<Rightarrow> 'w py" where
  "py_xdecref api r s = (case r of None \<Rightarrow> s | Some x \<Rightarrow> py_drop api x s)"

text \<open>
  \<open>PyErr_Fetch\<close> hands the pending error to the caller, \<open>PyErr_Restore\<close> takes three references
  back and drops the error it replaces.
\<close>

definition py_err_fetch :: "'w py \<Rightarrow> py_exc \<times> 'w py" where
  "py_err_fetch s =
     (case py_error s of
        None \<Rightarrow> ((None, None, None), s)
      | Some exc \<Rightarrow> (exc, s\<lparr>py_error := None, py_held := py_held s + exc_refs exc\<rparr>))"

definition py_xdecref_exc :: "'w py_api \<Rightarrow> py_exc \<Rightarrow> 'w py \<Rightarrow> 'w py" where
  "py_xdecref_exc api exc s =
     (case exc of (t, v, tb) \<Rightarrow> py_xdecref api tb (py_xdecref api v (py_xdecref api t s)))"

definition py_err_restore :: "'w py_api \<Rightarrow> py_exc \<Rightarrow> 'w py \<Rightarrow> 'w py" where
  "py_err_restore api exc s =
     (case py_err_fetch s of
        (old, s1) \<Rightarrow> py_xdecref_exc api old
          (s1\<lparr>py_error := (if fst exc = None then None else Some exc),
              py_held := py_held s1 - exc_refs exc,
              py_fault := py_fault s1 \<or> \<not> exc_refs exc \<subseteq># py_held s1\<rparr>))"

subsection \<open>\<open>object_ref\<close>\<close>

text \<open>A nullable pointer; \<open>True\<close> as policy adopts an owned reference, \<open>False\<close> takes a new one.\<close>

definition object_ref_make :: "nat option \<Rightarrow> bool \<Rightarrow> 'w py \<Rightarrow> nat option \<times> 'w py" where
  "object_ref_make obj owned s = (obj, if obj \<noteq> None \<and> \<not> owned then py_incref obj s else s)"

definition object_ref_release :: "nat option \<Rightarrow> nat option \<times> nat option" where
  "object_ref_release this = (this, None)"

definition object_ref_move :: "nat option \<Rightarrow> nat option \<times> nat option" where
  "object_ref_move other = object_ref_release other"

definition object_ref_reset :: "'w py_api \<Rightarrow> nat option \<Rightarrow> bool \<Rightarrow> nat option \<Rightarrow> 'w py \<Rightarrow> nat option \<times> 'w py" where
  "object_ref_reset api obj owned this s =
     (obj, (let s' = py_xdecref api this s in if obj \<noteq> None \<and> \<not> owned then py_incref obj s' else s'))"

text \<open>Move assignment: what it releases, and its effect.\<close>

definition object_ref_assign_refs ::
    "bool \<Rightarrow> nat option \<Rightarrow> nat option \<Rightarrow> nat option \<times> nat option \<times> nat multiset" where
  "object_ref_assign_refs same this other =
     (if same then (this, other, {#})
      else case object_ref_release other of (obj, other') \<Rightarrow> (obj, other', opt_mset this))"

definition object_ref_assign ::
    "'w py_api \<Rightarrow> bool \<Rightarrow> nat option \<Rightarrow> nat option \<Rightarrow> 'w py \<Rightarrow> (nat option \<times> nat option) \<times> 'w py" where
  "object_ref_assign api same this other s =
     (case object_ref_assign_refs same this other of (this', other', rel) \<Rightarrow>
        ((this', other'), if same then s else snd (object_ref_reset api this' True this s)))"

definition object_ref_destroy :: "'w py_api \<Rightarrow> nat option \<Rightarrow> 'w py \<Rightarrow> 'w py" where
  "object_ref_destroy api this = py_xdecref api this"

subsection \<open>\<open>python_error\<close>\<close>

text \<open>
  The constructor makes sure there is an error, then takes it out of the interpreter; a copy
  takes references of its own; \<open>restore\<close> keeps its references and hands over new ones.
\<close>

definition python_error_make :: "'w py_api \<Rightarrow> string \<Rightarrow> 'w py \<Rightarrow> cpp_exn \<times> 'w py" where
  "python_error_make api msg s =
     (case py_err_fetch (if py_error s = None then api_set_string api ''RuntimeError'' (ascii msg) s else s) of
        (exc, s') \<Rightarrow> (PythonError msg exc, s'))"

definition python_error_copy :: "py_exc \<Rightarrow> 'w py \<Rightarrow> py_exc \<times> 'w py" where
  "python_error_copy exc s =
     (case exc of (t, v, tb) \<Rightarrow> (exc, py_xincref tb (py_xincref v (py_xincref t s))))"

definition python_error_move :: "py_exc \<Rightarrow> py_exc \<times> py_exc" where
  "python_error_move other = (other, (None, None, None))"

definition python_error_destroy :: "'w py_api \<Rightarrow> py_exc \<Rightarrow> 'w py \<Rightarrow> 'w py" where
  "python_error_destroy api exc = py_xdecref_exc api exc"

definition python_error_restore :: "'w py_api \<Rightarrow> py_exc \<Rightarrow> 'w py \<Rightarrow> 'w py" where
  "python_error_restore api exc s = py_err_restore api exc (snd (python_error_copy exc s))"

definition py_throw :: "'w py_api \<Rightarrow> string \<Rightarrow> ('w py, 'a) action" where
  "py_throw api msg s = (case python_error_make api msg s of (e, s') \<Rightarrow> (Throw e, s'))"

subsection \<open>Sound states and what the interpreter promises\<close>

text \<open>
  Every object has at least the references that native code and the pending error hold, a
  pending error has a type, and no fault happened.
\<close>

definition py_ok :: "'w py \<Rightarrow> bool" where
  "py_ok s \<longleftrightarrow> \<not> py_fault s \<and> (\<forall>x. count (py_held s + error_refs s) x \<le> py_count s x) \<and>
     (case py_error s of None \<Rightarrow> True | Some exc \<Rightarrow> fst exc \<noteq> None)"

text \<open>What the interpreter promises: a quiet function leaves native references alone ...\<close>

definition quiet :: "('w py \<Rightarrow> 'w py) \<Rightarrow> bool" where
  "quiet f \<longleftrightarrow> (\<forall>s. py_ok s \<longrightarrow> py_ok (f s) \<and> py_held (f s) = py_held s)"

text \<open>... and one that returns an object returns a new reference, or null and a pending error.\<close>

definition new_ref :: "('w py \<Rightarrow> nat option \<times> 'w py) \<Rightarrow> bool" where
  "new_ref f \<longleftrightarrow> (\<forall>s. py_ok s \<longrightarrow>
     py_ok (py_own (fst (f s)) (snd (f s))) \<and> py_held (snd (f s)) = py_held s \<and>
     (py_error s = None \<longrightarrow> (fst (f s) = None \<longleftrightarrow> py_error (snd (f s)) \<noteq> None)))"

text \<open>A function that takes a reference over when it succeeds and reports an error when not.\<close>

definition status_call :: "('w py \<Rightarrow> bool \<times> 'w py) \<Rightarrow> bool" where
  "status_call f \<longleftrightarrow> quiet (\<lambda>s. snd (f s)) \<and>
     (\<forall>s. py_ok s \<longrightarrow> py_error s = None \<longrightarrow> (fst (f s) \<longleftrightarrow> py_error (snd (f s)) = None))"

definition lawful_api :: "'w py_api \<Rightarrow> bool" where
  "lawful_api api \<longleftrightarrow>
     (\<forall>x. quiet (api_dealloc api x)) \<and>
     (\<forall>c m. quiet (api_set_string api c m)) \<and>
     (\<forall>c m s. py_error (api_set_string api c m s) \<noteq> None) \<and>
     (\<forall>c args. None \<notin> set args \<longrightarrow> new_ref (api_vectorcall api c args)) \<and>
     (\<forall>n. new_ref (api_tuple_new api n)) \<and>
     (\<forall>t i v. quiet (api_tuple_set api t i v)) \<and>
     (\<forall>c t. new_ref (api_call_object api c t)) \<and>
     (\<forall>x n. new_ref (api_getattr api x n)) \<and>
     (\<forall>m. new_ref (api_import_module api m)) \<and>
     (\<forall>m n v. status_call (api_module_add api m n v)) \<and>
     (\<forall>x n v. status_call (api_set_attr api x n v)) \<and>
     (\<forall>n k. new_ref (api_type_from_spec api n k)) \<and>
     (\<forall>t. new_ref (api_type_alloc api t))"

lemma lawful_apiD:
  assumes "lawful_api api"
  shows "quiet (api_dealloc api x)" "quiet (api_set_string api c m)"
    "py_error (api_set_string api c m s) \<noteq> None"
    "None \<notin> set args \<Longrightarrow> new_ref (api_vectorcall api y args)" "new_ref (api_tuple_new api n)"
    "quiet (api_tuple_set api t i v)" "new_ref (api_call_object api y t)"
    "new_ref (api_getattr api r nm)" "new_ref (api_import_module api nm)"
    "status_call (api_module_add api r nm r')" "status_call (api_set_attr api r nm r')"
    "new_ref (api_type_from_spec api nm n)" "new_ref (api_type_alloc api t)"
  using assms by (simp_all add: lawful_api_def)

lemma quietD: "quiet f \<Longrightarrow> py_ok s \<Longrightarrow> py_ok (f s) \<and> py_held (f s) = py_held s"
  by (simp add: quiet_def)

lemma py_ok_own_lower: "py_ok (py_own r s) \<Longrightarrow> py_ok s"
  by (auto simp: py_ok_def py_own_def error_refs_def intro: le_trans [rotated])

lemma mset_take_part:
  assumes "A + B \<subseteq># C"
  shows "A \<subseteq># C" "B \<subseteq># C - A"
proof -
  have le: "count A x + count B x \<le> count C x" for x using mset_subset_eq_count [OF assms, of x] by simp
  show "A \<subseteq># C" unfolding subseteq_mset_def using le by (meson add_leD1)
  show "B \<subseteq># C - A" unfolding subseteq_mset_def
  proof
    show "count B x \<le> count (C - A) x" for x using le [of x] by simp
  qed
qed

lemma quiet_unref:
  assumes "lawful_api api" "py_ok s" "x \<in># py_held s"
  shows "py_ok (py_drop api x s) \<and> py_held (py_drop api x s) = py_held s - {#x#}"
proof -
  define t where "t = s\<lparr>py_held := py_held s - {#x#}, py_count := (py_count s)(x := py_count s x - 1)\<rparr>"
  have "count (py_held s - {#x#} + error_refs s) y \<le> ((py_count s)(x := py_count s x - 1)) y" for y
  proof -
    have "count (py_held s + error_refs s) y \<le> py_count s y" using assms(2) by (simp add: py_ok_def)
    moreover have "0 < count (py_held s) x" using assms(3) by simp
    ultimately show ?thesis by auto
  qed
  then have t: "py_ok t" "py_held t = py_held s - {#x#}"
    using assms(2) by (simp_all add: py_ok_def error_refs_def t_def)
  then have "py_ok (api_dealloc api x t) \<and> py_held (api_dealloc api x t) = py_held t"
    using lawful_apiD(1) [OF assms(1)] by (blast dest: quietD)
  moreover have "py_drop api x s = (if py_count s x \<le> 1 then api_dealloc api x t else t)"
    using assms(3) by (simp add: py_drop_def py_unref_def Let_def t_def del: One_nat_def)
  ultimately show ?thesis using t by simp
qed

lemma xdecref_ok:
  "lawful_api api \<Longrightarrow> py_ok s \<Longrightarrow> opt_mset r \<subseteq># py_held s \<Longrightarrow>
     py_ok (py_xdecref api r s) \<and> py_held (py_xdecref api r s) = py_held s - opt_mset r"
  by (cases r) (simp_all add: py_xdecref_def quiet_unref)

lemma xdecref_exc_ok:
  assumes "lawful_api api" "py_ok s" "exc_refs exc \<subseteq># py_held s"
  shows "py_ok (py_xdecref_exc api exc s) \<and> py_held (py_xdecref_exc api exc s) = py_held s - exc_refs exc"
proof -
  obtain t v tb where e: "exc = (t, v, tb)" by (cases exc)
  let ?t = "opt_mset t" and ?v = "opt_mset v" and ?tb = "opt_mset tb"
  from assms(3) e have sub: "?t + ?v + ?tb \<subseteq># py_held s" by (simp add: exc_refs_def)
  have sub': "?v + ?tb \<subseteq># py_held s - ?t" "?t \<subseteq># py_held s"
    using mset_take_part [of ?t "?v + ?tb" "py_held s"] sub by (simp_all add: ac_simps)
  have 1: "py_ok (py_xdecref api t s)" "py_held (py_xdecref api t s) = py_held s - ?t"
    using xdecref_ok [OF assms(1,2) sub'(2)] by simp_all
  have 2: "py_ok (py_xdecref api v (py_xdecref api t s))"
      "py_held (py_xdecref api v (py_xdecref api t s)) = py_held s - ?t - ?v"
    using xdecref_ok [OF assms(1) 1(1), of v] 1(2) mset_take_part [OF sub'(1)] by simp_all
  show ?thesis
    using xdecref_ok [OF assms(1) 2(1), of tb] 2(2) mset_take_part [OF sub'(1)]
    by (simp add: py_xdecref_exc_def e exc_refs_def ac_simps)
qed

subsection \<open>Conservation of references\<close>

text \<open>
  A step that consumes the references \<open>U\<close> and produces those of its result: every other
  reference stays where it was, and an error in flight owns what it carries.
\<close>

definition outcome_refs :: "('a \<Rightarrow> nat multiset) \<Rightarrow> 'a outcome \<Rightarrow> nat multiset" where
  "outcome_refs V r =
     (case r of Return x \<Rightarrow> V x | Throw (PythonError msg exc) \<Rightarrow> exc_refs exc | _ \<Rightarrow> {#})"

lemma outcome_refs_simps [simp]:
  "outcome_refs V (Return x) = V x"
  "outcome_refs V (Throw (PythonError msg exc)) = exc_refs exc"
  "outcome_refs V (Throw (BadConversion m)) = {#}"
  "outcome_refs V (Throw (RuntimeError m)) = {#}"
  "outcome_refs V Abort = {#}"
  by (simp_all add: outcome_refs_def)

lemma outcome_refs_Throw: "outcome_refs V (Throw e) = outcome_refs W (Throw e)"
  by (simp add: outcome_refs_def)

definition owns :: "nat multiset \<Rightarrow> ('w py, 'a) action \<Rightarrow> ('a \<Rightarrow> nat multiset) \<Rightarrow> bool" where
  "owns U f V \<longleftrightarrow> (\<forall>s. py_ok s \<longrightarrow> U \<subseteq># py_held s \<longrightarrow>
     py_ok (snd (f s)) \<and> py_held (snd (f s)) = py_held s - U + outcome_refs V (fst (f s)))"

lemma ownsI:
  "(\<And>s r s'. py_ok s \<Longrightarrow> U \<subseteq># py_held s \<Longrightarrow> f s = (r, s') \<Longrightarrow>
      py_ok s' \<and> py_held s' = py_held s - U + outcome_refs V r) \<Longrightarrow> owns U f V"
  by (metis owns_def prod.collapse)

lemma ownsD:
  "owns U f V \<Longrightarrow> py_ok s \<Longrightarrow> U \<subseteq># py_held s \<Longrightarrow> f s = (r, s') \<Longrightarrow>
     py_ok s' \<and> py_held s' = py_held s - U + outcome_refs V r"
  unfolding owns_def by (metis fst_conv snd_conv)

lemma owns_return: "owns (V x) (act_return x) V"
  by (rule ownsI) (auto simp: act_return_def)

lemma owns_bind:
  assumes "owns U f V" "\<And>x. owns (V x) (g x) W"
  shows "owns U (act_bind f g) W"
proof (rule ownsI)
  fix s r s'
  assume s: "py_ok s" "U \<subseteq># py_held s" and r: "act_bind f g s = (r, s')"
  obtain a t where f: "f s = (a, t)" by fastforce
  then have t: "py_ok t" "py_held t = py_held s - U + outcome_refs V a"
    using ownsD [OF assms(1) s f] by simp_all
  show "py_ok s' \<and> py_held s' = py_held s - U + outcome_refs W r"
  proof (cases a)
    case (Return x)
    then have "g x t = (r, s')" using f r by (simp add: act_bind_step)
    then show ?thesis using ownsD [OF assms(2) t(1), of x r s'] t(2) Return by simp
  next
    case (Throw e)
    then show ?thesis using f r t by (auto simp: act_bind_step outcome_refs_Throw [of W e V])
  next
    case Abort
    then show ?thesis using f r t by (auto simp: act_bind_step)
  qed
qed

text \<open>A scope that releases a reference on every way out.\<close>

definition guarded :: "'w py_api \<Rightarrow> nat option \<Rightarrow> ('w py, 'a) action \<Rightarrow> ('w py, 'a) action" where
  "guarded api obj f s = (case f s of (r, s') \<Rightarrow> (r, object_ref_destroy api obj s'))"

lemma mset_take_out:
  assumes "U + R \<subseteq># (H :: nat multiset)"
  shows "R \<subseteq># H - U + V" "H - U + V - R = H - (U + R) + V"
proof -
  have R: "R \<subseteq># H - U" using mset_take_part [OF assms] by simp
  then show "R \<subseteq># H - U + V" by (meson mset_subset_eq_add_left subset_mset.trans)
  have "H - U + V - R = H - U - R + V" by (rule subset_mset.add_diff_assoc2 [OF R, symmetric])
  then show "H - U + V - R = H - (U + R) + V" by (simp only: diff_diff_add)
qed

lemma owns_guarded:
  assumes "lawful_api api" "owns U f V"
  shows "owns (U + opt_mset obj) (guarded api obj f) V"
proof (rule ownsI)
  fix s r s'
  assume s: "py_ok s" "U + opt_mset obj \<subseteq># py_held s" and r: "guarded api obj f s = (r, s')"
  obtain t where f: "f s = (r, t)" and s': "s' = py_xdecref api obj t"
    using r by (auto simp: guarded_def object_ref_destroy_def split: prod.splits)
  have t: "py_ok t" "py_held t = py_held s - U + outcome_refs V r"
    using ownsD [OF assms(2) s(1) _ f] mset_take_part [OF s(2)] by simp_all
  show "py_ok s' \<and> py_held s' = py_held s - (U + opt_mset obj) + outcome_refs V r"
    using xdecref_ok [OF assms(1) t(1), of obj] t(2) s'
      mset_take_out [OF s(2), of "outcome_refs V r"] by simp
qed

lemma owns_new_ref:
  assumes "new_ref f"
  shows "owns {#} (\<lambda>s. case f s of (r, s') \<Rightarrow> (Return r, py_own r s')) opt_mset"
proof (rule ownsI)
  fix s r s'
  assume "py_ok s" "(case f s of (r, s') \<Rightarrow> (Return r, py_own r s')) = (r, s')"
  then show "py_ok s' \<and> py_held s' = py_held s - {#} + outcome_refs opt_mset r"
    using assms by (auto simp: new_ref_def py_own_def split: prod.splits)
qed

lemma owns_quiet:
  assumes "quiet f"
  shows "owns {#} (\<lambda>s. (Return x, f s)) (\<lambda>_. {#})"
  by (rule ownsI) (use assms in \<open>auto simp: quiet_def\<close>)

text \<open>Taking an error out of the interpreter.\<close>

lemma err_fetch_ok:
  assumes "py_ok s" "py_err_fetch s = (exc, s')"
  shows "py_ok s'" "py_held s' = py_held s + exc_refs exc" "py_error s' = None"
  using assms
  by (auto simp: py_err_fetch_def py_ok_def error_refs_def exc_refs_def ac_simps split: option.splits)

lemma python_error_make_ok:
  assumes "lawful_api api" "py_ok s" "python_error_make api msg s = (e, s')"
  shows "\<exists>exc. e = PythonError msg exc \<and> fst exc \<noteq> None"
    and "py_ok s'" "py_error s' = None"
    and "py_held s' = py_held s + outcome_refs V (Throw e :: 'a outcome)"
    and "py_error s = Some exc \<Longrightarrow> e = PythonError msg exc"
proof -
  let ?s = "if py_error s = None then api_set_string api ''RuntimeError'' (ascii msg) s else s"
  have s: "py_ok ?s" "py_held ?s = py_held s"
    using lawful_apiD(2) [OF assms(1)] assms(2) by (auto simp: quiet_def)
  obtain exc' where f: "py_err_fetch ?s = (exc', s')" and e: "e = PythonError msg exc'"
    using assms(3) by (auto simp: python_error_make_def split: prod.splits)
  show "py_ok s'" "py_error s' = None" "py_held s' = py_held s + outcome_refs V (Throw e :: 'a outcome)"
    using err_fetch_ok [OF s(1) f] s(2) e by simp_all
  have "py_error ?s \<noteq> None" using lawful_apiD(3) [OF assms(1)] by simp
  then show "\<exists>exc. e = PythonError msg exc \<and> fst exc \<noteq> None"
    using f e s(1) by (auto simp: py_err_fetch_def py_ok_def)
  show "py_error s = Some exc \<Longrightarrow> e = PythonError msg exc"
    using f e by (simp add: py_err_fetch_def)
qed

lemma owns_py_throw:
  assumes "lawful_api api"
  shows "owns {#} (py_throw api msg) (V :: 'a \<Rightarrow> nat multiset)"
proof (rule ownsI)
  fix s r s'
  assume "py_ok s" "py_throw api msg s = (r :: 'a outcome, s')"
  then show "py_ok s' \<and> py_held s' = py_held s - {#} + outcome_refs V r"
    using python_error_make_ok(2) [OF assms, of s msg _ s'] python_error_make_ok(4) [OF assms, of s msg _ s' V]
    by (auto simp: py_throw_def split: prod.splits)
qed

text \<open>Handing an error back, with new references.\<close>

lemma bump_ok:
  assumes "py_ok s"
  shows "py_ok (py_xincref r s)" "py_held (py_xincref r s) = py_held s + opt_mset r"
    "py_error (py_xincref r s) = py_error s"
proof -
  have "py_ok (py_bump x s)" for x
  proof -
    have "count (py_held (py_bump x s) + error_refs (py_bump x s)) y \<le> py_count (py_bump x s) y" for y
    proof -
      have "count (py_held s + error_refs s) y \<le> py_count s y" using assms by (simp add: py_ok_def)
      then show ?thesis by (cases "y = x") (simp_all add: py_bump_def error_refs_def)
    qed
    then show ?thesis using assms by (simp add: py_ok_def py_bump_def)
  qed
  then show "py_ok (py_xincref r s)" using assms by (simp add: py_xincref_def split: option.split)
  show "py_held (py_xincref r s) = py_held s + opt_mset r" "py_error (py_xincref r s) = py_error s"
    by (simp_all add: py_xincref_def py_bump_def split: option.split)
qed

lemma python_error_copy_ok:
  assumes "py_ok s" "python_error_copy exc s = (exc', s')"
  shows "exc' = exc" "py_ok s'" "py_held s' = py_held s + exc_refs exc" "py_error s' = py_error s"
  using assms
  by (auto simp: python_error_copy_def exc_refs_def bump_ok ac_simps split: prod.splits)

lemma err_restore_ok:
  assumes "lawful_api api" "py_ok s" "exc_refs exc \<subseteq># py_held s" "fst exc \<noteq> None"
  shows "py_ok (py_err_restore api exc s)"
    "py_held (py_err_restore api exc s) = py_held s - exc_refs exc"
    "py_error s = None \<Longrightarrow> py_error (py_err_restore api exc s) = Some exc"
proof -
  obtain old t where f: "py_err_fetch s = (old, t)" by fastforce
  note t = err_fetch_ok [OF assms(2) f]
  define u where "u = t\<lparr>py_error := Some exc, py_held := py_held t - exc_refs exc,
     py_fault := py_fault t \<or> \<not> exc_refs exc \<subseteq># py_held t\<rparr>"
  have sub: "exc_refs exc \<subseteq># py_held t" using t(2) assms(3)
    by (metis mset_subset_eq_add_left subset_mset.trans)
  have "py_held u + error_refs u = py_held t"
    using sub by (simp add: u_def error_refs_def)
  then have u: "py_ok u"
    using t(1,3) sub assms(4) by (simp add: py_ok_def u_def error_refs_def)
  have h: "py_held u = py_held s - exc_refs exc + exc_refs old"
    using assms(3) t(2) by (simp add: u_def subset_mset.add_diff_assoc2)
  have r: "py_err_restore api exc s = py_xdecref_exc api old u"
    using f assms(4) by (auto simp: py_err_restore_def u_def)
  show "py_ok (py_err_restore api exc s)" "py_held (py_err_restore api exc s) = py_held s - exc_refs exc"
    using xdecref_exc_ok [OF assms(1) u, of old] h r by simp_all
  show "py_error (py_err_restore api exc s) = Some exc" if "py_error s = None"
    using that f r by (auto simp: py_err_fetch_def py_xdecref_exc_def py_xdecref_def u_def)
qed

subsection \<open>Errors that are handed on\<close>

lemma drop_shared:
  assumes "lawful_api api" "py_ok s" "x \<in># py_held s" "x \<in># error_refs s"
  shows "py_error (py_drop api x s) = py_error s"
proof -
  have "count (py_held s + error_refs s) x \<le> py_count s x" using assms(2) by (simp add: py_ok_def)
  moreover have "0 < count (py_held s) x" "0 < count (error_refs s) x" using assms(3,4) by simp_all
  ultimately have "\<not> py_count s x \<le> 1" unfolding count_union by linarith
  then show ?thesis using assms(3) by (simp add: py_drop_def py_unref_def)
qed

lemma xdecref_shared:
  assumes "lawful_api api" "py_ok s" "opt_mset r \<subseteq># py_held s" "opt_mset r \<subseteq># error_refs s"
  shows "py_error (py_xdecref api r s) = py_error s"
  using assms by (cases r) (simp_all add: py_xdecref_def drop_shared)

text \<open>An error owner can go once its error is pending again: nothing is finalised.\<close>

lemma error_destroy_shared:
  assumes "lawful_api api" "py_ok s" "exc_refs exc \<subseteq># py_held s" "py_error s = Some exc"
  shows "py_error (python_error_destroy api exc s) = Some exc"
proof -
  obtain t v tb where e: "exc = (t, v, tb)" by (cases exc)
  have refs: "opt_mset t + opt_mset v + opt_mset tb = exc_refs exc" by (simp add: e exc_refs_def)
  have err: "error_refs u = exc_refs exc" if "py_error u = Some exc" for u :: "'a py"
    using that by (simp add: error_refs_def)
  have parts: "opt_mset t \<subseteq># exc_refs exc" "opt_mset v \<subseteq># exc_refs exc" "opt_mset tb \<subseteq># exc_refs exc"
    by (simp_all flip: refs add: ac_simps)
  define s1 where "s1 = py_xdecref api t s"
  define s2 where "s2 = py_xdecref api v s1"
  have sub: "opt_mset t + (opt_mset v + opt_mset tb) \<subseteq># py_held s"
    using assms(3) by (simp flip: refs add: ac_simps)
  have 1: "py_ok s1" "py_held s1 = py_held s - opt_mset t" "py_error s1 = Some exc"
    using xdecref_ok [OF assms(1,2) mset_take_part(1) [OF sub]]
      xdecref_shared [OF assms(1,2) mset_take_part(1) [OF sub]] parts assms(4)
    by (simp_all add: s1_def err)
  have sub1: "opt_mset v + opt_mset tb \<subseteq># py_held s1" using mset_take_part(2) [OF sub] 1(2) by simp
  have 2: "py_ok s2" "py_held s2 = py_held s1 - opt_mset v" "py_error s2 = Some exc"
    using xdecref_ok [OF assms(1) 1(1) mset_take_part(1) [OF sub1]]
      xdecref_shared [OF assms(1) 1(1) mset_take_part(1) [OF sub1]] parts 1(3)
    by (simp_all add: s2_def err)
  have "opt_mset tb \<subseteq># py_held s2" using mset_take_part(2) [OF sub1] 2(2) by simp
  then have "py_error (py_xdecref api tb s2) = Some exc"
    using xdecref_shared [OF assms(1) 2(1)] parts 2(3) by (simp add: err)
  then show ?thesis by (simp add: python_error_destroy_def py_xdecref_exc_def e s1_def s2_def)
qed

lemma error_destroy_ok:
  "lawful_api api \<Longrightarrow> py_ok s \<Longrightarrow> exc_refs exc \<subseteq># py_held s \<Longrightarrow>
     py_ok (python_error_destroy api exc s) \<and>
     py_held (python_error_destroy api exc s) = py_held s - exc_refs exc"
  by (simp add: python_error_destroy_def xdecref_exc_ok)

text \<open>\<open>restore\<close> keeps the references of its owner.\<close>

lemma error_restore_ok:
  assumes "lawful_api api" "py_ok s" "fst exc \<noteq> None"
  shows "py_ok (python_error_restore api exc s)" "py_held (python_error_restore api exc s) = py_held s"
    "py_error s = None \<Longrightarrow> py_error (python_error_restore api exc s) = Some exc"
proof -
  obtain exc' t where c: "python_error_copy exc s = (exc', t)" by fastforce
  note t = python_error_copy_ok [OF assms(2) c]
  have sub: "exc_refs exc \<subseteq># py_held t" using t(3) by simp
  show "py_ok (python_error_restore api exc s)" "py_held (python_error_restore api exc s) = py_held s"
    using err_restore_ok(1,2) [OF assms(1) t(2) sub assms(3)] c t(3)
    by (simp_all add: python_error_restore_def)
  show "py_error s = None \<Longrightarrow> py_error (python_error_restore api exc s) = Some exc"
    using err_restore_ok(3) [OF assms(1) t(2) sub assms(3)] c t(4)
    by (simp add: python_error_restore_def)
qed

interpretation py_owner: move_only_owner id object_ref_move object_ref_assign_refs opt_mset
  by unfold_locales (auto simp: object_ref_move_def object_ref_release_def object_ref_assign_refs_def)

lemma object_ref_assign_ok:
  assumes "lawful_api api" "py_ok s" "opt_mset this \<subseteq># py_held s"
    and "object_ref_assign_refs same this other = (this', other', rel)"
  shows "fst (object_ref_assign api same this other s) = (this', other')"
    "py_ok (snd (object_ref_assign api same this other s))"
    "py_held (snd (object_ref_assign api same this other s)) = py_held s - rel"
  using assms xdecref_ok [OF assms(1-3)]
  by (auto simp: object_ref_assign_def object_ref_assign_refs_def object_ref_reset_def Let_def
      object_ref_release_def split: if_splits)

subsection \<open>An interpreter for examples\<close>

text \<open>
  A small interpreter for examples: object 5 raises when it is called, every other object
  returns the number 9, and a finalizer raises an error of its own.
\<close>

definition sample_fail :: "nat \<Rightarrow> nat py \<Rightarrow> nat py" where
  "sample_fail x s =
     s\<lparr>py_error := Some (Some x, None, None), py_count := (py_count s)(x := py_count s x + 1)\<rparr>"

definition sample_new :: "nat \<Rightarrow> nat py \<Rightarrow> nat option \<times> nat py" where
  "sample_new x s = (Some x, s\<lparr>py_count := (py_count s)(x := py_count s x + 1)\<rparr>)"

definition sample_call :: "nat \<Rightarrow> nat py \<Rightarrow> nat option \<times> nat py" where
  "sample_call c s = (if c = 5 then (None, sample_fail 6 s) else sample_new 9 s)"

definition sample_api :: "nat py_api" where
  "sample_api =
     \<lparr>api_none = 0,
      api_dealloc = (\<lambda>x s. sample_fail 8 (s\<lparr>py_world := py_world s + 1\<rparr>)),
      api_set_string = (\<lambda>c m. sample_fail 7),
      api_vectorcall = (\<lambda>c args. sample_call c),
      api_tuple_new = (\<lambda>n. sample_new 3),
      api_tuple_set = (\<lambda>t i v s. s),
      api_call_object = (\<lambda>c t. sample_call c),
      api_getattr = (\<lambda>m n. sample_new 5),
      api_import_module = (\<lambda>n. sample_new 2),
      api_module_add = (\<lambda>m n v s. if v = None then (False, sample_fail 7 s) else (True, s)),
      api_set_attr = (\<lambda>m n v s. if v = None then (False, sample_fail 7 s) else (True, s)),
      api_type_from_spec = (\<lambda>n k. sample_new 10),
      api_type_alloc = (\<lambda>t. sample_new 11),
      api_type_check = (\<lambda>t v s. v \<noteq> None),
      api_callable_check = (\<lambda>v s. True)\<rparr>"

lemma sample_fail_ok: "py_ok s \<Longrightarrow> py_ok (sample_fail x s) \<and> py_held (sample_fail x s) = py_held s"
proof -
  assume s: "py_ok s"
  have "count (py_held s + {#x#}) y \<le> ((py_count s)(x := py_count s x + 1)) y" for y
  proof -
    have "count (py_held s + error_refs s) y \<le> py_count s y" using s by (simp add: py_ok_def)
    then show ?thesis by (cases "y = x") simp_all
  qed
  then show ?thesis using s by (simp add: py_ok_def sample_fail_def error_refs_def exc_refs_def)
qed

lemma py_own_None: "py_own None s = s"
  by (simp add: py_own_def)

lemma sample_new_ok: "new_ref (sample_new x)"
proof -
  have "py_ok (py_own (Some x) (s\<lparr>py_count := (py_count s)(x := py_count s x + 1)\<rparr>))" if "py_ok s" for s :: "nat py"
  proof -
    have "py_own (Some x) (s\<lparr>py_count := (py_count s)(x := py_count s x + 1)\<rparr>) = py_xincref (Some x) s"
      by (simp add: py_own_def py_xincref_def py_bump_def)
    then show ?thesis using bump_ok(1) [OF that] by metis
  qed
  then show ?thesis by (auto simp: new_ref_def sample_new_def)
qed

lemma sample_call_ok: "new_ref (sample_call c)"
proof (cases "c = 5")
  case True
  have "sample_call c = (\<lambda>s. (None, sample_fail 6 s))" using True by (auto simp: sample_call_def)
  moreover have "py_error (sample_fail 6 s) \<noteq> None" for s by (simp add: sample_fail_def)
  ultimately show ?thesis by (simp add: new_ref_def py_own_None sample_fail_ok)
next
  case False
  then have "sample_call c = sample_new 9" by (auto simp: sample_call_def)
  then show ?thesis by (simp add: sample_new_ok)
qed

lemma sample_lawful: "lawful_api sample_api"
proof -
  have w: "quiet (\<lambda>s. sample_fail 8 (s\<lparr>py_world := py_world s + 1\<rparr>))"
    unfolding quiet_def
  proof (intro allI impI)
    fix s :: "nat py" assume "py_ok s"
    then have "py_ok (s\<lparr>py_world := py_world s + 1\<rparr>)" by (simp add: py_ok_def error_refs_def)
    from sample_fail_ok [OF this, of 8]
    show "py_ok (sample_fail 8 (s\<lparr>py_world := py_world s + 1\<rparr>)) \<and>
      py_held (sample_fail 8 (s\<lparr>py_world := py_world s + 1\<rparr>)) = py_held s" by simp
  qed
  have f: "quiet (sample_fail 7)" by (simp add: quiet_def sample_fail_ok)
  have e: "py_error (sample_fail 7 s) \<noteq> None" for s by (simp add: sample_fail_def)
  have c: "status_call (\<lambda>s. if v = None then (False, sample_fail 7 s) else (True, s))" for v :: "nat option"
    by (cases v) (simp_all add: status_call_def quiet_def sample_fail_ok e)
  show ?thesis
    by (simp add: lawful_api_def sample_api_def w f e c sample_new_ok sample_call_ok)
      (use w in \<open>simp add: quiet_def\<close>)
qed

definition sample_py :: "nat multiset \<Rightarrow> nat py" where
  "sample_py held = \<lparr>py_count = (\<lambda>x. 2), py_error = None, py_held = held, py_fault = False, py_world = 0\<rparr>"

lemma sample_py_ok: "py_ok (sample_py {#})"
  by (simp add: py_ok_def sample_py_def error_refs_def)

end
