(* ===== verification/PyCall.thy ===== *)
theory PyCall
  imports PyRuntime Converters
begin

section \<open>Calling Python\<close>

text \<open>
  The import side of the Python backend (\<open>dynabridge/backends/python.h\<close>) with the argument
  lowering of \<open>backend_base::invoke\<close> (\<open>dynabridge/backend_base.h\<close>): native arguments become
  Python objects, each guarded as soon as it exists, then the callable is called and its result
  converted back.
\<close>

subsection \<open>Arguments\<close>

text \<open>An argument of \<open>call\<close>: a raw reference to consume, or an \<open>object_ref\<close> that owns it.\<close>

datatype call_arg = RawArg "nat option" | GuardArg "nat option"

fun call_arg_value :: "call_arg \<Rightarrow> nat option" where
  "call_arg_value (RawArg r) = r"
| "call_arg_value (GuardArg r) = r"

text \<open>\<open>decref_args\<close> releases the raw ones, the destructors of the parameters the guarded ones.\<close>

fun decref_arg :: "'w py_api \<Rightarrow> call_arg \<Rightarrow> 'w py \<Rightarrow> 'w py" where
  "decref_arg api (RawArg r) s = py_xdecref api r s"
| "decref_arg api (GuardArg r) s = s"

definition decref_args :: "'w py_api \<Rightarrow> call_arg list \<Rightarrow> 'w py \<Rightarrow> 'w py" where
  "decref_args api args = fold (decref_arg api) args"

fun drop_guard :: "'w py_api \<Rightarrow> call_arg \<Rightarrow> 'w py \<Rightarrow> 'w py" where
  "drop_guard api (RawArg r) s = s"
| "drop_guard api (GuardArg r) s = object_ref_destroy api r s"

definition drop_guards :: "'w py_api \<Rightarrow> call_arg list \<Rightarrow> 'w py \<Rightarrow> 'w py" where
  "drop_guards api args = fold (drop_guard api) args"

text \<open>
  Lowering, in the order the compiler chose: \<open>own_import_value\<close> adopts each converted argument
  at once, so that a later conversion that throws releases the earlier ones.
\<close>

definition own_import_value :: "nat option \<Rightarrow> call_arg" where
  "own_import_value r = GuardArg r"

fun lower_args ::
    "'w py_api \<Rightarrow> nat list \<Rightarrow> (nat \<Rightarrow> ('w py, nat option) action) \<Rightarrow> call_arg list \<Rightarrow>
     ('w py, call_arg list) action" where
  "lower_args api [] to args s = (Return args, s)"
| "lower_args api (i # is) to args s =
     (case to i s of
        (Return r, s1) \<Rightarrow>
          (case lower_args api is to (args[i := own_import_value r]) s1 of
             (Return args', s2) \<Rightarrow> (Return args', s2)
           | (Throw e, s2) \<Rightarrow> (Throw e, drop_guard api (own_import_value r) s2)
           | (Abort, s2) \<Rightarrow> (Abort, drop_guard api (own_import_value r) s2))
      | (Throw e, s1) \<Rightarrow> (Throw e, s1)
      | (Abort, s1) \<Rightarrow> (Abort, s1))"

subsection \<open>Calls\<close>

text \<open>\<open>call_vector\<close>: the error is taken out of the interpreter before the arguments go.\<close>

definition call_vector ::
    "'w py_api \<Rightarrow> nat option \<Rightarrow> call_arg list \<Rightarrow> ('w py, nat option) action" where
  "call_vector api callable args s =
     (case callable of
        None \<Rightarrow> (Return None,
          drop_guards api args (api_set_string api ''RuntimeError''
            (ascii ''dynabridge Python context has no callable'') (decref_args api args s)))
      | Some c \<Rightarrow>
          (case api_vectorcall api c (map call_arg_value args) s of
             (None, s1) \<Rightarrow>
               (case py_throw api ''Python callable returned null'' s1 of
                  (r, s2) \<Rightarrow> (r, drop_guards api args (decref_args api args s2)))
           | (Some x, s1) \<Rightarrow>
               (Return (Some x), drop_guards api args (decref_args api args (py_own (Some x) s1)))))"

text \<open>
  \<open>call_tuple\<close>, for interpreters without vectorcall: the tuple takes every reference over.
\<close>

fun release_call_arg :: "call_arg \<Rightarrow> nat option \<times> call_arg" where
  "release_call_arg (RawArg r) = (r, RawArg r)"
| "release_call_arg (GuardArg r) = (r, GuardArg None)"

fun fill_tuple :: "'w py_api \<Rightarrow> nat \<Rightarrow> nat \<Rightarrow> call_arg list \<Rightarrow> 'w py \<Rightarrow> 'w py" where
  "fill_tuple api tuple i [] s = s"
| "fill_tuple api tuple i (a # as) s =
     (case release_call_arg a of (r, a') \<Rightarrow>
        fill_tuple api tuple (i + 1) as (py_give r (api_tuple_set api tuple i r s)))"

definition call_tuple ::
    "'w py_api \<Rightarrow> nat option \<Rightarrow> call_arg list \<Rightarrow> ('w py, nat option) action" where
  "call_tuple api callable args s =
     (case callable of
        None \<Rightarrow> (Return None,
          drop_guards api args (api_set_string api ''RuntimeError''
            (ascii ''dynabridge Python context has no callable'') (decref_args api args s)))
      | Some c \<Rightarrow>
          (case api_tuple_new api (length args) s of
             (None, s1) \<Rightarrow> (Return None, drop_guards api args (decref_args api args s1))
           | (Some t, s1) \<Rightarrow>
               (let s2 = fill_tuple api t 0 args (py_own (Some t) s1);
                    args' = map (snd \<circ> release_call_arg) args in
                case guarded api (Some t) (\<lambda>s. case api_call_object api c t s of
                    (None, s3) \<Rightarrow> py_throw api ''Python callable returned null'' s3
                  | (Some x, s3) \<Rightarrow> (Return (Some x), py_own (Some x) s3)) s2 of
                  (r, s4) \<Rightarrow> (r, drop_guards api args' s4))))"

definition py_call ::
    "'w py_api \<Rightarrow> bool \<Rightarrow> nat option \<Rightarrow> call_arg list \<Rightarrow> ('w py, nat option) action" where
  "py_call api vector callable args =
     (if vector then call_vector api callable args else call_tuple api callable args)"

text \<open>
  \<open>invoke_impl\<close>: \<open>convert\<close> is \<open>from_cast<R>\<close> of the result, or drops it when \<open>R\<close> is \<open>void\<close>.
\<close>

definition py_invoke_impl ::
    "'w py_api \<Rightarrow> bool \<Rightarrow> string \<Rightarrow> (nat \<Rightarrow> ('w py, 'n) action) \<Rightarrow> nat option \<Rightarrow> call_arg list \<Rightarrow>
     ('w py, 'n) action" where
  "py_invoke_impl api vector msg convert callable args =
     act_bind (py_call api vector callable args) (\<lambda>result. guarded api result
       (case result of None \<Rightarrow> py_throw api msg | Some x \<Rightarrow> convert x))"

definition py_invoke ::
    "'w py_api \<Rightarrow> bool \<Rightarrow> (nat \<Rightarrow> nat list) \<Rightarrow> string \<Rightarrow> (nat \<Rightarrow> ('w py, 'n) action) \<Rightarrow> nat option \<Rightarrow>
     (nat \<Rightarrow> ('w py, nat option) action) \<Rightarrow> nat \<Rightarrow> ('w py, 'n) action" where
  "py_invoke api vector order msg convert callable to n =
     act_bind (lower_args api (order n) to (replicate n (GuardArg None)))
       (py_invoke_impl api vector msg convert callable)"

text \<open>The arguments of a contract: a value, an imported object (\<open>to_dynamic_object_impl\<close>).\<close>

definition to_dynamic_object :: "nat option \<Rightarrow> ('w py, nat option) action" where
  "to_dynamic_object obj s = (Return obj, py_xincref obj s)"

text \<open>
  \<open>construct_import_object_impl\<close>: the object made by calling the class, kept in the (fresh)
  \<open>object_ref\<close> base.
\<close>

definition construct_import_object ::
    "'w py_api \<Rightarrow> bool \<Rightarrow> nat option \<Rightarrow> call_arg list \<Rightarrow> ('w py, nat option) action" where
  "construct_import_object api vector callable args =
     act_bind (py_call api vector callable args) (\<lambda>x s.
       case object_ref_reset api x True None s of (this, s') \<Rightarrow>
         if this = None then py_throw api ''Python constructor returned null'' s'
         else (Return this, s'))"

subsection \<open>Imports\<close>

definition import_attr :: "'w py_api \<Rightarrow> nat option \<Rightarrow> string \<Rightarrow> ('w py, nat) action" where
  "import_attr api module name s =
     (case api_getattr api module name s of
        (None, s') \<Rightarrow> (Throw (RuntimeError ''Python import lookup failed''), s')
      | (Some x, s') \<Rightarrow> (Return x, py_own (Some x) s'))"

text \<open>A context owns the callable it calls.\<close>

definition py_import_from :: "'w py_api \<Rightarrow> nat option \<Rightarrow> string \<Rightarrow> ('w py, nat option) action" where
  "py_import_from api module name =
     act_bind (import_attr api module name) (\<lambda>x s.
       case object_ref_make (Some x) True s of (context, s') \<Rightarrow> (Return context, s'))"

definition py_import_module :: "'w py_api \<Rightarrow> string \<Rightarrow> string \<Rightarrow> ('w py, nat option) action" where
  "py_import_module api module_name name s =
     (case api_import_module api module_name s of
        (None, s1) \<Rightarrow> (Throw (RuntimeError ''PyImport_ImportModule failed''), s1)
      | (Some m, s1) \<Rightarrow> guarded api (Some m) (py_import_from api (Some m) name) (py_own (Some m) s1))"

text \<open>\<open>try_import_callable_impl\<close>: a callable argument of an exported function.\<close>

definition try_import_callable :: "'w py_api \<Rightarrow> nat option \<Rightarrow> ('w py, nat option option) action" where
  "try_import_callable api value s =
     (case value of
        None \<Rightarrow> (Return None, s)
      | Some x \<Rightarrow>
          if \<not> api_callable_check api x s then (Return None, s)
          else case object_ref_make (Some x) False s of (context, s') \<Rightarrow> (Return (Some context), s'))"

subsection \<open>Calls conserve references\<close>

definition arg_refs :: "call_arg list \<Rightarrow> nat multiset" where
  "arg_refs args = (\<Sum>\<^sub># (mset (map (opt_mset \<circ> call_arg_value) args)))"

definition raw_refs :: "call_arg list \<Rightarrow> nat multiset" where
  "raw_refs args = (\<Sum>\<^sub># (mset (map (\<lambda>a. case a of RawArg r \<Rightarrow> opt_mset r | GuardArg r \<Rightarrow> {#}) args)))"

definition guard_refs :: "call_arg list \<Rightarrow> nat multiset" where
  "guard_refs args = (\<Sum>\<^sub># (mset (map (\<lambda>a. case a of RawArg r \<Rightarrow> {#} | GuardArg r \<Rightarrow> opt_mset r) args)))"

lemma arg_refs_split: "arg_refs args = raw_refs args + guard_refs args"
  by (induction args) (auto simp: arg_refs_def raw_refs_def guard_refs_def split: call_arg.splits)

lemma decref_args_ok:
  "lawful_api api \<Longrightarrow> py_ok s \<Longrightarrow> raw_refs args \<subseteq># py_held s \<Longrightarrow>
     py_ok (decref_args api args s) \<and> py_held (decref_args api args s) = py_held s - raw_refs args"
proof (induction args arbitrary: s)
  case Nil
  then show ?case by (simp add: decref_args_def raw_refs_def)
next
  case (Cons a args)
  show ?case
  proof (cases a)
    case (RawArg r)
    then have r: "raw_refs (a # args) = opt_mset r + raw_refs args" by (simp add: raw_refs_def)
    have sub: "opt_mset r + raw_refs args \<subseteq># py_held s" using Cons.prems(3) r by simp
    have 1: "py_ok (py_xdecref api r s)" "py_held (py_xdecref api r s) = py_held s - opt_mset r"
      using xdecref_ok [OF Cons.prems(1,2) mset_take_part(1) [OF sub]] by simp_all
    show ?thesis
      using Cons.IH [OF Cons.prems(1) 1(1)] mset_take_part(2) [OF sub] 1(2) r RawArg
      by (simp add: decref_args_def diff_diff_add_mset)
  next
    case (GuardArg r)
    then have "raw_refs (a # args) = raw_refs args" by (simp add: raw_refs_def)
    with Cons GuardArg show ?thesis by (simp add: decref_args_def)
  qed
qed

lemma drop_guards_ok:
  "lawful_api api \<Longrightarrow> py_ok s \<Longrightarrow> guard_refs args \<subseteq># py_held s \<Longrightarrow>
     py_ok (drop_guards api args s) \<and> py_held (drop_guards api args s) = py_held s - guard_refs args"
proof (induction args arbitrary: s)
  case Nil
  then show ?case by (simp add: drop_guards_def guard_refs_def)
next
  case (Cons a args)
  show ?case
  proof (cases a)
    case (GuardArg r)
    then have r: "guard_refs (a # args) = opt_mset r + guard_refs args" by (simp add: guard_refs_def)
    have sub: "opt_mset r + guard_refs args \<subseteq># py_held s" using Cons.prems(3) r by simp
    have 1: "py_ok (py_xdecref api r s)" "py_held (py_xdecref api r s) = py_held s - opt_mset r"
      using xdecref_ok [OF Cons.prems(1,2) mset_take_part(1) [OF sub]] by simp_all
    show ?thesis
      using Cons.IH [OF Cons.prems(1) 1(1)] mset_take_part(2) [OF sub] 1(2) r GuardArg
      by (simp add: drop_guards_def object_ref_destroy_def diff_diff_add_mset)
  next
    case (RawArg r)
    then have "guard_refs (a # args) = guard_refs args" by (simp add: guard_refs_def)
    with Cons RawArg show ?thesis by (simp add: drop_guards_def)
  qed
qed

text \<open>All arguments go, whatever else native code holds and whatever ran in between.\<close>

lemma release_args:
  assumes "lawful_api api" "quiet f" "py_ok s" "py_held s = H" "arg_refs args \<subseteq># H"
  shows "py_ok (drop_guards api args (f (decref_args api args s)))"
    "py_held (drop_guards api args (f (decref_args api args s))) = H - arg_refs args"
proof -
  have sub: "raw_refs args + guard_refs args \<subseteq># py_held s" using assms(4,5) by (simp add: arg_refs_split)
  let ?s = "decref_args api args s"
  have 1: "py_ok ?s" "py_held ?s = py_held s - raw_refs args"
    using decref_args_ok [OF assms(1,3) mset_take_part(1) [OF sub]] by simp_all
  have 2: "py_ok (f ?s)" "py_held (f ?s) = py_held s - raw_refs args"
    using assms(2) 1 by (simp_all add: quiet_def)
  show "py_ok (drop_guards api args (f ?s))" "py_held (drop_guards api args (f ?s)) = H - arg_refs args"
    using drop_guards_ok [OF assms(1) 2(1), of args] mset_take_part(2) [OF sub] 2(2) assms(4)
    by (simp_all add: arg_refs_split diff_diff_add_mset)
qed

lemma add_mset_diff: "A \<subseteq># H \<Longrightarrow> add_mset y H - A = add_mset y (H - A)"
  by (metis add_mset_add_single subset_mset.add_diff_assoc2)

lemma quiet_id: "quiet (\<lambda>s. s)"
  by (simp add: quiet_def)

lemmas release_args_id = release_args [OF _ quiet_id]

lemma new_refD:
  "new_ref f \<Longrightarrow> py_ok s \<Longrightarrow> f s = (r, s') \<Longrightarrow>
     py_ok (py_own r s') \<and> py_held s' = py_held s \<and> (py_error s = None \<longrightarrow> (r = None \<longleftrightarrow> py_error s' \<noteq> None))"
  unfolding new_ref_def by (metis fst_conv snd_conv)

lemma new_ref_null: "new_ref f \<Longrightarrow> py_ok s \<Longrightarrow> f s = (None, s') \<Longrightarrow> py_ok s' \<and> py_held s' = py_held s"
  by (drule (2) new_refD) (simp add: py_own_def)

lemma py_throw_ok:
  assumes "lawful_api api" "py_ok s" "py_throw api msg s = (r, s')"
  shows "py_ok s'" "py_held s' = py_held s + outcome_refs V r"
    "\<exists>exc. r = Throw (PythonError msg exc) \<and> fst exc \<noteq> None"
    "py_error s = Some exc \<Longrightarrow> r = Throw (PythonError msg exc)" "py_error s' = None"
proof -
  obtain e where m: "python_error_make api msg s = (e, s')" and r: "r = Throw e"
    using assms(3) by (auto simp: py_throw_def split: prod.splits)
  show "py_ok s'" "py_error s' = None" using python_error_make_ok(2,3) [OF assms(1,2) m] by simp_all
  show "py_held s' = py_held s + outcome_refs V r"
    using python_error_make_ok(4) [OF assms(1,2) m, of V] r by simp
  show "\<exists>exc. r = Throw (PythonError msg exc) \<and> fst exc \<noteq> None"
    using python_error_make_ok(1) [OF assms(1,2) m] r by blast
  show "py_error s = Some exc \<Longrightarrow> r = Throw (PythonError msg exc)"
    using python_error_make_ok(5) [OF assms(1,2) m] r by blast
qed

lemma owns_call_vector:
  assumes api: "lawful_api api" and args: "None \<notin> call_arg_value ` set args"
  shows "owns (arg_refs args) (call_vector api callable args) opt_mset"
proof (rule ownsI)
  fix s r s'
  assume s: "py_ok s" "arg_refs args \<subseteq># py_held s" and r: "call_vector api callable args s = (r, s')"
  show "py_ok s' \<and> py_held s' = py_held s - arg_refs args + outcome_refs opt_mset r"
  proof (cases callable)
    case None
    then show ?thesis
      using release_args [OF api lawful_apiD(2) [OF api] s(1) refl s(2)] r by (auto simp: call_vector_def)
  next
    case (Some c)
    obtain x s1 where v: "api_vectorcall api c (map call_arg_value args) s = (x, s1)" by fastforce
    have new: "new_ref (api_vectorcall api c (map call_arg_value args))"
      using lawful_apiD(4) [OF api] args by simp
    note n = new_refD [OF new s(1) v]
    show ?thesis
    proof (cases x)
      case None
      obtain a s2 where t: "py_throw api ''Python callable returned null'' s1 = (a :: nat option outcome, s2)"
        by fastforce
      have s1: "py_ok s1" "py_held s1 = py_held s" using n None by (simp_all add: py_own_def)
      note p = py_throw_ok [OF api s1(1) t]
      have "s' = drop_guards api args (decref_args api args s2)" "r = a"
        using r v t None Some by (simp_all add: call_vector_def)
      moreover have "arg_refs args \<subseteq># py_held s2"
        using s(2) s1(2) p(2) by (metis mset_subset_eq_add_left subset_mset.trans)
      ultimately show ?thesis
        using release_args_id [OF api p(1) refl, of args] p(2) [of opt_mset] s1(2) s(2)
        by (simp add: subset_mset.add_diff_assoc2)
    next
      case x: (Some y)
      have s1: "py_ok (py_own (Some y) s1)" "py_held (py_own (Some y) s1) = py_held s + {#y#}"
        using n x by (simp, simp add: py_own_def)
      have "s' = drop_guards api args (decref_args api args (py_own (Some y) s1))" "r = Return (Some y)"
        using r v x Some by (simp_all add: call_vector_def)
      moreover have "arg_refs args \<subseteq># py_held s + {#y#}"
        using s(2) by (metis mset_subset_eq_add_left subset_mset.trans)
      ultimately show ?thesis
        using release_args_id [OF api s1, of args] s(2) by (simp add: add_mset_diff)
    qed
  qed
qed


lemma give_ok:
  "py_ok s \<Longrightarrow> opt_mset r \<subseteq># py_held s \<Longrightarrow> py_ok (py_give r s) \<and> py_held (py_give r s) = py_held s - opt_mset r"
  by (cases r) (auto simp: py_give_def py_ok_def error_refs_def intro: le_trans [rotated] diff_le_self)

lemma fill_tuple_ok:
  "lawful_api api \<Longrightarrow> py_ok s \<Longrightarrow> arg_refs args \<subseteq># py_held s \<Longrightarrow>
     py_ok (fill_tuple api t i args s) \<and> py_held (fill_tuple api t i args s) = py_held s - arg_refs args"
proof (induction args arbitrary: i s)
  case Nil
  then show ?case by (simp add: arg_refs_def)
next
  case (Cons a args)
  let ?r = "call_arg_value a"
  obtain a' where a: "release_call_arg a = (?r, a')" by (cases a) simp_all
  have refs: "arg_refs (a # args) = opt_mset ?r + arg_refs args" by (simp add: arg_refs_def)
  have sub: "opt_mset ?r + arg_refs args \<subseteq># py_held s" using Cons.prems(3) refs by simp
  let ?s = "api_tuple_set api t i ?r s"
  have 1: "py_ok ?s" "py_held ?s = py_held s"
    using lawful_apiD(6) [OF Cons.prems(1)] Cons.prems(2) by (simp_all add: quiet_def)
  have 2: "py_ok (py_give ?r ?s)" "py_held (py_give ?r ?s) = py_held s - opt_mset ?r"
    using give_ok [OF 1(1), of ?r] mset_take_part(1) [OF sub] 1(2) by simp_all
  show ?case
    using Cons.IH [OF Cons.prems(1) 2(1), of "i + 1"] mset_take_part(2) [OF sub] 2(2) refs a
    by (simp add: diff_diff_add_mset)
qed

lemma released_guards: "guard_refs (map (snd \<circ> release_call_arg) args) = {#}"
proof (induction args)
  case Nil
  then show ?case by (simp add: guard_refs_def)
next
  case (Cons a args)
  then show ?case by (cases a) (simp_all add: guard_refs_def)
qed

lemma owns_result:
  assumes "lawful_api api" "new_ref f"
  shows "owns {#} (\<lambda>s. case f s of
      (None, s') \<Rightarrow> py_throw api msg s'
    | (Some x, s') \<Rightarrow> (Return (Some x), py_own (Some x) s')) opt_mset"
proof (rule ownsI)
  fix s r s'
  assume s: "py_ok s" and r: "(case f s of
      (None, s') \<Rightarrow> py_throw api msg s'
    | (Some x, s') \<Rightarrow> (Return (Some x), py_own (Some x) s')) = (r, s')"
  obtain x t where f: "f s = (x, t)" by fastforce
  note n = new_refD [OF assms(2) s f]
  show "py_ok s' \<and> py_held s' = py_held s - {#} + outcome_refs opt_mset r"
  proof (cases x)
    case None
    then have "py_throw api msg t = (r, s')" "py_ok t" using f r n by (simp_all add: py_own_def)
    then show ?thesis using py_throw_ok(1,2) [OF assms(1)] n by fastforce
  next
    case (Some y)
    then show ?thesis using f r n by (auto simp: py_own_def)
  qed
qed

lemma owns_call_tuple:
  assumes api: "lawful_api api"
  shows "owns (arg_refs args) (call_tuple api callable args) opt_mset"
proof (rule ownsI)
  fix s r s'
  assume s: "py_ok s" "arg_refs args \<subseteq># py_held s" and r: "call_tuple api callable args s = (r, s')"
  show "py_ok s' \<and> py_held s' = py_held s - arg_refs args + outcome_refs opt_mset r"
  proof (cases callable)
    case None
    then show ?thesis
      using release_args [OF api lawful_apiD(2) [OF api] s(1) refl s(2)] r by (auto simp: call_tuple_def)
  next
    case (Some c)
    obtain x s1 where v: "api_tuple_new api (length args) s = (x, s1)" by fastforce
    note n = new_refD [OF lawful_apiD(5) [OF api] s(1) v]
    show ?thesis
    proof (cases x)
      case None
      then have s1: "py_ok s1" "py_held s1 = py_held s" using n by (simp_all add: py_own_def)
      then show ?thesis
        using release_args_id [OF api s1 s(2)] r v None Some by (auto simp: call_tuple_def)
    next
      case t: (Some t)
      let ?s1 = "py_own (Some t) s1"
      let ?s2 = "fill_tuple api t 0 args ?s1"
      let ?f = "\<lambda>s. case api_call_object api c t s of
                    (None, s3) \<Rightarrow> py_throw api ''Python callable returned null'' s3
                  | (Some x, s3) \<Rightarrow> (Return (Some x), py_own (Some x) s3)"
      have s1: "py_ok ?s1" "py_held ?s1 = py_held s + {#t#}" using n t by (simp, simp add: py_own_def)
      have sub: "arg_refs args \<subseteq># py_held ?s1"
        using s(2) s1(2) by (metis mset_subset_eq_add_left subset_mset.trans)
      have s2: "py_ok ?s2" "py_held ?s2 = py_held s - arg_refs args + {#t#}"
        using fill_tuple_ok [OF api s1(1) sub] s1(2) s(2) by (simp_all add: add_mset_diff)
      obtain r' s4 where g: "guarded api (Some t) ?f ?s2 = (r', s4)" by fastforce
      have o: "owns {#} ?f opt_mset" by (rule owns_result [OF api lawful_apiD(7) [OF api]])
      have s4: "py_ok s4" "py_held s4 = py_held s - arg_refs args + outcome_refs opt_mset r'"
        using ownsD [OF owns_guarded [OF api o, of "Some t"] s2(1) _ g] s2(2) by simp_all
      have "r = r'" "s' = drop_guards api (map (snd \<circ> release_call_arg) args) s4"
        using r v t Some g by (auto simp: call_tuple_def Let_def)
      then show ?thesis
        using drop_guards_ok [OF api s4(1), of "map (snd \<circ> release_call_arg) args"] s4(2)
        by (simp add: released_guards)
    qed
  qed
qed

text \<open>What lowering one argument promises: a new reference, never null, or an error.\<close>

definition lowers :: "('w py, nat option) action \<Rightarrow> bool" where
  "lowers f \<longleftrightarrow> owns {#} f opt_mset \<and> (\<forall>s s'. f s \<noteq> (Return None, s'))"

lemma arg_refs_update:
  "i < length args \<Longrightarrow> args ! i = GuardArg None \<Longrightarrow>
     arg_refs (args[i := GuardArg r]) = arg_refs args + opt_mset r"
proof (induction args arbitrary: i)
  case (Cons a args)
  then show ?case by (cases i) (simp_all add: arg_refs_def ac_simps)
qed simp

lemma lower_args_ok:
  assumes "lawful_api api" "distinct is" "\<And>i. i \<in> set is \<Longrightarrow> lowers (to i)"
    and "\<And>i. i \<in> set is \<Longrightarrow> i < length args \<and> args ! i = GuardArg None"
    and "py_ok s" "lower_args api is to args s = (r, s')"
  shows "py_ok s' \<and> py_held s' + arg_refs args = py_held s + outcome_refs arg_refs r +
      (case r of Return _ \<Rightarrow> {#} | _ \<Rightarrow> arg_refs args) \<and>
    (\<forall>args'. r = Return args' \<longrightarrow> length args' = length args \<and>
       (\<forall>i < length args. (i \<in> set is \<longrightarrow> call_arg_value (args' ! i) \<noteq> None) \<and>
          (i \<notin> set is \<longrightarrow> args' ! i = args ! i)))"
  using assms
proof (induction "is" arbitrary: args s r s')
  case Nil
  then show ?case by auto
next
  case (Cons i "is")
  obtain x s1 where t: "to i s = (x, s1)" by fastforce
  have o: "owns {#} (to i) opt_mset" "\<And>s s'. to i s \<noteq> (Return None, s')"
    using Cons.prems(3) by (auto simp: lowers_def)
  have s1: "py_ok s1" "py_held s1 = py_held s + outcome_refs opt_mset x"
    using ownsD [OF o(1) Cons.prems(5) _ t] by simp_all
  show ?case
  proof (cases x)
    case (Return v)
    then obtain y where v: "v = Some y" using o(2) t by (cases v) auto
    let ?args = "args[i := GuardArg v]"
    have i: "i < length args" "args ! i = GuardArg None" using Cons.prems(4) by auto
    note refs = arg_refs_update [OF i, of v]
    obtain r' s2 where l: "lower_args api is to ?args s1 = (r', s2)" by fastforce
    have d: "distinct is" "i \<notin> set is" using Cons.prems(2) by simp_all
    have pre: "\<And>j. j \<in> set is \<Longrightarrow> j < length ?args \<and> ?args ! j = GuardArg None"
    proof -
      fix j assume j: "j \<in> set is"
      with d have "j \<noteq> i" by blast
      then show "j < length ?args \<and> ?args ! j = GuardArg None" using Cons.prems(4) [of j] j by simp
    qed
    have lo: "\<And>j. j \<in> set is \<Longrightarrow> lowers (to j)" using Cons.prems(3) by simp
    note IH = Cons.IH [OF Cons.prems(1) d(1) lo pre s1(1) l]
    have ih: "py_ok s2" "py_held s2 + arg_refs ?args = py_held s1 + outcome_refs arg_refs r' +
        (case r' of Return _ \<Rightarrow> {#} | _ \<Rightarrow> arg_refs ?args)"
      using IH by (blast, blast)
    have ih3: "length args' = length args \<and>
        (\<forall>j < length args. (j \<in> set is \<longrightarrow> call_arg_value (args' ! j) \<noteq> None) \<and>
          (j \<notin> set is \<longrightarrow> args' ! j = ?args ! j))" if "r' = Return args'" for args'
      using IH that by (metis length_list_update)
    show ?thesis
    proof (cases r')
      case r': (Return args')
      then have "r = Return args'" "s' = s2" using Cons.prems(6) t Return l by (simp_all add: own_import_value_def)
      then show ?thesis
        using ih(1,2) ih3 [OF r'] refs s1(2) Return r' v i d
        by (auto simp: nth_list_update ac_simps)
    next
      case (Throw e)
      have e: "r = Throw e" "s' = py_xdecref api v s2"
        using Cons.prems(6) t Return l Throw by (simp_all add: own_import_value_def object_ref_destroy_def)
      have h: "py_held s2 = py_held s + opt_mset v + outcome_refs arg_refs (Throw e)"
        using ih(2) Throw s1(2) Return by simp
      have h': "py_held s2 - opt_mset v = py_held s + outcome_refs arg_refs (Throw e)"
        using h by (simp add: ac_simps)
      have sub: "opt_mset v \<subseteq># py_held s2" using h by (simp add: ac_simps)
      show ?thesis
        using xdecref_ok [OF Cons.prems(1) ih(1) sub] e h' by (simp add: ac_simps)
    next
      case Abort
      have e: "r = Abort" "s' = py_xdecref api v s2"
        using Cons.prems(6) t Return l Abort by (simp_all add: own_import_value_def object_ref_destroy_def)
      have h: "py_held s2 = py_held s + opt_mset v" using ih(2) Abort s1(2) Return by simp
      then show ?thesis
        using xdecref_ok [OF Cons.prems(1) ih(1), of v] e by (simp add: ac_simps)
    qed
  next
    case (Throw e)
    then have "r = Throw e" "s' = s1" using Cons.prems(6) t by simp_all
    then show ?thesis using s1 Throw by (simp add: outcome_refs_Throw [of arg_refs e opt_mset] ac_simps)
  next
    case Abort
    then have "r = Abort" "s' = s1" using Cons.prems(6) t by simp_all
    then show ?thesis using s1 Abort by simp
  qed
qed


lemma owns_invoke_impl:
  assumes api: "lawful_api api" and args: "None \<notin> call_arg_value ` set args"
    and convert: "\<And>x. owns {#} (convert x) (\<lambda>_. {#})"
  shows "owns (arg_refs args) (py_invoke_impl api vector msg convert callable args) (\<lambda>_. {#})"
  unfolding py_invoke_impl_def
proof (rule owns_bind)
  show "owns (arg_refs args) (py_call api vector callable args) opt_mset"
    using owns_call_vector [OF api args] owns_call_tuple [OF api] by (simp add: py_call_def)
  fix result
  have "owns {#} (case result of None \<Rightarrow> py_throw api msg | Some x \<Rightarrow> convert x) (\<lambda>_. {#})"
    by (cases result) (simp_all add: owns_py_throw [OF api] convert)
  from owns_guarded [OF api this, of result]
  show "owns (opt_mset result) (guarded api result
      (case result of None \<Rightarrow> py_throw api msg | Some x \<Rightarrow> convert x)) (\<lambda>_. {#})" by simp
qed

lemma empty_guards: "arg_refs (replicate n (GuardArg None)) = {#}"
  by (induction n) (simp_all add: arg_refs_def)

lemma lower_all_ok:
  assumes "lawful_api api" "evaluation_order order" "\<forall>i < n. lowers (to i)" "py_ok s"
    and "lower_args api (order n) to (replicate n (GuardArg None)) s = (r, s')"
  shows "py_ok s'" "py_held s' = py_held s + outcome_refs arg_refs r"
    "r = Return args \<Longrightarrow> None \<notin> call_arg_value ` set args \<and> length args = n"
proof -
  have o: "distinct (order n)" "set (order n) = {..<n}" using assms(2) by (simp_all add: evaluation_order_def)
  note l = lower_args_ok [OF assms(1) o(1) _ _ assms(4,5)]
  have l': "py_ok s' \<and> py_held s' + arg_refs (replicate n (GuardArg None)) = py_held s + outcome_refs arg_refs r +
      (case r of Return _ \<Rightarrow> {#} | _ \<Rightarrow> arg_refs (replicate n (GuardArg None))) \<and>
    (\<forall>args'. r = Return args' \<longrightarrow> length args' = n \<and>
       (\<forall>i < n. (i \<in> set (order n) \<longrightarrow> call_arg_value (args' ! i) \<noteq> None)))"
    using l o(2) assms(3) by (metis (lifting) length_replicate nth_replicate lessThan_iff)
  then show "py_ok s'" "py_held s' = py_held s + outcome_refs arg_refs r"
    by (auto simp: empty_guards split: outcome.splits)
  show "None \<notin> call_arg_value ` set args \<and> length args = n" if "r = Return args"
    using l' that o(2) by (auto simp: in_set_conv_nth) (metis option.distinct(1))
qed

text \<open>Whatever consumes lowered arguments: the arguments are lowered first, in any order.\<close>

lemma owns_lowered:
  assumes "lawful_api api" "evaluation_order order" "\<forall>i < n. lowers (to i)"
    and "\<And>args. None \<notin> call_arg_value ` set args \<Longrightarrow> owns (arg_refs args) (f args) V"
  shows "owns {#} (act_bind (lower_args api (order n) to (replicate n (GuardArg None))) f) V"
proof (rule ownsI)
  fix s r s'
  assume s: "py_ok s" and r: "act_bind (lower_args api (order n) to (replicate n (GuardArg None))) f s = (r, s')"
  obtain a s1 where l: "lower_args api (order n) to (replicate n (GuardArg None)) s = (a, s1)" by fastforce
  note s1 = lower_all_ok [OF assms(1-3) s l]
  show "py_ok s' \<and> py_held s' = py_held s - {#} + outcome_refs V r"
  proof (cases a)
    case (Return args)
    then have i: "f args s1 = (r, s')" using r l by (simp add: act_bind_step)
    have "None \<notin> call_arg_value ` set args" using s1(3) Return by blast
    from ownsD [OF assms(4) [OF this] s1(1) _ i] show ?thesis using s1(2) Return by simp
  next
    case (Throw e)
    then show ?thesis
      using r l s1 by (auto simp: act_bind_step outcome_refs_Throw [of V e arg_refs])
  next
    case Abort
    then show ?thesis using r l s1 by (auto simp: act_bind_step)
  qed
qed

lemma owns_py_invoke:
  assumes "lawful_api api" "evaluation_order order" "\<forall>i < n. lowers (to i)"
    and "\<And>x. owns {#} (convert x) (\<lambda>_. {#})"
  shows "owns {#} (py_invoke api vector order msg convert callable to n) (\<lambda>_. {#})"
  unfolding py_invoke_def
  by (intro owns_lowered assms(1-3) owns_invoke_impl assms(4))

lemma owns_construct_import_object:
  assumes "lawful_api api" "None \<notin> call_arg_value ` set args"
  shows "owns (arg_refs args) (construct_import_object api vector callable args) opt_mset"
  unfolding construct_import_object_def
proof (rule owns_bind)
  show "owns (arg_refs args) (py_call api vector callable args) opt_mset"
    using owns_call_vector [OF assms] owns_call_tuple [OF assms(1)] by (simp add: py_call_def)
  fix x
  have "owns (opt_mset x) (\<lambda>s. if x = None then py_throw api ''Python constructor returned null'' s else (Return x, s)) opt_mset"
    using owns_py_throw [OF assms(1)] owns_return [of opt_mset x] by (cases x) (simp_all add: act_return_def [abs_def])
  then show "owns (opt_mset x) (\<lambda>s. case object_ref_reset api x True None s of (this, s') \<Rightarrow>
      if this = None then py_throw api ''Python constructor returned null'' s' else (Return this, s')) opt_mset"
    by (simp add: object_ref_reset_def py_xdecref_def cong: if_cong)
qed

text \<open>
  The error of the callable is what the C++ caller gets, whatever the finalizers of the
  arguments do to the interpreter's error afterwards.
\<close>

lemma call_vector_error:
  assumes "lawful_api api" "py_ok s" "None \<notin> call_arg_value ` set args"
    and "api_vectorcall api c (map call_arg_value args) s = (None, s1)" "py_error s1 = Some exc"
  shows "fst (call_vector api (Some c) args s) = Throw (PythonError ''Python callable returned null'' exc)"
proof -
  have new: "new_ref (api_vectorcall api c (map call_arg_value args))"
    using lawful_apiD(4) [OF assms(1)] assms(3) by simp
  have ok: "py_ok s1" using new_ref_null [OF new assms(2,4)] by simp
  obtain a s2 where t: "py_throw api ''Python callable returned null'' s1 = (a :: nat option outcome, s2)"
    by fastforce
  show ?thesis using py_throw_ok(4) [OF assms(1) ok t assms(5)] assms(4) t by (simp add: call_vector_def)
qed

lemma py_invoke_error:
  assumes "lawful_api api" "evaluation_order order" "\<forall>i < n. lowers (to i)" "py_ok s"
    and l: "lower_args api (order n) to (replicate n (GuardArg None)) s = (Return args, s0)"
    and v: "api_vectorcall api c (map call_arg_value args) s0 = (None, s1)" "py_error s1 = Some exc"
  shows "fst (py_invoke api True order msg convert (Some c) to n s) =
    Throw (PythonError ''Python callable returned null'' exc)"
proof -
  note s0 = lower_all_ok [OF assms(1-4) l]
  have "None \<notin> call_arg_value ` set args" using s0(3) [OF refl] by blast
  then have "fst (call_vector api (Some c) args s0) = Throw (PythonError ''Python callable returned null'' exc)"
    using call_vector_error [OF assms(1) s0(1) _ v] by blast
  then have "fst (py_invoke_impl api True msg convert (Some c) args s0) =
      Throw (PythonError ''Python callable returned null'' exc)"
    by (auto simp: py_invoke_impl_def py_call_def act_bind_def split: prod.splits outcome.splits)
  then show ?thesis using l by (simp add: py_invoke_def act_bind_step)
qed

text \<open>
  Calling Python leaks no reference and releases none twice. Whatever the compiler's
  evaluation order, whichever argument fails to convert, whether the callable is missing,
  raises or returns, and whether its result converts: afterwards native code owns exactly the
  references it owned before, except those a thrown \<open>python_error\<close> carries, and no object was
  touched through a reference that was not there.
\<close>

theorem python_call_conserves:
  assumes "lawful_api api" "evaluation_order order" "\<forall>i < n. lowers (to i)"
    and "\<forall>x. owns {#} (convert x) (\<lambda>_. {#})"
    and "py_ok s" "py_invoke api vector order msg convert callable to n s = (r, s')"
  shows "py_ok s' \<and> py_held s' = py_held s + outcome_refs (\<lambda>_. {#}) r"
  using ownsD [OF owns_py_invoke [OF assms(1-3)] assms(5) _ assms(6)] assms(4) by simp


definition sample_arg :: "nat \<Rightarrow> (nat py, nat option) action" where
  "sample_arg x s = (case sample_new x s of (r, s') \<Rightarrow> (Return r, py_own r s'))"

lemma sample_arg_lowers: "lowers (sample_arg x)"
proof -
  have "owns {#} (sample_arg x) opt_mset"
    using owns_new_ref [OF sample_new_ok [of x]] by (simp add: sample_arg_def [abs_def])
  then show ?thesis by (simp add: lowers_def sample_arg_def sample_new_def)
qed

lemma owns_pure: "owns {#} (act_return x) (\<lambda>_. {#})"
  using owns_return [of "\<lambda>_. {#}" x] by simp

theorem python_call_conserves_witness:
  "case py_invoke sample_api True (\<lambda>n. rev [0..<n]) ''call'' (\<lambda>x. act_return (1 :: nat)) (Some 5)
      sample_arg 2 (sample_py {#}) of
    (r, s') \<Rightarrow> py_ok s' \<and> py_held s' = py_held (sample_py {#}) + outcome_refs (\<lambda>_. {#}) r \<and>
      r = Throw (PythonError ''Python callable returned null'' (Some 6, None, None))"
proof -
  let ?i = "py_invoke sample_api True (\<lambda>n. rev [0..<n]) ''call'' (\<lambda>x. act_return (1 :: nat)) (Some 5)
      sample_arg 2"
  obtain r s' where i: "?i (sample_py {#}) = (r, s')" by fastforce
  have "py_ok s' \<and> py_held s' = py_held (sample_py {#}) + outcome_refs (\<lambda>_. {#}) r"
    by (rule python_call_conserves [OF sample_lawful evaluation_order_rev _ _ sample_py_ok i])
      (simp_all add: sample_arg_lowers owns_pure)
  moreover have "fst (?i (sample_py {#})) = Throw (PythonError ''Python callable returned null'' (Some 6, None, None))"
    by code_simp
  ultimately show ?thesis using i by simp
qed

end
