(* ===== verification/PyConverters.thy ===== *)
theory PyConverters
  imports PyCall
begin

section \<open>Python conversions\<close>

text \<open>
  The converters of \<open>dynabridge/backends/python_converters.h\<close>. An integer of Python has no
  bounds; \<open>exact\<close> says that the object is an \<open>int\<close> and not of a subclass (such as \<open>bool\<close>). A
  string is a list of code points, which may hold lone surrogates.
\<close>

datatype py_value = PyInt int bool | PyStr "nat list" | PyOther

text \<open>
  What depends on the platform: how many bits a compact integer has (\<open>None\<close> where the compact
  layout is not available), how many a C \<open>long\<close> has, and the interpreter's UTF-8 codec, which
  rejects surrogates and invalid bytes.
\<close>

record py_platform =
  pf_compact_bits :: "nat option"
  pf_long_bits :: nat
  pf_utf8_encode :: "nat list \<Rightarrow> bytes option"
  pf_utf8_decode :: "bytes \<Rightarrow> nat list option"

definition compact_long_value :: "py_platform \<Rightarrow> py_value \<Rightarrow> int option" where
  "compact_long_value pf v =
     (case v of
        PyInt n exact \<Rightarrow>
          if \<not> exact then None
          else (case pf_compact_bits pf of
                  None \<Rightarrow> None
                | Some k \<Rightarrow> if \<bar>n\<bar> < 2 ^ k then Some n else None)
      | _ \<Rightarrow> None)"

text \<open>\<open>PyErr_Clear\<close>.\<close>

definition py_err_clear :: "'w py_api \<Rightarrow> 'w py \<Rightarrow> 'w py" where
  "py_err_clear api s = py_err_restore api (None, None, None) s"

definition py_int_from :: "'w py_api \<Rightarrow> py_platform \<Rightarrow> py_value \<Rightarrow> 'w py \<Rightarrow> 32 word option \<times> 'w py" where
  "py_int_from api pf v s =
     (case compact_long_value pf v of
        Some n \<Rightarrow> (if n < int_min \<or> n > int_max then None else Some (word_of_int n), s)
      | None \<Rightarrow> (case v of
          PyInt n exact \<Rightarrow>
            let overflow = (n < - (2 ^ (pf_long_bits pf - 1)) \<or> n \<ge> 2 ^ (pf_long_bits pf - 1));
                result = (if overflow then -1 else n) in
            if overflow \<or> py_error s \<noteq> None then (None, py_err_clear api s)
            else if result < int_min \<or> result > int_max then (None, s)
            else (Some (word_of_int result), s)
        | _ \<Rightarrow> (None, s)))"

text \<open>\<open>PyLong_AsUnsignedLong\<close> raises when the value does not fit.\<close>

definition long_as_unsigned :: "'w py_api \<Rightarrow> py_platform \<Rightarrow> int \<Rightarrow> 'w py \<Rightarrow> int \<times> 'w py" where
  "long_as_unsigned api pf n s =
     (if n < 0 then (2 ^ pf_long_bits pf - 1,
        api_set_string api ''OverflowError'' (ascii ''can't convert negative value to unsigned int'') s)
      else if n \<ge> 2 ^ pf_long_bits pf then (2 ^ pf_long_bits pf - 1,
        api_set_string api ''OverflowError'' (ascii ''Python int too large to convert to C unsigned long'') s)
      else (n, s))"

definition py_unsigned_from :: "'w py_api \<Rightarrow> py_platform \<Rightarrow> py_value \<Rightarrow> 'w py \<Rightarrow> u32 option \<times> 'w py" where
  "py_unsigned_from api pf v s =
     (case compact_long_value pf v of
        Some n \<Rightarrow> (if n < 0 \<or> n > int unsigned_max then None else Some (word_of_int n), s)
      | None \<Rightarrow> (case v of
          PyInt n exact \<Rightarrow>
            (case long_as_unsigned api pf n s of (result, s') \<Rightarrow>
               if py_error s' \<noteq> None then (None, py_err_clear api s')
               else if result > int unsigned_max then (None, s')
               else (Some (word_of_int result), s'))
        | _ \<Rightarrow> (None, s)))"

text \<open>
  The conversions to Python: \<open>new_object\<close> is \<open>PyLong_FromLong\<close>, \<open>PyLong_FromUnsignedLong\<close> or
  \<open>PyUnicode_FromStringAndSize\<close>, which may run out of memory.
\<close>

definition py_to :: "string \<Rightarrow> ('w py \<Rightarrow> nat option \<times> 'w py) \<Rightarrow> ('w py, nat option) action" where
  "py_to msg new_object s =
     (case new_object s of
        (None, s') \<Rightarrow> (Throw (RuntimeError msg), s')
      | (Some x, s') \<Rightarrow> (Return (Some x), py_own (Some x) s'))"

definition py_int_to :: "(py_value \<Rightarrow> 'w py \<Rightarrow> nat option \<times> 'w py) \<Rightarrow> 32 word \<Rightarrow> ('w py, nat option) action" where
  "py_int_to new_object i = py_to ''dynabridge Python int conversion failed'' (new_object (PyInt (sint i) True))"

definition py_unsigned_to :: "(py_value \<Rightarrow> 'w py \<Rightarrow> nat option \<times> 'w py) \<Rightarrow> u32 \<Rightarrow> ('w py, nat option) action" where
  "py_unsigned_to new_object i = py_to ''dynabridge Python unsigned conversion failed'' (new_object (PyInt (uint i) True))"

definition ssize_max :: nat where "ssize_max = 2 ^ 63 - 1"

definition py_string_to ::
    "'w py_api \<Rightarrow> py_platform \<Rightarrow> (py_value \<Rightarrow> 'w py \<Rightarrow> nat option \<times> 'w py) \<Rightarrow> bytes \<Rightarrow>
     ('w py, nat option) action" where
  "py_string_to api pf new_object b s =
     (if length b > ssize_max then (Throw (LengthError ''dynabridge Python string is too large''), s)
      else case pf_utf8_decode pf b of
        None \<Rightarrow> py_to ''dynabridge Python string conversion failed''
          (\<lambda>s. (None, api_set_string api ''UnicodeDecodeError'' [] s)) s
      | Some cps \<Rightarrow> py_to ''dynabridge Python string conversion failed'' (new_object (PyStr cps)) s)"

text \<open>
  \<open>PyUnicode_AsUTF8AndSize\<close> fails on surrogates, or for want of memory: \<open>memory\<close> says whether
  there is enough.
\<close>

definition py_string_from ::
    "'w py_api \<Rightarrow> py_platform \<Rightarrow> bool \<Rightarrow> py_value \<Rightarrow> ('w py, bytes option) action" where
  "py_string_from api pf memory v s =
     (case v of
        PyStr cps \<Rightarrow>
          if \<not> memory then (Throw (RuntimeError ''dynabridge Python string conversion failed''),
                            api_set_string api ''MemoryError'' [] s)
          else (case pf_utf8_encode pf cps of
                  None \<Rightarrow> (Return None, py_err_clear api (api_set_string api ''UnicodeEncodeError'' [] s))
                | Some b \<Rightarrow> (Return (Some b), s))
      | _ \<Rightarrow> (Return None, s))"

subsection \<open>Exactness\<close>

lemma err_clear_None: "py_error s = None \<Longrightarrow> py_err_clear api s = s"
  by (simp add: py_err_clear_def py_err_restore_def py_err_fetch_def exc_refs_def py_xdecref_exc_def
      py_xdecref_def)

lemma err_clear_ok:
  assumes "lawful_api api" "py_ok s"
  shows "py_ok (py_err_clear api s) \<and> py_held (py_err_clear api s) = py_held s"
proof -
  obtain old t where f: "py_err_fetch s = (old, t)" by fastforce
  note t = err_fetch_ok [OF assms(2) f]
  have "py_err_clear api s = py_xdecref_exc api old t"
    using f t(3) by (cases t) (simp add: py_err_clear_def py_err_restore_def exc_refs_def)
  then show ?thesis using xdecref_exc_ok [OF assms(1) t(1), of old] t(2) by simp
qed

lemma long_range: "32 \<le> k \<Longrightarrow> 2147483648 \<le> (2 :: int) ^ (k - 1)"
  using power_increasing [of 31 "k - 1" "2 :: int"] by simp

lemma ulong_range: "32 \<le> k \<Longrightarrow> 4294967296 \<le> (2 :: int) ^ k"
  using power_increasing [of 32 k "2 :: int"] by simp

lemma py_int_from_slow:
  assumes "32 \<le> pf_long_bits pf" "py_error s = None" "compact_long_value pf (PyInt n exact) = None"
  shows "py_int_from api pf (PyInt n exact) s =
    (if n < int_min \<or> n > int_max then None else Some (word_of_int n), s)"
  using assms long_range [OF assms(1)]
  by (auto simp: py_int_from_def Let_def err_clear_None int_min_def int_max_def)

lemma compact_value: "compact_long_value pf v = Some n \<Longrightarrow> \<exists>exact. v = PyInt n exact"
  by (auto simp: compact_long_value_def split: py_value.splits option.splits if_splits)

lemma py_int_from_iff:
  assumes "32 \<le> pf_long_bits pf" "py_error s = None" "py_int_from api pf v s = (r, s')"
  shows "s' = s \<and> (r = Some i \<longleftrightarrow> (\<exists>exact. v = PyInt (sint i) exact))"
proof (cases "compact_long_value pf v")
  case None
  show ?thesis
  proof (cases v)
    case (PyInt n exact)
    then show ?thesis
      using py_int_from_slow [OF assms(1,2), of n exact api] None assms(3) int_some_iff [of n i] by auto
  qed (use assms(3) None in \<open>auto simp: py_int_from_def\<close>)
next
  case (Some n)
  then obtain exact where "v = PyInt n exact" by (blast dest: compact_value)
  then show ?thesis
    using assms(3) Some int_some_iff [of n i] by (auto simp: py_int_from_def)
qed

lemma py_unsigned_from_iff:
  assumes "lawful_api api" "32 \<le> pf_long_bits pf" "py_ok s" "py_error s = None"
    and "py_unsigned_from api pf v s = (r, s')"
  shows "py_ok s' \<and> py_held s' = py_held s \<and> (r = Some i \<longleftrightarrow> (\<exists>exact. v = PyInt (uint i) exact))"
proof (cases "compact_long_value pf v")
  case None
  show ?thesis
  proof (cases v)
    case (PyInt n exact)
    let ?big = "n < 0 \<or> n \<ge> 2 ^ pf_long_bits pf"
    obtain x t where l: "long_as_unsigned api pf n s = (x, t)" by fastforce
    have t: "py_ok t" "py_held t = py_held s"
      using l assms(3) lawful_apiD(2) [OF assms(1)] by (auto simp: long_as_unsigned_def quiet_def split: if_splits)
    have e: "py_error t \<noteq> None \<longleftrightarrow> ?big"
      using l lawful_apiD(3) [OF assms(1)] assms(4) by (auto simp: long_as_unsigned_def split: if_splits)
    have big: "n \<noteq> uint i" if ?big
      using that uint_range [of i] ulong_range [OF assms(2)] by (auto simp: unsigned_max_def)
    show ?thesis
    proof (cases ?big)
      case True
      then have "py_error t \<noteq> None" using e by blast
      then have "r = None" "s' = py_err_clear api t"
        using assms(5) None PyInt l by (auto simp: py_unsigned_from_def)
      then show ?thesis using err_clear_ok [OF assms(1) t(1)] t(2) big [OF True] PyInt by auto
    next
      case False
      then have "py_error t = None" "x = n" using e l by (blast, auto simp: long_as_unsigned_def)
      then have "r = (if n < 0 \<or> n > int unsigned_max then None else Some (word_of_int n))" "s' = t"
        using assms(5) None PyInt l False by (auto simp: py_unsigned_from_def split: if_splits)
      then show ?thesis using t unsigned_some_iff [of n i] PyInt by auto
    qed
  qed (use assms(3,5) None in \<open>auto simp: py_unsigned_from_def\<close>)
next
  case (Some n)
  then obtain exact where "v = PyInt n exact" by (blast dest: compact_value)
  then show ?thesis
    using assms(3,5) Some unsigned_some_iff [of n i] by (auto simp: py_unsigned_from_def)
qed


definition sample_platform :: py_platform where
  "sample_platform = \<lparr>pf_compact_bits = Some 30, pf_long_bits = 64,
     pf_utf8_encode = (\<lambda>cps. Some (map of_nat cps)), pf_utf8_decode = (\<lambda>b. Some (map unat b))\<rparr>"


text \<open>
  A failed import leaves its error pending, and the next conversion pays for it. The lookup
  throws a \<open>std::runtime_error\<close> that does not own the Python error, so a program that catches
  it goes on with the error set, and converting the Python value \<open>True\<close>, which is a valid
  \<open>int\<close>, is then refused.
\<close>

theorem python_import_leaves_error:
  assumes "lawful_api api" "py_ok s" "py_error s = None"
    and "py_import_from api module name s = (Throw (RuntimeError m), s')"
  shows "py_error s' \<noteq> None \<and> fst (py_int_from api pf (PyInt 1 False) s') = None"
proof -
  obtain x t where g: "api_getattr api module name s = (x, t)" by fastforce
  then have x: "x = None" "s' = t"
    using assms(4) by (auto simp: py_import_from_def import_attr_def act_bind_def object_ref_make_def
        split: option.splits prod.splits)
  then have "py_error t \<noteq> None" using new_refD [OF lawful_apiD(8) [OF assms(1)] assms(2) g] assms(3) by blast
  then show ?thesis using x by (simp add: py_int_from_def compact_long_value_def Let_def)
qed

definition sample_broken_api :: "nat py_api" where
  "sample_broken_api = sample_api\<lparr>api_getattr := (\<lambda>m n s. (None, sample_fail 7 s))\<rparr>"

lemma sample_broken_lawful: "lawful_api sample_broken_api"
proof -
  have "new_ref (\<lambda>s. (None, sample_fail 7 s))"
    by (simp add: new_ref_def py_own_None sample_fail_ok) (simp add: sample_fail_def)
  then show ?thesis using sample_lawful by (simp add: lawful_api_def sample_broken_api_def)
qed

theorem python_import_leaves_error_witness:
  "case py_import_from sample_broken_api (Some 2) ''missing'' (sample_py {#}) of
     (r, s') \<Rightarrow> r = Throw (RuntimeError ''Python import lookup failed'') \<and>
       fst (py_int_from sample_broken_api sample_platform (PyInt 1 False) s') = None"
proof -
  let ?i = "py_import_from sample_broken_api (Some 2) ''missing'' (sample_py {#})"
  have r: "?i = (Throw (RuntimeError ''Python import lookup failed''), sample_fail 7 (sample_py {#}))"
    by (simp add: py_import_from_def import_attr_def act_bind_def sample_broken_api_def)
  have "py_error (sample_py {#}) = None" by (simp add: sample_py_def)
  from python_import_leaves_error [OF sample_broken_lawful sample_py_ok this r, of sample_platform]
  show ?thesis using r by simp
qed

end
