(* ===== verification/PyExport.thy ===== *)
theory PyExport
  imports PyCall
begin

section \<open>Python calling native code\<close>

text \<open>
  The export side of the Python backend (\<open>dynabridge/backends/python.h\<close>): the callable objects
  and their holders, the boundary that turns C++ exceptions into Python errors, the vectorcall
  entry that constructs instances, and what defines all of this in modules and classes.
\<close>

subsection \<open>The exception boundary\<close>

text \<open>
  The \<open>catch\<close> clauses all holders share; \<open>msg\<close> is the text for an exception that is not a
  \<open>std::exception\<close>. The caught exception is destroyed when its handler is left.
\<close>

definition py_boundary ::
    "'w py_api \<Rightarrow> string \<Rightarrow> ('w py, nat option) action \<Rightarrow> ('w py, nat option) action" where
  "py_boundary api msg body s =
     (case body s of
        (Return x, s1) \<Rightarrow> (Return x, s1)
      | (Abort, s1) \<Rightarrow> (Abort, s1)
      | (Throw e, s1) \<Rightarrow>
          (Return None,
           (case e of
              PythonError m exc \<Rightarrow> python_error_destroy api exc (python_error_restore api exc s1)
            | BadConversion m \<Rightarrow> api_set_string api ''TypeError'' (what e) s1
            | UnknownException \<Rightarrow> api_set_string api ''RuntimeError'' (ascii msg) s1
            | _ \<Rightarrow> api_set_string api ''RuntimeError'' (what e) s1)))"

definition py_refuse :: "'w py_api \<Rightarrow> string \<Rightarrow> ('w py, nat option) action" where
  "py_refuse api msg s = (Return None, api_set_string api ''TypeError'' (ascii msg) s)"

definition return_none :: "'w py_api \<Rightarrow> ('w py, nat option) action" where
  "return_none api s = (Return (Some (api_none api)), py_incref (Some (api_none api)) s)"

definition py_undefined :: "'w py_api \<Rightarrow> ('w py, nat option) action" where
  "py_undefined api = return_none api"

text \<open>Keyword names are given as a tuple, which may be null or empty.\<close>

definition keywords_given :: "nat option \<Rightarrow> bool" where
  "keywords_given kw \<longleftrightarrow> (case kw of None \<Rightarrow> False | Some n \<Rightarrow> n \<noteq> 0)"

subsection \<open>Holders\<close>

text \<open>
  \<open>typed_callable_holder\<close>: one signature of \<open>arity\<close> parameters. The tuple entry may get an object
  that is no tuple (\<open>None\<close>).
\<close>

definition typed_call_indices ::
    "'w py_api \<Rightarrow> bool \<Rightarrow> (nat list \<Rightarrow> ('w py, nat option) action) \<Rightarrow> nat list \<Rightarrow> ('w py, nat option) action" where
  "typed_call_indices api void callee args =
     act_bind (callee args) (\<lambda>x. if void then return_none api else act_return x)"

definition typed_call_signature ::
    "'w py_api \<Rightarrow> nat \<Rightarrow> bool \<Rightarrow> (nat list \<Rightarrow> ('w py, nat option) action) \<Rightarrow> nat list option \<Rightarrow>
     ('w py, nat option) action" where
  "typed_call_signature api arity void callee args =
     (let actual = (case args of None \<Rightarrow> -1 | Some xs \<Rightarrow> int (length xs)) in
      if actual \<noteq> int arity then py_refuse api ''dynabridge Python callback received wrong arity''
      else py_boundary api ''dynabridge Python callback failed''
        (typed_call_indices api void callee (the args)))"

definition typed_call_vector_signature ::
    "'w py_api \<Rightarrow> nat \<Rightarrow> bool \<Rightarrow> (nat list \<Rightarrow> ('w py, nat option) action) \<Rightarrow> nat list \<Rightarrow> nat option \<Rightarrow>
     ('w py, nat option) action" where
  "typed_call_vector_signature api arity void callee args kw =
     (if keywords_given kw
      then py_refuse api ''dynabridge Python callback does not accept keyword arguments''
      else if length args \<noteq> arity
      then py_refuse api ''dynabridge Python callback received wrong arity''
      else py_boundary api ''dynabridge Python callback failed''
        (typed_call_indices api void callee args))"

text \<open>
  \<open>overload_callable_holder\<close>: \<open>dispatch\<close> is the binder's \<open>dispatch_optional\<close>, whose empty result
  says that no signature matches.
\<close>

definition overload_result ::
    "'w py_api \<Rightarrow> (nat list \<Rightarrow> ('w py, nat option option) action) \<Rightarrow> nat list \<Rightarrow> ('w py, nat option) action" where
  "overload_result api dispatch args =
     act_bind (dispatch args) (\<lambda>result. case result of
         None \<Rightarrow> py_refuse api ''dynabridge Python overload has no matching signature''
       | Some x \<Rightarrow> act_return x)"

definition overload_call_tuple ::
    "'w py_api \<Rightarrow> (nat list \<Rightarrow> ('w py, nat option option) action) \<Rightarrow> nat list option \<Rightarrow>
     ('w py, nat option) action" where
  "overload_call_tuple api dispatch args =
     (case args of
        None \<Rightarrow> py_refuse api ''dynabridge Python callback expected tuple arguments''
      | Some xs \<Rightarrow> py_boundary api ''dynabridge Python overload callback failed'' (overload_result api dispatch xs))"

definition overload_call_vector ::
    "'w py_api \<Rightarrow> (nat list \<Rightarrow> ('w py, nat option option) action) \<Rightarrow> nat list \<Rightarrow> nat option \<Rightarrow>
     ('w py, nat option) action" where
  "overload_call_vector api dispatch args kw =
     (if keywords_given kw
      then py_refuse api ''dynabridge Python callback does not accept keyword arguments''
      else py_boundary api ''dynabridge Python overload callback failed'' (overload_result api dispatch args))"

text \<open>
  \<open>class_constructor_holder\<close>: \<open>target\<close> looks the class up in the registry, \<open>construct\<close> is the
  constructor invoker on the receiver and the other arguments.
\<close>

definition construct_instance ::
    "'w py_api \<Rightarrow> ('w py, nat) action \<Rightarrow> (nat \<Rightarrow> nat list \<Rightarrow> ('w py, unit) action) \<Rightarrow> nat option \<Rightarrow> nat list \<Rightarrow>
     ('w py, nat option) action" where
  "construct_instance api target construct self args =
     py_boundary api ''dynabridge Python constructor failed''
       (act_bind target (\<lambda>type s.
          if self = None \<or> \<not> api_type_check api type self s
          then py_refuse api ''dynabridge Python constructor received incompatible self'' s
          else act_bind (construct (the self) args) (\<lambda>_. return_none api) s))"

definition construct_tuple ::
    "'w py_api \<Rightarrow> nat \<Rightarrow> ('w py, nat) action \<Rightarrow> (nat \<Rightarrow> nat list \<Rightarrow> ('w py, unit) action) \<Rightarrow> nat list option \<Rightarrow>
     ('w py, nat option) action" where
  "construct_tuple api arity target construct args =
     (let actual = (case args of None \<Rightarrow> -1 | Some xs \<Rightarrow> int (length xs)) in
      if actual \<noteq> int arity + 1 then py_refuse api ''dynabridge Python constructor received wrong arity''
      else construct_instance api target construct (Some (hd (the args))) (tl (the args)))"

definition construct_vector ::
    "'w py_api \<Rightarrow> nat \<Rightarrow> ('w py, nat) action \<Rightarrow> (nat \<Rightarrow> nat list \<Rightarrow> ('w py, unit) action) \<Rightarrow> nat list \<Rightarrow>
     nat option \<Rightarrow> ('w py, nat option) action" where
  "construct_vector api arity target construct args kw =
     (if keywords_given kw
      then py_refuse api ''dynabridge Python constructor does not accept keyword arguments''
      else if length args \<noteq> arity + 1
      then py_refuse api ''dynabridge Python constructor received wrong arity''
      else construct_instance api target construct (Some (hd args)) (tl args))"

subsection \<open>Calling a class\<close>

text \<open>
  \<open>export_type_vectorcall\<close>. The memory it touches: the word before the caller's argument array,
  which it may borrow for the receiver, and the argument buffers it has allocated.
\<close>

record call_frame =
  cf_before :: "nat option"
  cf_buffers :: nat

definition local_args :: nat where "local_args = 8"

definition prepare_args ::
    "bool \<Rightarrow> bool \<Rightarrow> nat \<Rightarrow> nat list \<Rightarrow> call_frame \<Rightarrow> nat list option \<times> call_frame" where
  "prepare_args offset memory self args fr =
     (if offset then (Some (self # args), fr\<lparr>cf_before := Some self\<rparr>)
      else if length args + 1 \<le> local_args then (Some (self # args), fr)
      else if memory then (Some (self # args), fr\<lparr>cf_buffers := cf_buffers fr + 1\<rparr>)
      else (None, fr))"

definition restore_args :: "bool \<Rightarrow> nat option \<Rightarrow> nat list \<Rightarrow> call_frame \<Rightarrow> call_frame" where
  "restore_args offset saved args fr =
     (if offset then fr\<lparr>cf_before := saved\<rparr>
      else if length args + 1 \<le> local_args then fr
      else fr\<lparr>cf_buffers := cf_buffers fr - 1\<rparr>)"

definition export_type_vectorcall ::
    "'w py_api \<Rightarrow> bool \<Rightarrow> (nat list \<Rightarrow> nat option \<Rightarrow> ('w py, nat option) action) \<Rightarrow> nat \<Rightarrow> bool \<Rightarrow> bool \<Rightarrow>
     nat list \<Rightarrow> nat option \<Rightarrow> call_frame \<times> 'w py \<Rightarrow> nat option \<times> call_frame \<times> 'w py" where
  "export_type_vectorcall api has_constructor invoke type offset memory args kw st =
     (case st of (fr, s) \<Rightarrow>
        if \<not> has_constructor then (None, fr, api_set_string api ''TypeError''
          (ascii ''dynabridge Python export class has no bridge constructor'') s)
        else (case api_type_alloc api type s of
            (None, s1) \<Rightarrow> (None, fr, s1)
          | (Some self, s1) \<Rightarrow>
              let s2 = py_own (Some self) s1 in
              (case prepare_args offset memory self args fr of
                 (None, fr1) \<Rightarrow> (None, fr1,
                    api_set_string api ''MemoryError'' [] (py_decref api (Some self) s2))
               | (Some call_args, fr1) \<Rightarrow>
                   (case invoke call_args kw s2 of
                      (Return (Some x), s3) \<Rightarrow>
                        (Some self, restore_args offset (cf_before fr) args fr1, py_decref api (Some x) s3)
                    | (_, s3) \<Rightarrow>
                        (None, restore_args offset (cf_before fr) args fr1, py_decref api (Some self) s3)))))"

subsection \<open>Callable objects\<close>

text \<open>\<open>callable_type\<close>: the type is readied once; \<open>ready_ok\<close> says whether \<open>PyType_Ready\<close> succeeds.\<close>

definition callable_type :: "nat \<Rightarrow> bool \<Rightarrow> bool \<Rightarrow> nat option \<times> bool" where
  "callable_type type ready_ok ready =
     (if ready then (Some type, True) else if ready_ok then (Some type, True) else (None, False))"

text \<open>
  \<open>make_callable_object\<close> either hands the holder to a new object or destroys it: the second
  result counts destructions.
\<close>

definition make_callable_object ::
    "'w py_api \<Rightarrow> nat option \<Rightarrow> 'w py \<Rightarrow> (nat option \<times> nat) \<times> 'w py" where
  "make_callable_object api type s =
     (case type of
        None \<Rightarrow> ((None, 1), s)
      | Some t \<Rightarrow> (case api_type_alloc api t s of
            (None, s1) \<Rightarrow> ((None, 1), s1)
          | (Some x, s1) \<Rightarrow> ((Some x, 0), py_own (Some x) s1)))"

definition make_callable :: "'w py_api \<Rightarrow> nat option \<Rightarrow> ('w py, nat option) action" where
  "make_callable api type s = (case make_callable_object api type s of ((x, _), s') \<Rightarrow> (Return x, s'))"

text \<open>The slots of a callable object: a call by tuple, binding as a descriptor, deallocation.\<close>

definition callable_call ::
    "'w py_api \<Rightarrow> (nat list option \<Rightarrow> ('w py, nat option) action) \<Rightarrow> nat list option \<Rightarrow> nat option \<Rightarrow>
     ('w py, nat option) action" where
  "callable_call api invoke_tuple args kwargs =
     (if keywords_given kwargs
      then py_refuse api ''dynabridge Python callback does not accept keyword arguments''
      else invoke_tuple args)"

definition callable_descr_get ::
    "'w py_api \<Rightarrow> (nat \<Rightarrow> nat \<Rightarrow> 'w py \<Rightarrow> nat option \<times> 'w py) \<Rightarrow> nat \<Rightarrow> nat option \<Rightarrow> ('w py, nat option) action" where
  "callable_descr_get api method_new self object s =
     (if object = None \<or> object = Some (api_none api) then (Return (Some self), py_incref (Some self) s)
      else case method_new self (the object) s of (x, s') \<Rightarrow> (Return x, py_own x s'))"

definition callable_dealloc :: "bool \<Rightarrow> nat" where
  "callable_dealloc has_holder = (if has_holder then 1 else 0)"

subsection \<open>Definitions in modules and classes\<close>

definition module_define ::
    "'w py_api \<Rightarrow> nat option \<Rightarrow> string \<Rightarrow> nat option \<Rightarrow> ('w py, unit) action" where
  "module_define api module name value s =
     (case api_module_add api module name value s of
        (True, s1) \<Rightarrow> (Return (), py_give value s1)
      | (False, s1) \<Rightarrow> (Throw (RuntimeError ''PyModule_AddObject failed''), py_xdecref api value s1))"

definition class_define ::
    "'w py_api \<Rightarrow> nat option \<Rightarrow> string \<Rightarrow> nat option \<Rightarrow> ('w py, unit) action" where
  "class_define api type name value s =
     (case api_set_attr api type name value s of
        (True, s1) \<Rightarrow> (Return (), py_decref api value s1)
      | (False, s1) \<Rightarrow> (Throw (RuntimeError ''PyObject_SetAttrString failed''), py_xdecref api value s1))"

definition py_define ::
    "(nat option \<Rightarrow> ('w py, unit) action) \<Rightarrow> 'w py_api \<Rightarrow> nat option \<Rightarrow> ('w py, unit) action" where
  "py_define target_define api type = act_bind (make_callable api type) target_define"

text \<open>
  \<open>define_class_impl\<close> keeps one reference to the new type and gives one to the module. The
  type's instances have room for the object head, the native object and its alignment.
\<close>

definition define_class ::
    "'w py_api \<Rightarrow> nat option \<Rightarrow> string \<Rightarrow> nat \<Rightarrow> ('w py, nat option) action" where
  "define_class api module name basicsize s =
     (case api_type_from_spec api name basicsize s of
        (None, s1) \<Rightarrow> (Throw (RuntimeError ''creating Python export extension type failed''), s1)
      | (Some t, s1) \<Rightarrow>
          (case module_define api module name (Some t) (py_incref (Some t) (py_own (Some t) s1)) of
             (Return _, s2) \<Rightarrow> (Return (Some t), s2)
           | (Throw e, s2) \<Rightarrow> (Throw e, py_decref api (Some t) s2)
           | (Abort, s2) \<Rightarrow> (Abort, py_decref api (Some t) s2)))"

definition constructor_attr_name :: string where
  "constructor_attr_name = ''__dynabridge_constructor__''"

definition define_constructor ::
    "'w py_api \<Rightarrow> nat option \<Rightarrow> nat option \<Rightarrow> ('w py, unit) action" where
  "define_constructor api callable_ty target =
     act_bind (make_callable api callable_ty) (\<lambda>constructor s.
       case class_define api target ''__init__'' constructor (py_incref constructor s) of
         (Return _, s1) \<Rightarrow> class_define api target constructor_attr_name constructor s1
       | (Throw e, s1) \<Rightarrow> (Throw e, py_xdecref api constructor s1)
       | (Abort, s1) \<Rightarrow> (Abort, py_xdecref api constructor s1))"

text \<open>
  \<open>make_export_object_impl\<close> creates an instance and builds the native object in it;
  \<open>construct\<close> is \<open>construct_export_object_impl\<close>, whose \<open>object_ref\<close> takes a reference of its own.
\<close>

definition make_export_object ::
    "'w py_api \<Rightarrow> ('w py, nat) action \<Rightarrow> (nat \<Rightarrow> ('w py, unit) action) \<Rightarrow> ('w py, nat option) action" where
  "make_export_object api target construct =
     act_bind target (\<lambda>type s.
       case api_type_alloc api type s of
         (None, s1) \<Rightarrow> (Throw (RuntimeError ''PyType_GenericNew failed''), s1)
       | (Some self, s1) \<Rightarrow> guarded api (Some self)
           (act_bind (construct self) (\<lambda>_ s. case object_ref_make (Some self) False s of
              (object, s') \<Rightarrow> (Return object, s')))
           (py_own (Some self) s1))"

definition define_export_instance ::
    "'w py_api \<Rightarrow> nat option \<Rightarrow> string \<Rightarrow> nat option \<Rightarrow> ('w py, unit) action" where
  "define_export_instance api module name object =
     module_define api module name (fst (object_ref_release object))"

text \<open>\<open>export_instance\<close> of \<open>dynabridge/export_core.h\<close>.\<close>

definition export_instance ::
    "'w py_api \<Rightarrow> ('w py, nat) action \<Rightarrow> (nat \<Rightarrow> ('w py, unit) action) \<Rightarrow> nat option \<Rightarrow> string \<Rightarrow>
     ('w py, unit) action" where
  "export_instance api target construct module name =
     act_bind (make_export_object api target construct) (define_export_instance api module name)"

text \<open>
  \<open>bind_export_object_impl\<close> and \<open>try_bind_export_object_impl\<close> borrow the object; a foreign one
  binds to null, or not at all.
\<close>

definition bind_export_object ::
    "'w py_api \<Rightarrow> ('w py, nat) action \<Rightarrow> nat option \<Rightarrow> ('w py, nat option) action" where
  "bind_export_object api target self =
     act_bind target (\<lambda>type s.
       (Return (if self = None \<or> \<not> api_type_check api type self s then None else self), s))"

definition try_bind_export_object ::
    "'w py_api \<Rightarrow> ('w py, nat) action \<Rightarrow> nat option \<Rightarrow> ('w py, nat option) action" where
  "try_bind_export_object api target value =
     (case value of
        None \<Rightarrow> act_return None
      | Some x \<Rightarrow> act_bind target (\<lambda>type s.
          (Return (if \<not> api_type_check api type value s then None else Some x), s)))"

subsection \<open>The callback protocol\<close>

text \<open>
  The C API asks finalizers to leave the pending error alone. Under that promise releasing a
  reference never changes it.
\<close>

definition keeps_errors :: "'w py_api \<Rightarrow> bool" where
  "keeps_errors api \<longleftrightarrow> (\<forall>x s. py_error (api_dealloc api x s) = py_error s)"

lemma drop_keeps: "keeps_errors api \<Longrightarrow> py_error (py_drop api x s) = py_error s"
  by (simp add: keeps_errors_def py_drop_def py_unref_def Let_def)

lemma decref_keeps: "keeps_errors api \<Longrightarrow> py_error (py_decref api r s) = py_error s"
  by (cases r) (simp_all add: py_decref_def drop_keeps)

lemma xdecref_keeps: "keeps_errors api \<Longrightarrow> py_error (py_xdecref api r s) = py_error s"
  by (cases r) (simp_all add: py_xdecref_def drop_keeps)

lemma xdecref_exc_keeps: "keeps_errors api \<Longrightarrow> py_error (py_xdecref_exc api exc s) = py_error s"
  by (cases exc) (simp add: py_xdecref_exc_def xdecref_keeps)

lemma restore_keeps:
  assumes "keeps_errors api" "fst exc \<noteq> None"
  shows "py_error (python_error_restore api exc s) = Some exc"
proof -
  obtain old t where f: "py_err_fetch (snd (python_error_copy exc s)) = (old, t)" by fastforce
  then show ?thesis
    using assms by (simp add: python_error_restore_def py_err_restore_def xdecref_exc_keeps)
qed

lemma decref_args_keeps: "keeps_errors api \<Longrightarrow> py_error (decref_args api args s) = py_error s"
proof (induction args arbitrary: s)
  case (Cons a args)
  then show ?case by (cases a) (simp_all add: decref_args_def xdecref_keeps)
qed (simp add: decref_args_def)

lemma drop_guards_keeps: "keeps_errors api \<Longrightarrow> py_error (drop_guards api args s) = py_error s"
proof (induction args arbitrary: s)
  case (Cons a args)
  then show ?case by (cases a) (simp_all add: drop_guards_def object_ref_destroy_def xdecref_keeps)
qed (simp add: drop_guards_def)

text \<open>
  Native code that runs inside a callback: it starts without a pending error, consumes \<open>U\<close>,
  returns without one, and a Python error it throws has a type. A body may also return null
  with an error set.
\<close>

definition throws_typed :: "cpp_exn \<Rightarrow> bool" where
  "throws_typed e \<longleftrightarrow> (case e of PythonError m exc \<Rightarrow> fst exc \<noteq> None | _ \<Rightarrow> True)"

definition native_body :: "nat multiset \<Rightarrow> ('w py, 'a) action \<Rightarrow> ('a \<Rightarrow> nat multiset) \<Rightarrow> bool" where
  "native_body U f V \<longleftrightarrow> owns U f V \<and> (\<forall>s. py_ok s \<longrightarrow> U \<subseteq># py_held s \<longrightarrow> py_error s = None \<longrightarrow>
     (case fst (f s) of Return x \<Rightarrow> py_error (snd (f s)) = None | Throw e \<Rightarrow> throws_typed e | Abort \<Rightarrow> False))"

definition callback_body :: "nat multiset \<Rightarrow> ('w py, nat option) action \<Rightarrow> bool" where
  "callback_body U f \<longleftrightarrow> owns U f opt_mset \<and> (\<forall>s. py_ok s \<longrightarrow> U \<subseteq># py_held s \<longrightarrow> py_error s = None \<longrightarrow>
     (case fst (f s) of Return x \<Rightarrow> (x = None \<longleftrightarrow> py_error (snd (f s)) \<noteq> None)
      | Throw e \<Rightarrow> throws_typed e | Abort \<Rightarrow> False))"

text \<open>What the interpreter relies on: a new reference, or null and an error, and no exception.\<close>

definition entry_ok :: "('w py, nat option) action \<Rightarrow> bool" where
  "entry_ok f \<longleftrightarrow> (\<forall>s. py_ok s \<longrightarrow> py_error s = None \<longrightarrow>
     (\<exists>x s'. f s = (Return x, s') \<and> py_ok s' \<and> py_held s' = py_held s + opt_mset x \<and>
        (x = None \<longleftrightarrow> py_error s' \<noteq> None)))"

lemma body_bind:
  assumes "native_body U f V" "\<And>x. callback_body (V x) (g x)"
  shows "callback_body U (act_bind f g)"
proof -
  have "owns U (act_bind f g) opt_mset"
    using assms by (intro owns_bind [of U f V]) (simp_all add: native_body_def callback_body_def)
  moreover have "case fst (act_bind f g s) of Return x \<Rightarrow> (x = None \<longleftrightarrow> py_error (snd (act_bind f g s)) \<noteq> None)
      | Throw e \<Rightarrow> throws_typed e | Abort \<Rightarrow> False"
    if s: "py_ok s" "U \<subseteq># py_held s" "py_error s = None" for s
  proof -
    obtain a t where f: "f s = (a, t)" by fastforce
    have o: "owns U f V" using assms(1) by (simp add: native_body_def)
    have t: "py_ok t" "py_held t = py_held s - U + outcome_refs V a" using ownsD [OF o s(1,2) f] by simp_all
    have st: "case a of Return x \<Rightarrow> py_error t = None | Throw e \<Rightarrow> throws_typed e | Abort \<Rightarrow> False"
      using assms(1) s f by (cases a) (auto simp: native_body_def dest!: spec [of _ s])
    show ?thesis
    proof (cases a)
      case (Return x)
      then have "V x \<subseteq># py_held t" "py_error t = None" using t(2) st by simp_all
      moreover have eq: "act_bind f g s = g x t" using f Return by (simp add: act_bind_step)
      ultimately show ?thesis
        using assms(2) [of x] t(1) unfolding eq by (simp add: callback_body_def)
    qed (use f st in \<open>simp_all add: act_bind_step\<close>)
  qed
  ultimately show ?thesis by (simp add: callback_body_def)
qed

lemma body_return: "x \<noteq> None \<Longrightarrow> callback_body (opt_mset x) (act_return x)"
  using owns_return [of opt_mset x] by (simp add: callback_body_def) (simp add: act_return_def)

lemma body_refuse:
  assumes "lawful_api api"
  shows "callback_body {#} (py_refuse api msg)"
proof -
  have "owns {#} (py_refuse api msg) opt_mset"
  proof (rule ownsI)
    fix s r s'
    assume "py_ok s" "py_refuse api msg s = (r, s')"
    then show "py_ok s' \<and> py_held s' = py_held s - {#} + outcome_refs opt_mset r"
      using lawful_apiD(2) [OF assms, of "''TypeError''" "ascii msg"]
      by (auto simp: py_refuse_def quiet_def)
  qed
  then show ?thesis
    using lawful_apiD(3) [OF assms] by (simp add: callback_body_def) (simp add: py_refuse_def)
qed

lemma body_none: "callback_body {#} (return_none api)"
proof -
  have eq: "return_none api s = (Return (Some (api_none api)), py_xincref (Some (api_none api)) s)" for s
    by (simp add: return_none_def py_incref_def py_xincref_def)
  have "owns {#} (return_none api) opt_mset"
    by (rule ownsI) (auto simp: eq bump_ok)
  then show ?thesis by (simp add: callback_body_def eq bump_ok)
qed

lemma entry_body:
  fixes f :: "('w py, nat option) action"
  assumes "callback_body {#} f" "\<And>s e. fst (f s) \<noteq> Throw e"
  shows "entry_ok f"
  unfolding entry_ok_def
proof (intro allI impI)
  fix s :: "'w py"
  assume s: "py_ok s" "py_error s = None"
  obtain r s' where f: "f s = (r, s')" by fastforce
  have o: "owns {#} f opt_mset" using assms(1) by (simp add: callback_body_def)
  have s': "py_ok s'" "py_held s' = py_held s + outcome_refs opt_mset r" using ownsD [OF o s(1) _ f] by simp_all
  have "case r of Return x \<Rightarrow> (x = None \<longleftrightarrow> py_error s' \<noteq> None) | Throw e \<Rightarrow> throws_typed e | Abort \<Rightarrow> False"
    using assms(1) s f by (cases r) (auto simp: callback_body_def dest!: spec [of _ s])
  then show "\<exists>x s'. f s = (Return x, s') \<and> py_ok s' \<and> py_held s' = py_held s + opt_mset x \<and>
      (x = None \<longleftrightarrow> py_error s' \<noteq> None)"
    using f s' assms(2) [of s] by (cases r) auto
qed

lemma entry_refuse: "lawful_api api \<Longrightarrow> entry_ok (py_refuse api msg)"
  by (rule entry_body [OF body_refuse]) (simp_all add: py_refuse_def)

lemma entry_boundary:
  fixes body :: "('w py, nat option) action"
  assumes api: "lawful_api api" and keeps: "keeps_errors api" and body: "callback_body {#} body"
  shows "entry_ok (py_boundary api msg body)"
  unfolding entry_ok_def
proof (intro allI impI)
  fix s :: "'w py"
  assume s: "py_ok s" "py_error s = None"
  obtain r s1 where f: "body s = (r, s1)" by fastforce
  have o: "owns {#} body opt_mset" using body by (simp add: callback_body_def)
  have s1: "py_ok s1" "py_held s1 = py_held s + outcome_refs opt_mset r" using ownsD [OF o s(1) _ f] by simp_all
  have st: "case r of Return x \<Rightarrow> (x = None \<longleftrightarrow> py_error s1 \<noteq> None) | Throw e \<Rightarrow> throws_typed e | Abort \<Rightarrow> False"
    using body s f by (cases r) (auto simp: callback_body_def dest!: spec [of _ s])
  have string: "py_ok (api_set_string api c m s1) \<and> py_held (api_set_string api c m s1) = py_held s1 \<and>
      py_error (api_set_string api c m s1) \<noteq> None" for c m
    using lawful_apiD(2,3) [OF api] s1(1) by (simp add: quiet_def)
  show "\<exists>x s'. py_boundary api msg body s = (Return x, s') \<and> py_ok s' \<and> py_held s' = py_held s + opt_mset x \<and>
      (x = None \<longleftrightarrow> py_error s' \<noteq> None)"
  proof (cases r)
    case (Return x)
    then show ?thesis using f s1 st by (simp add: py_boundary_def)
  next
    case (Throw e)
    show ?thesis
    proof (cases "\<exists>m exc. e = PythonError m exc")
      case True
      then obtain m exc where e: "e = PythonError m exc" by blast
      let ?t = "python_error_restore api exc s1"
      have typed: "fst exc \<noteq> None" using st Throw e by (simp add: throws_typed_def)
      have t: "py_ok ?t" "py_held ?t = py_held s1" "py_error ?t = Some exc"
        using error_restore_ok(1,2) [OF api s1(1) typed] restore_keeps [OF keeps typed] by simp_all
      have sub: "exc_refs exc \<subseteq># py_held ?t" using t(2) s1(2) Throw e by simp
      have "py_error (python_error_destroy api exc ?t) = Some exc"
        using xdecref_exc_keeps [OF keeps] t(3) by (simp add: python_error_destroy_def)
      then show ?thesis
        using error_destroy_ok [OF api t(1) sub] t(2) s1(2) Throw e f
        by (cases exc) (simp add: py_boundary_def)
    next
      case False
      then have "outcome_refs opt_mset (Throw e) = {#}"
        by (auto simp: outcome_refs_def split: cpp_exn.splits)
      moreover obtain c m where "py_boundary api msg body s = (Return None, api_set_string api c m s1)"
      proof (cases e)
        case (PythonError m exc)
        then show ?thesis using False by blast
      qed (use f Throw that in \<open>auto simp: py_boundary_def\<close>)
      ultimately show ?thesis using Throw s1(2) string by simp
    qed
  next
    case Abort
    then show ?thesis using st by simp
  qed
qed

text \<open>The result of the boundary when a Python error comes out of the body.\<close>

lemma boundary_python_error:
  assumes "keeps_errors api" "fst exc \<noteq> None" "body s = (Throw (PythonError m exc), s1)"
  shows "fst (py_boundary api msg body s) = Return None"
    "py_error (snd (py_boundary api msg body s)) = Some exc"
  using assms restore_keeps [OF assms(1,2)] xdecref_exc_keeps [OF assms(1)]
  by (simp_all add: py_boundary_def python_error_destroy_def)


lemma body_if:
  "callback_body U f \<Longrightarrow> callback_body U g \<Longrightarrow> callback_body U (\<lambda>s. if P s then f s else g s)"
  by (simp add: callback_body_def owns_def)

text \<open>What the holders ask of the binders and of the constructor they wrap.\<close>

definition typed_binder :: "bool \<Rightarrow> (nat list \<Rightarrow> ('w py, nat option) action) \<Rightarrow> bool" where
  "typed_binder void callee \<longleftrightarrow> (\<forall>args.
     native_body {#} (callee args) (\<lambda>x. if void then {#} else opt_mset x) \<and>
     (\<forall>s. \<not> void \<longrightarrow> fst (callee args s) \<noteq> Return None))"

definition overload_binder :: "(nat list \<Rightarrow> ('w py, nat option option) action) \<Rightarrow> bool" where
  "overload_binder dispatch \<longleftrightarrow> (\<forall>args.
     native_body {#} (dispatch args) (\<lambda>r. case r of None \<Rightarrow> {#} | Some x \<Rightarrow> opt_mset x) \<and>
     (\<forall>s. fst (dispatch args s) \<noteq> Return (Some None)))"

lemma body_bind_value:
  fixes f :: "('w py, 'a) action" and g :: "'a \<Rightarrow> ('w py, nat option) action"
    and h :: "('w py, nat option) action"
  assumes "native_body U f V" "\<And>s. fst (f s) \<noteq> Return bad"
    and "\<And>x. x \<noteq> bad \<Longrightarrow> callback_body (V x) (g x)" "callback_body (V bad) h"
  shows "callback_body U (act_bind f g)"
proof -
  let ?g = "\<lambda>x. if x = bad then h else g x"
  have eq: "act_bind f g = act_bind f ?g"
  proof
    fix s
    show "act_bind f g s = act_bind f ?g s"
      using assms(2) [of s] by (cases "f s") (auto simp: act_bind_def split: outcome.splits)
  qed
  have "callback_body U (act_bind f ?g)"
    by (rule body_bind [OF assms(1)]) (use assms(3,4) in auto)
  then show ?thesis by (simp only: eq)
qed

lemma body_typed:
  assumes "typed_binder void callee"
  shows "callback_body {#} (typed_call_indices api void callee args)"
proof (cases void)
  case True
  then have "native_body {#} (callee args) (\<lambda>_. {#})" using assms by (simp add: typed_binder_def)
  then show ?thesis
    unfolding typed_call_indices_def by (rule body_bind) (simp add: True body_none)
next
  case False
  then have n: "native_body {#} (callee args) opt_mset" "\<And>s. fst (callee args s) \<noteq> Return None"
    using assms by (simp_all add: typed_binder_def)
  have "callback_body {#} (act_bind (callee args) act_return)"
    by (rule body_bind_value [OF n, where h = "return_none api"]) (simp_all add: body_return body_none)
  then show ?thesis using False by (simp add: typed_call_indices_def)
qed

lemma body_overload:
  assumes "lawful_api api" "overload_binder dispatch"
  shows "callback_body {#} (overload_result api dispatch args)"
  unfolding overload_result_def
proof (rule body_bind_value [where bad = "Some None" and h = "return_none api"])
  show "native_body {#} (dispatch args) (\<lambda>r. case r of None \<Rightarrow> {#} | Some x \<Rightarrow> opt_mset x)"
    "\<And>s. fst (dispatch args s) \<noteq> Return (Some None)"
    using assms(2) by (simp_all add: overload_binder_def)
  show "callback_body (case Some None of None \<Rightarrow> {#} | Some x \<Rightarrow> opt_mset x) (return_none api)"
    by (simp add: body_none)
  fix r :: "nat option option"
  assume "r \<noteq> Some None"
  then show "callback_body (case r of None \<Rightarrow> {#} | Some x \<Rightarrow> opt_mset x)
      (case r of None \<Rightarrow> py_refuse api ''dynabridge Python overload has no matching signature''
       | Some x \<Rightarrow> act_return x)"
    using body_return body_refuse [OF assms(1)] by (cases r) auto
qed

lemma body_construct:
  assumes "lawful_api api" "native_body {#} target (\<lambda>_. {#})"
    and "\<And>self args. native_body {#} (construct self args) (\<lambda>_. {#})"
  shows "callback_body {#} (act_bind target (\<lambda>type s.
     if self = None \<or> \<not> api_type_check api type self s then py_refuse api msg s
     else act_bind (construct (the self) args) (\<lambda>_. return_none api) s))"
proof (rule body_bind [OF assms(2)])
  fix type
  have "callback_body {#} (act_bind (construct (the self) args) (\<lambda>_. return_none api))"
    by (rule body_bind [OF assms(3)]) (rule body_none)
  then show "callback_body {#} (\<lambda>s. if self = None \<or> \<not> api_type_check api type self s then py_refuse api msg s
     else act_bind (construct (the self) args) (\<lambda>_. return_none api) s)"
    by (intro body_if body_refuse assms(1))
qed

lemma entry_construct:
  assumes "lawful_api api" "keeps_errors api" "native_body {#} target (\<lambda>_. {#})"
    and "\<And>self args. native_body {#} (construct self args) (\<lambda>_. {#})"
  shows "entry_ok (construct_instance api target construct self args)"
  unfolding construct_instance_def
  by (intro entry_boundary assms body_construct)

lemma entry_construct_vector:
  assumes "lawful_api api" "keeps_errors api" "native_body {#} target (\<lambda>_. {#})"
    and "\<And>self args. native_body {#} (construct self args) (\<lambda>_. {#})"
  shows "entry_ok (construct_vector api arity target construct args kw)"
  using entry_refuse [OF assms(1)] entry_construct [OF assms]
  by (simp add: construct_vector_def)


subsection \<open>Errors and construction\<close>

definition sample_kept_api :: "nat py_api" where
  "sample_kept_api = sample_api\<lparr>api_dealloc := (\<lambda>x s. s\<lparr>py_world := py_world s + 1\<rparr>)\<rparr>"

lemma sample_kept: "lawful_api sample_kept_api" "keeps_errors sample_kept_api"
proof -
  have "quiet (\<lambda>s :: nat py. s\<lparr>py_world := py_world s + 1\<rparr>)"
    by (simp add: quiet_def py_ok_def error_refs_def)
  then show "lawful_api sample_kept_api"
    using sample_lawful by (simp add: lawful_api_def sample_kept_api_def)
  show "keeps_errors sample_kept_api" by (simp add: keeps_errors_def sample_kept_api_def)
qed

lemma sample_arg_body: "native_body {#} (sample_arg x) opt_mset"
  using sample_arg_lowers [of x]
  by (simp add: native_body_def lowers_def) (simp add: sample_arg_def sample_new_def py_own_def)

lemma body_pure: "V x = {#} \<Longrightarrow> native_body {#} (act_return x) V"
  using owns_return [of V x] by (simp add: native_body_def) (simp add: act_return_def)


text \<open>
  C29: a Python error crosses C++ unchanged. When an exported function calls a Python callable
  that raises, and the native code lets the exception pass, Python sees the original exception
  (type, value and traceback), not a translation of it.
\<close>

theorem python_error_round_trip:
  assumes "lawful_api api" "keeps_errors api" "evaluation_order order" "\<forall>i < n. lowers (to i)" "py_ok s"
    and "lower_args api (order n) to (replicate n (GuardArg None)) s = (Return lowered, s0)"
    and "api_vectorcall api c (map call_arg_value lowered) s0 = (None, s1)" "py_error s1 = Some exc"
    and "callee args = act_bind (py_invoke api True order msg convert (Some c) to n) rest"
  shows "fst (typed_call_vector_signature api (length args) void callee args None s) = Return None \<and>
    py_error (snd (typed_call_vector_signature api (length args) void callee args None s)) = Some exc"
proof -
  note l = lower_all_ok [OF assms(1,3,4,5,6)]
  have "None \<notin> call_arg_value ` set lowered" using l(3) [OF refl] by blast
  then have "new_ref (api_vectorcall api c (map call_arg_value lowered))"
    using lawful_apiD(4) [OF assms(1)] by simp
  from new_refD [OF this l(1) assms(7)] have "py_ok s1" by (simp add: py_own_None)
  then have typed: "fst exc \<noteq> None" using assms(8) by (simp add: py_ok_def)
  obtain t where "py_invoke api True order msg convert (Some c) to n s =
      (Throw (PythonError ''Python callable returned null'' exc), t)"
    using py_invoke_error [OF assms(1,3-8), of msg convert] by (metis prod.collapse)
  then have "typed_call_indices api void callee args s =
      (Throw (PythonError ''Python callable returned null'' exc), t)"
    using assms(9) by (simp add: typed_call_indices_def act_bind_step)
  from boundary_python_error [OF assms(2) typed, of "typed_call_indices api void callee args" s, OF this]
  show ?thesis by (simp add: typed_call_vector_signature_def keywords_given_def)
qed

theorem python_error_round_trip_witness:
  "py_error (snd (typed_call_vector_signature sample_kept_api 1 False
     (\<lambda>args. act_bind (py_invoke sample_kept_api True (\<lambda>n. rev [0..<n]) ''call'' (\<lambda>x. act_return ())
        (Some 5) sample_arg 2) (\<lambda>_. sample_arg 12)) [1] None (sample_py {#}))) = Some (Some 6, None, None)"
proof -
  let ?order = "\<lambda>n. rev [0..<n]"
  obtain lowered s0 where l: "lower_args sample_kept_api (?order 2) sample_arg (replicate 2 (GuardArg None))
      (sample_py {#}) = (Return lowered, s0)"
    by (simp add: sample_arg_def sample_new_def upt_rec eval_nat_numeral)
  have v: "api_vectorcall sample_kept_api 5 (map call_arg_value lowered) s0 = (None, sample_fail 6 s0)"
    by (simp add: sample_kept_api_def sample_api_def sample_call_def)
  have e: "py_error (sample_fail 6 s0) = Some (Some 6, None, None)" by (simp add: sample_fail_def)
  show ?thesis
    using python_error_round_trip [OF sample_kept evaluation_order_rev _ sample_py_ok l v e,
        where msg = "''call''" and convert = "\<lambda>x. act_return ()" and args = "[1]" and void = False
          and callee = "\<lambda>args. act_bind (py_invoke sample_kept_api True (\<lambda>n. rev [0..<n]) ''call''
             (\<lambda>x. act_return ()) (Some 5) sample_arg 2) (\<lambda>_. sample_arg 12)"
          and rest = "\<lambda>_. sample_arg 12"]
    by (simp add: sample_arg_lowers)
qed

text \<open>The argument array the constructor sees, and what is put back afterwards.\<close>

lemma prepare_restore:
  "prepare_args offset memory self args fr = (Some call_args, fr1) \<Longrightarrow>
     call_args = self # args \<and> restore_args offset (cf_before fr) args fr1 = fr"
  by (auto simp: prepare_args_def restore_args_def split: if_splits)

lemma prepare_fails:
  "prepare_args offset memory self args fr = (None, fr1) \<Longrightarrow> fr1 = fr"
  by (auto simp: prepare_args_def split: if_splits)

text \<open>The object is there: prepare the arguments, construct, put the argument array back.\<close>

lemma class_call_allocated:
  assumes "lawful_api api" "keeps_errors api" "\<forall>args. entry_ok (invoke args kw)"
    and a: "api_type_alloc api type s = (Some o1, s1)"
    and s1: "py_ok (py_own (Some o1) s1)" "py_held (py_own (Some o1) s1) = py_held s + {#o1#}"
      "py_error (py_own (Some o1) s1) = None"
    and call: "export_type_vectorcall api True invoke type offset memory args kw (fr, s) = (x, fr', s')"
  shows "fr' = fr \<and> py_ok s' \<and> py_held s' = py_held s + opt_mset x \<and> (x = None \<longleftrightarrow> py_error s' \<noteq> None) \<and>
    (x \<noteq> None \<longrightarrow> (\<exists>s1 r s2. api_type_alloc api type s = (x, s1) \<and>
       invoke (the x # args) kw (py_own x s1) = (Return (Some r), s2)))"
proof -
  let ?s = "py_own (Some o1) s1"
  have drop: "py_ok (py_decref api (Some o1) t) \<and> py_held (py_decref api (Some o1) t) = py_held t - {#o1#}"
    if "py_ok t" "o1 \<in># py_held t" for t
    using quiet_unref [OF assms(1) that] by (simp add: py_decref_def)
  obtain ca fr1 where p: "prepare_args offset memory o1 args fr = (ca, fr1)" by fastforce
  show ?thesis
  proof (cases ca)
    case None
    have "py_ok (py_decref api (Some o1) ?s) \<and> py_held (py_decref api (Some o1) ?s) = py_held s"
      using drop [OF s1(1)] s1(2) by simp
    then show ?thesis
      using call a p None prepare_fails [of offset memory o1 args fr fr1]
        lawful_apiD(2,3) [OF assms(1)]
      by (auto simp: export_type_vectorcall_def Let_def quiet_def)
  next
    case (Some call_args)
    then have ca: "call_args = o1 # args" "restore_args offset (cf_before fr) args fr1 = fr"
      using prepare_restore p by blast+
    obtain y s2 where i: "invoke (o1 # args) kw ?s = (Return y, s2)" and s2: "py_ok s2"
        "py_held s2 = py_held ?s + opt_mset y" "y = None \<longleftrightarrow> py_error s2 \<noteq> None"
      using assms(3) s1 unfolding entry_ok_def by blast
    show ?thesis
    proof (cases y)
      case None
      then have "x = None" "fr' = fr" "s' = py_decref api (Some o1) s2"
        using call a p Some ca i by (simp_all add: export_type_vectorcall_def Let_def)
      then show ?thesis
        using drop [OF s2(1)] s2(2,3) s1(2) None decref_keeps [OF assms(2)] by simp
    next
      case y: (Some r)
      then have r: "x = Some o1" "fr' = fr" "s' = py_decref api (Some r) s2"
        using call a p Some ca i by (simp_all add: export_type_vectorcall_def Let_def)
      moreover have "py_ok (py_decref api (Some r) s2) \<and> py_held (py_decref api (Some r) s2) = py_held ?s"
        using quiet_unref [OF assms(1) s2(1), of r] s2(2) y by (simp add: py_decref_def)
      ultimately show ?thesis
        using s2(3) y s1(2) decref_keeps [OF assms(2)] a i by auto
    qed
  qed
qed

text \<open>
  C19: calling an exported class makes an instance or leaves no trace. The constructor sees the
  new object in front of the arguments; on success Python gets one reference to that object and
  no error, on failure null and an error, and native code keeps none. The caller's argument
  array, whose preceding word may be borrowed for the receiver, is as it was, and every argument
  buffer has been freed.
\<close>

theorem python_class_call:
  assumes "lawful_api api" "keeps_errors api" "\<forall>args. entry_ok (invoke args kw)"
    and "py_ok s" "py_error s = None"
    and "export_type_vectorcall api has_constructor invoke type offset memory args kw (fr, s) = (x, fr', s')"
  shows "fr' = fr \<and> py_ok s' \<and> py_held s' = py_held s + opt_mset x \<and> (x = None \<longleftrightarrow> py_error s' \<noteq> None) \<and>
    (x \<noteq> None \<longrightarrow> (\<exists>s1 r s2. api_type_alloc api type s = (x, s1) \<and>
       invoke (the x # args) kw (py_own x s1) = (Return (Some r), s2)))"
proof (cases has_constructor)
  case False
  then show ?thesis
    using assms(4-6) lawful_apiD(2,3) [OF assms(1)] by (auto simp: export_type_vectorcall_def quiet_def)
next
  case True
  obtain self s1 where a: "api_type_alloc api type s = (self, s1)" by fastforce
  note n = new_refD [OF lawful_apiD(13) [OF assms(1)] assms(4) a]
  show ?thesis
  proof (cases self)
    case None
    then show ?thesis
      using assms(5,6) True a n by (auto simp: export_type_vectorcall_def py_own_None)
  next
    case self: (Some o1)
    have "py_ok (py_own (Some o1) s1)" "py_held (py_own (Some o1) s1) = py_held s + {#o1#}"
      "py_error (py_own (Some o1) s1) = None"
      using n self assms(5) by (simp, simp add: py_own_def, cases "py_error s1") (auto simp: py_own_def)
    from class_call_allocated [OF assms(1-3) a [unfolded self] this assms(6) [simplified True]] show ?thesis .
  qed
qed


text \<open>A class called with nine arguments, more than the local buffer holds.\<close>

theorem python_class_call_witness:
  "case export_type_vectorcall sample_kept_api True
      (construct_vector sample_kept_api 9 (act_return 10) (\<lambda>self args. act_return ())) 10 False True
      [21, 22, 23, 24, 25, 26, 27, 28, 29] None (\<lparr>cf_before = Some 99, cf_buffers = 0\<rparr>, sample_py {#}) of
     (x, fr, s) \<Rightarrow> x = Some 11 \<and> fr = \<lparr>cf_before = Some 99, cf_buffers = 0\<rparr> \<and> py_held s = {#11#} \<and>
       py_error s = None"
proof -
  let ?invoke = "construct_vector sample_kept_api 9 (act_return 10) (\<lambda>self args. act_return ())"
  let ?args = "[21, 22, 23, 24, 25, 26, 27, 28, 29 :: nat]"
  let ?fr = "\<lparr>cf_before = Some (99 :: nat), cf_buffers = 0\<rparr>"
  obtain x fr s where v: "export_type_vectorcall sample_kept_api True ?invoke 10 False True ?args None
      (?fr, sample_py {#}) = (x, fr, s)" by (metis prod_cases3)
  have e: "\<forall>args. entry_ok (?invoke args None)"
    by (intro allI entry_construct_vector sample_kept) (simp_all add: body_pure)
  have n: "py_error (sample_py {#}) = None" by (simp add: sample_py_def)
  note t = python_class_call [OF sample_kept e sample_py_ok n v]
  have "x = Some 11"
    using v by (simp add: export_type_vectorcall_def prepare_args_def local_args_def
        construct_vector_def construct_instance_def keywords_given_def py_boundary_def act_bind_def
        act_return_def return_none_def sample_kept_api_def sample_api_def sample_new_def Let_def)
  moreover have "x = None \<longleftrightarrow> py_error s \<noteq> None" using t by blast
  ultimately have "py_error s = None" by blast
  with \<open>x = Some 11\<close> show ?thesis using t v by (simp add: sample_py_def)
qed

subsection \<open>Definitions conserve references\<close>

lemma owns_give:
  "py_ok s \<Longrightarrow> py_held s = H + opt_mset r \<Longrightarrow> py_ok (py_give r s) \<and> py_held (py_give r s) = H"
  using give_ok [of s r] by simp

lemma owns_module_define:
  assumes "lawful_api api"
  shows "owns (opt_mset value) (module_define api module name value) (\<lambda>_. {#})"
proof (rule ownsI)
  fix s r s'
  assume s: "py_ok s" "opt_mset value \<subseteq># py_held s" and r: "module_define api module name value s = (r, s')"
  obtain b t where a: "api_module_add api module name value s = (b, t)" by fastforce
  have t: "py_ok t" "py_held t = py_held s"
    using lawful_apiD(10) [OF assms, of module name "value"] s(1) a
    by (auto simp: status_call_def quiet_def dest!: spec [of _ s])
  show "py_ok s' \<and> py_held s' = py_held s - opt_mset value + outcome_refs (\<lambda>_. {#}) r"
    using r a t s(2) give_ok [OF t(1), of "value"] xdecref_ok [OF assms t(1), of "value"]
    by (cases b) (auto simp: module_define_def)
qed

lemma owns_class_define:
  assumes "lawful_api api" "value \<noteq> None"
  shows "owns (opt_mset value) (class_define api type name value) (\<lambda>_. {#})"
proof (rule ownsI)
  fix s r s'
  assume s: "py_ok s" "opt_mset value \<subseteq># py_held s" and r: "class_define api type name value s = (r, s')"
  obtain b t where a: "api_set_attr api type name value s = (b, t)" by fastforce
  have t: "py_ok t" "py_held t = py_held s"
    using lawful_apiD(11) [OF assms(1), of type name "value"] s(1) a
    by (auto simp: status_call_def quiet_def dest!: spec [of _ s])
  have "py_decref api value t = py_xdecref api value t" using assms(2) by (auto simp: py_decref_def py_xdecref_def)
  then show "py_ok s' \<and> py_held s' = py_held s - opt_mset value + outcome_refs (\<lambda>_. {#}) r"
    using r a t s(2) xdecref_ok [OF assms(1) t(1), of "value"]
    by (cases b) (auto simp: class_define_def)
qed

lemma owns_make_callable:
  assumes "lawful_api api"
  shows "owns {#} (make_callable api ty) opt_mset"
proof (cases ty)
  case None
  then show ?thesis
    by (intro ownsI) (auto simp: make_callable_def make_callable_object_def)
next
  case (Some t)
  have eq: "make_callable api ty = (\<lambda>s. case api_type_alloc api t s of (x, s') \<Rightarrow> (Return x, py_own x s'))"
    by (auto simp: make_callable_def make_callable_object_def Some fun_eq_iff py_own_None
        split: option.splits prod.splits)
  show ?thesis unfolding eq by (rule owns_new_ref [OF lawful_apiD(13) [OF assms]])
qed

lemma owns_release_on_error:
  assumes "lawful_api api" "owns U f (\<lambda>_. {#})"
  shows "owns (U + opt_mset obj) (\<lambda>s. case f s of
      (Return _, s') \<Rightarrow> (Return obj, s')
    | (Throw e, s') \<Rightarrow> (Throw e, py_xdecref api obj s')
    | (Abort, s') \<Rightarrow> (Abort, py_xdecref api obj s')) opt_mset"
proof (rule ownsI)
  fix s r s'
  assume s: "py_ok s" "U + opt_mset obj \<subseteq># py_held s" and r: "(case f s of
      (Return _, s') \<Rightarrow> (Return obj, s')
    | (Throw e, s') \<Rightarrow> (Throw e, py_xdecref api obj s')
    | (Abort, s') \<Rightarrow> (Abort, py_xdecref api obj s')) = (r, s')"
  obtain a t where f: "f s = (a, t)" by fastforce
  have t: "py_ok t" "py_held t = py_held s - U + outcome_refs (\<lambda>_. {#}) a"
    using ownsD [OF assms(2) s(1) _ f] mset_take_part(1) [OF s(2)] by simp_all
  note parts = mset_take_part(2) [OF s(2)] mset_take_out [OF s(2), of "outcome_refs (\<lambda>_. {#}) a"]
  show "py_ok s' \<and> py_held s' = py_held s - (U + opt_mset obj) + outcome_refs opt_mset r"
  proof (cases a)
    case (Return x)
    then have "r = Return obj" "s' = t" using r f by simp_all
    then show ?thesis using t Return parts(1)
      by (simp flip: diff_diff_add_mset)
  next
    case (Throw e)
    then have "r = Throw e" "s' = py_xdecref api obj t" using r f by simp_all
    then show ?thesis
      using xdecref_ok [OF assms(1) t(1), of obj] t(2) parts(2,3) Throw
      by simp (rule outcome_refs_Throw)
  next
    case Abort
    then have "r = Abort" "s' = py_xdecref api obj t" using r f by simp_all
    then show ?thesis
      using xdecref_ok [OF assms(1) t(1), of obj] t(2) parts(2,3) Abort by simp
  qed
qed


lemma incref_some: "py_incref (Some x) s = py_xincref (Some x) s"
  by (simp add: py_incref_def py_xincref_def)

lemma decref_some: "py_decref api (Some x) s = py_xdecref api (Some x) s"
  by (simp add: py_decref_def py_xdecref_def)

text \<open>A step that starts from a new reference.\<close>

lemma owns_new:
  assumes "new_ref (new :: 'w py \<Rightarrow> nat option \<times> 'w py)" "\<And>x. owns {#x#} (f x) V"
  shows "owns {#} (\<lambda>s. case new s of
      (None, s1) \<Rightarrow> (Throw (RuntimeError m), s1) | (Some x, s1) \<Rightarrow> f x (py_own (Some x) s1)) V"
proof (rule ownsI)
  fix s :: "'w py" and r s'
  assume s: "py_ok s" and r: "(case new s of
      (None, s1) \<Rightarrow> (Throw (RuntimeError m), s1) | (Some x, s1) \<Rightarrow> f x (py_own (Some x) s1)) = (r, s')"
  obtain x t where n: "new s = (x, t)" by fastforce
  note new = new_refD [OF assms(1) s n]
  show "py_ok s' \<and> py_held s' = py_held s - {#} + outcome_refs V r"
  proof (cases x)
    case None
    then show ?thesis using r n new by (auto simp: py_own_None)
  next
    case (Some y)
    then have f: "f y (py_own (Some y) t) = (r, s')" using r n by simp
    have "py_ok (py_own (Some y) t)" "py_held (py_own (Some y) t) = py_held s + {#y#}"
      using new Some by (simp, simp add: py_own_def)
    then show ?thesis using ownsD [OF assms(2) _ _ f] by simp
  qed
qed

lemma owns_after_incref:
  assumes "owns (U + {#x#}) f V"
  shows "owns U (\<lambda>s. f (py_incref (Some x) s)) V"
proof (rule ownsI)
  fix s r s'
  assume s: "py_ok s" "U \<subseteq># py_held s" and f: "f (py_incref (Some x) s) = (r, s')"
  have i: "py_ok (py_incref (Some x) s)" "py_held (py_incref (Some x) s) = py_held s + {#x#}"
    using bump_ok [OF s(1), of "Some x"] by (simp_all add: incref_some)
  then show "py_ok s' \<and> py_held s' = py_held s - U + outcome_refs V r"
    using ownsD [OF assms i(1) _ f] s(2) by simp
qed

lemma owns_define_class:
  assumes "lawful_api api"
  shows "owns {#} (define_class api module name basicsize) opt_mset"
proof -
  have "owns {#t#} (\<lambda>s. case module_define api module name (Some t) (py_incref (Some t) s) of
      (Return _, s2) \<Rightarrow> (Return (Some t), s2)
    | (Throw e, s2) \<Rightarrow> (Throw e, py_decref api (Some t) s2)
    | (Abort, s2) \<Rightarrow> (Abort, py_decref api (Some t) s2)) opt_mset" for t
    using owns_after_incref [OF owns_release_on_error [OF assms owns_module_define [OF assms, of "Some t" module name],
        of "Some t", unfolded opt_mset_simps]]
    unfolding decref_some .
  from owns_new [OF lawful_apiD(12) [OF assms] this]
  show ?thesis by (simp add: define_class_def [abs_def])
qed

lemma owns_then_or_release:
  assumes "lawful_api api" "owns U f (\<lambda>_. {#})" "owns (opt_mset obj) g (\<lambda>_. {#})"
  shows "owns (U + opt_mset obj) (\<lambda>s. case f s of
      (Return _, s') \<Rightarrow> g s'
    | (Throw e, s') \<Rightarrow> (Throw e, py_xdecref api obj s')
    | (Abort, s') \<Rightarrow> (Abort, py_xdecref api obj s')) (\<lambda>_. {#})"
proof -
  let ?f = "\<lambda>s. case f s of
      (Return _, s') \<Rightarrow> (Return obj, s')
    | (Throw e, s') \<Rightarrow> (Throw e, py_xdecref api obj s')
    | (Abort, s') \<Rightarrow> (Abort, py_xdecref api obj s')"
  let ?g = "\<lambda>x. if x = obj then g else g"
  have o: "owns (U + opt_mset obj) ?f (\<lambda>_. opt_mset obj)"
    using owns_release_on_error [OF assms(1,2), of obj]
    by (auto simp: owns_def outcome_refs_def split: prod.splits outcome.splits cpp_exn.splits)
  have "owns (U + opt_mset obj) (act_bind ?f (\<lambda>_. g)) (\<lambda>_. {#})"
    by (rule owns_bind [OF o assms(3)])
  moreover have "act_bind ?f (\<lambda>_. g) = (\<lambda>s. case f s of
      (Return _, s') \<Rightarrow> g s'
    | (Throw e, s') \<Rightarrow> (Throw e, py_xdecref api obj s')
    | (Abort, s') \<Rightarrow> (Abort, py_xdecref api obj s'))"
    by (auto simp: act_bind_def fun_eq_iff split: prod.splits outcome.splits)
  ultimately show ?thesis by simp
qed

lemma owns_define_constructor:
  assumes "lawful_api api" "\<And>s. fst (make_callable api ty s) \<noteq> Return None"
  shows "owns {#} (define_constructor api ty target) (\<lambda>_. {#})"
proof -
  let ?g = "\<lambda>constructor s. case class_define api target ''__init__'' constructor (py_incref constructor s) of
         (Return _, s1) \<Rightarrow> class_define api target constructor_attr_name constructor s1
       | (Throw e, s1) \<Rightarrow> (Throw e, py_xdecref api constructor s1)
       | (Abort, s1) \<Rightarrow> (Abort, py_xdecref api constructor s1)"
  let ?h = "\<lambda>c. if c = None then act_return () else ?g c"
  have g: "owns (opt_mset c) (?h c) (\<lambda>_. {#})" for c
  proof (cases c)
    case None
    then show ?thesis using owns_pure [of "()"] by simp
  next
    case (Some x)
    have cd: "owns {#x#} (class_define api target n (Some x)) (\<lambda>_. {#})" for n
      using owns_class_define [OF assms(1), of "Some x" target n] by simp
    from owns_after_incref [OF owns_then_or_release [OF assms(1) cd [of "''__init__''"], of "Some x"
        "class_define api target constructor_attr_name (Some x)", unfolded opt_mset_simps, OF cd]]
    show ?thesis unfolding Some by simp
  qed
  have "act_bind (make_callable api ty) ?g = act_bind (make_callable api ty) ?h"
  proof
    fix s
    show "act_bind (make_callable api ty) ?g s = act_bind (make_callable api ty) ?h s"
      using assms(2) [of s] by (cases "make_callable api ty s") (auto simp: act_bind_def split: outcome.splits)
  qed
  then show ?thesis
    unfolding define_constructor_def
    using owns_bind [OF owns_make_callable [OF assms(1), of ty] g] by simp
qed

lemma owns_make_export_object:
  assumes "lawful_api api" "owns {#} target (\<lambda>_. {#})" "\<And>self. owns {#} (construct self) (\<lambda>_. {#})"
  shows "owns {#} (make_export_object api target construct) opt_mset"
  unfolding make_export_object_def
proof (rule owns_bind [OF assms(2)])
  fix type
  have "owns {#x#} (guarded api (Some x) (act_bind (construct x)
      (\<lambda>_ s. case object_ref_make (Some x) False s of (object, s') \<Rightarrow> (Return object, s')))) opt_mset" for x
  proof -
    have "owns {#} (\<lambda>s. case object_ref_make (Some x) False s of (object, s') \<Rightarrow> (Return object, s')) opt_mset"
      by (rule ownsI) (auto simp: object_ref_make_def incref_some bump_ok)
    from owns_guarded [OF assms(1) owns_bind [OF assms(3) this], of "Some x"]
    show ?thesis by simp
  qed
  from owns_new [OF lawful_apiD(13) [OF assms(1)] this]
  show "owns {#} (\<lambda>s. case api_type_alloc api type s of
      (None, s1) \<Rightarrow> (Throw (RuntimeError ''PyType_GenericNew failed''), s1)
    | (Some self, s1) \<Rightarrow> guarded api (Some self) (act_bind (construct self)
        (\<lambda>_ s. case object_ref_make (Some self) False s of (object, s') \<Rightarrow> (Return object, s')))
        (py_own (Some self) s1)) opt_mset" .
qed

lemma owns_export_instance:
  assumes "lawful_api api" "owns {#} target (\<lambda>_. {#})" "\<And>self. owns {#} (construct self) (\<lambda>_. {#})"
  shows "owns {#} (export_instance api target construct module name) (\<lambda>_. {#})"
  unfolding export_instance_def
  using owns_bind [OF owns_make_export_object [OF assms] owns_module_define [OF assms(1)]]
  by (simp add: define_export_instance_def [abs_def] object_ref_release_def)

text \<open>
  Registering leaks nothing, also when it fails half way. Defining a function in a module,
  a class, its constructor or an exported instance hands the references it creates over to
  Python, except the one the class target keeps; if a step is refused, what was created before
  is released again. Defining a constructor needs the callable object to be there.
\<close>

theorem python_registration_conserves:
  assumes "lawful_api api" "owns {#} target (\<lambda>_. {#})" "\<forall>self. owns {#} (construct self) (\<lambda>_. {#})"
    and "\<forall>s. fst (make_callable api ty s) \<noteq> Return None"
  shows "owns {#} (py_define (module_define api module name) api ty) (\<lambda>_. {#}) \<and>
    owns {#} (define_class api module name basicsize) opt_mset \<and>
    owns {#} (define_constructor api ty type) (\<lambda>_. {#}) \<and>
    owns {#} (export_instance api target construct module name) (\<lambda>_. {#})"
  using owns_bind [OF owns_make_callable [OF assms(1), of ty] owns_module_define [OF assms(1)]]
    owns_define_class [OF assms(1)] owns_define_constructor [OF assms(1)] assms(3,4)
    owns_export_instance [OF assms(1,2)]
  by (simp add: py_define_def)

theorem python_registration_conserves_witness:
  "owns {#} (py_define (module_define sample_api (Some 2) ''f'') sample_api (Some 4)) (\<lambda>_. {#}) \<and>
   owns {#} (define_class sample_api (Some 2) ''f'' 48) opt_mset \<and>
   owns {#} (define_constructor sample_api (Some 4) (Some 10)) (\<lambda>_. {#}) \<and>
   owns {#} (export_instance sample_api (act_return 10) (\<lambda>self. act_return ()) (Some 2) ''f'') (\<lambda>_. {#})"
  by (rule python_registration_conserves [OF sample_lawful])
    (simp_all add: owns_pure make_callable_def make_callable_object_def sample_api_def sample_new_def)

text \<open>
  A class whose constructor object cannot be created is not refused: when the allocation
  of the callable fails, \<open>define_constructor\<close> takes a reference to a null pointer.
\<close>

lemma python_null_constructor_faults:
  assumes "make_callable api ty s = (Return None, s1)" "\<forall>x n v s. py_fault s \<longrightarrow> py_fault (snd (api_set_attr api x n v s))"
    and "\<forall>x s. py_fault s \<longrightarrow> py_fault (api_dealloc api x s)"
  shows "py_fault (snd (define_constructor api ty target s))"
proof -
  have x: "py_fault (py_xdecref api None t)" if "py_fault t" for t :: "'a py" using that by (simp add: py_xdecref_def)
  have c: "py_fault (snd (class_define api target n None t))" if "py_fault t" for n t
  proof -
    have "py_fault (snd (api_set_attr api target n None t))" using assms(2) that by blast
    then show ?thesis
      by (auto simp: class_define_def py_decref_def py_xdecref_def split: prod.splits bool.splits)
  qed
  obtain r t where a: "class_define api target ''__init__'' None (py_incref None s1) = (r, t)" by fastforce
  have "py_fault t" using c [of "py_incref None s1" "''__init__''"] a by (simp add: py_incref_def)
  then show ?thesis
    using assms(1) a c [of t constructor_attr_name]
    by (cases r) (simp_all add: define_constructor_def act_bind_step py_xdecref_def)
qed

end
