(* ===== verification/PyInstance.thy ===== *)
theory PyInstance
  imports PyExport
begin

section \<open>Native objects inside Python objects\<close>

text \<open>
  The storage of a native object in the Python object that exports it, and its life there
  (\<open>export_instance_object\<close> and \<open>object_t\<close> of \<open>dynabridge/backends/python.h\<close>).
\<close>

subsection \<open>Where the native object lies\<close>

text \<open>
  \<open>export_instance_storage\<close>: the first suitably aligned address after the object's head, in 64-bit
  arithmetic. \<open>head\<close> is the size of \<open>export_instance_object\<close>; \<open>len\<close> (its size) and \<open>align\<close> are those of the native type.
\<close>

definition export_instance_storage :: "u64 \<Rightarrow> u64 \<Rightarrow> u64 \<Rightarrow> u64" where
  "export_instance_storage head align instance =
     (let storage_begin = instance + head in (storage_begin + align - 1) AND NOT (align - 1))"

text \<open>The \<open>basicsize\<close> of the class, a \<open>std::size_t\<close> cast to \<open>int\<close>.\<close>

definition export_class_basicsize :: "u64 \<Rightarrow> u64 \<Rightarrow> u64 \<Rightarrow> int" where
  "export_class_basicsize head len align = sint (ucast (head + len + align - 1) :: u32)"

lemma unat_and_not_mask: "unat (x AND NOT (mask k) :: u64) = unat x - unat x mod 2 ^ k"
proof -
  have "x = (x AND NOT (mask k)) + take_bit k x"
    by (subst disjunctive_add) (auto simp: bit_simps take_bit_eq_mask bit_eq_iff)
  then have e: "x AND NOT (mask k) = x - take_bit k x" by (metis add_diff_cancel_right')
  have t: "unat (take_bit k x) = unat x mod 2 ^ k"
    by (simp add: unsigned_take_bit_eq flip: take_bit_eq_mod)
  have "take_bit k x \<le> x" unfolding word_le_nat_alt t by simp
  then show ?thesis unfolding e by (simp add: unat_sub t)
qed

lemma basicsize_exact:
  assumes "unat head + unat len + unat align \<le> 2 ^ 31" "0 < unat align"
  shows "export_class_basicsize head len align = int (unat head + unat len + unat align - 1)"
proof -
  define n where "n = unat head + unat len + unat align - 1"
  have n: "n < 2 ^ 31" "Suc n = unat head + unat len + unat align" using assms by (simp_all add: n_def)
  have "(of_nat (Suc n) :: u64) = head + len + align" unfolding n(2) by simp
  then have w: "head + len + align - 1 = of_nat n" by (metis add_diff_cancel_left' of_nat_Suc)
  have "sint (ucast (of_nat n :: u64) :: u32) = int n"
    using n(1) by (simp add: sint_uint unsigned_ucast_eq unsigned_of_nat take_bit_nat_eq_self signed_take_bit_int_eq_self)
  then show ?thesis by (simp add: export_class_basicsize_def w n_def)
qed

text \<open>
  C31: the native object fits. For an alignment that is a power of two and a class whose instances
  stay below two gigabytes, the storage is aligned, begins after the object's head, and ends within the
  memory the interpreter allocates for an instance of that class, wherever it puts it.
\<close>

theorem instance_storage_fits:
  assumes "align = 2 ^ k" "k < 32" "unat head + unat len + unat align \<le> 2 ^ 31"
    and "unat instance + nat (export_class_basicsize head len align) < 2 ^ 64"
  shows "2 ^ k dvd unat (export_instance_storage head align instance) \<and>
    unat instance + unat head \<le> unat (export_instance_storage head align instance) \<and>
    unat (export_instance_storage head align instance) + unat len
      \<le> unat instance + nat (export_class_basicsize head len align)"
proof -
  have al: "unat align = 2 ^ k"
  proof -
    have "(2 :: u64) ^ k = of_nat (2 ^ k)" by simp
    moreover have "(2 :: nat) ^ k < 2 ^ 64" using assms(2) by (intro power_strict_increasing) simp_all
    ultimately show ?thesis using assms(2) unfolding assms(1)
      by (simp add: unsigned_of_nat take_bit_nat_eq_self del: of_nat_power of_nat_numeral)
  qed
  have bs: "nat (export_class_basicsize head len align) = unat head + unat len + 2 ^ k - 1"
    using basicsize_exact [of head len align] assms(3) al by simp
  define m where "m = unat instance + unat head + 2 ^ k - 1"
  have m: "m < 2 ^ 64" "Suc m = unat instance + unat head + unat align"
    using assms(4) bs al by (simp_all add: m_def)
  have "(of_nat (Suc m) :: u64) = instance + head + align" unfolding m(2) by simp
  then have w: "instance + head + align - 1 = of_nat m" by (metis add_diff_cancel_left' of_nat_Suc)
  have "unat (of_nat m :: u64) = m" using m(1) by (simp add: unsigned_of_nat take_bit_nat_eq_self)
  moreover have "align - 1 = mask k" by (simp add: assms(1) mask_eq_exp_minus_1)
  ultimately have s: "unat (export_instance_storage head align instance) = m - m mod 2 ^ k"
    by (simp add: export_instance_storage_def Let_def w unat_and_not_mask)
  have "m mod 2 ^ k < 2 ^ k" by simp
  moreover have "m + 1 = unat instance + unat head + 2 ^ k" using m(2) al by simp
  moreover have "2 ^ k dvd m - m mod 2 ^ k" by (rule dvd_minus_mod)
  moreover have "m mod 2 ^ k \<le> m" by simp
  ultimately show ?thesis unfolding s bs by linarith
qed

theorem instance_storage_fits_witness:
  "2 ^ 4 dvd unat (export_instance_storage 40 16 100) \<and>
   unat (100 :: u64) + unat (40 :: u64) \<le> unat (export_instance_storage 40 16 100) \<and>
   unat (export_instance_storage 40 16 100) + unat (24 :: u64) \<le> unat (100 :: u64) + nat (export_class_basicsize 40 24 16)"
proof (rule instance_storage_fits)
  show "unat (100 :: u64) + nat (export_class_basicsize 40 24 16) < 2 ^ 64"
    by (simp add: export_class_basicsize_def)
qed simp_all

subsection \<open>The life of the native object\<close>

text \<open>
  The fields the library adds to the object's head. Three ghosts say how many native objects
  live in the storage, whether the memory was given back, and whether a native object that does
  not live was destroyed or memory was freed twice.
\<close>

record export_instance =
  in_native :: "u64 option"
  in_ctx :: "nat option"
  in_destroy :: bool
  in_live :: nat
  in_freed :: bool
  in_fault :: bool

text \<open>\<open>PyType_GenericNew\<close> hands out zeroed memory.\<close>

definition fresh_instance :: export_instance where
  "fresh_instance =
     \<lparr>in_native = None, in_ctx = None, in_destroy = False, in_live = 0, in_freed = False, in_fault = False\<rparr>"

definition destroy_export_instance :: "export_instance \<Rightarrow> export_instance" where
  "destroy_export_instance i =
     i\<lparr>in_native := None, in_ctx := None, in_destroy := False, in_live := in_live i - 1,
       in_fault := in_fault i \<or> in_live i = 0 \<or> in_native i = None\<rparr>"

text \<open>The type object an instance keeps alive is released with it.\<close>

definition export_instance_dealloc :: "export_instance \<Rightarrow> nat multiset \<Rightarrow> nat \<Rightarrow> export_instance \<times> nat multiset" where
  "export_instance_dealloc i type_refs type =
     (let i' = if in_destroy i then destroy_export_instance i else i in
      (i'\<lparr>in_freed := True, in_fault := in_fault i' \<or> in_freed i'\<rparr>, type_refs - {#type#}))"

text \<open>
  \<open>construct_export_object_impl\<close>. The native constructor is user code that may throw; it may also
  call back into Python, so it may change the very object being constructed.
\<close>

definition construct_export_object ::
    "u64 \<Rightarrow> nat \<Rightarrow> (export_instance, unit) action \<Rightarrow> (export_instance, unit) action" where
  "construct_export_object storage ctx constructor i =
     (if in_destroy i
      then (Throw (RuntimeError ''dynabridge Python export object is already initialized''), i)
      else act_bind constructor (\<lambda>_ i.
        (Return (), i\<lparr>in_native := Some storage, in_ctx := Some ctx, in_destroy := True,
           in_live := in_live i + 1\<rparr>)) i)"

text \<open>\<open>native_from\<close>, and \<open>native\<close> of an object handle and of a borrowed handle.\<close>

definition native_from :: "export_instance option \<Rightarrow> u64 option" where
  "native_from object = (case object of None \<Rightarrow> None | Some i \<Rightarrow> in_native i)"

text \<open>
  What happens to one instance: Python may call \<open>__init__\<close> any number of times, each with a native
  constructor that completes or throws and leaves the object alone, until the last reference is
  gone.
\<close>

inductive instance_step :: "u64 \<Rightarrow> export_instance \<Rightarrow> export_instance \<Rightarrow> bool" for storage where
  step_construct: "\<not> in_freed i \<Longrightarrow>
     instance_step storage i (snd (construct_export_object storage ctx (\<lambda>j. (result, j)) i))"
| step_dealloc: "\<not> in_freed i \<Longrightarrow>
     instance_step storage i (fst (export_instance_dealloc i type_refs type))"

definition instance_ok :: "u64 \<Rightarrow> export_instance \<Rightarrow> bool" where
  "instance_ok storage i \<longleftrightarrow> \<not> in_fault i \<and> in_live i = (if in_destroy i then 1 else 0) \<and>
     in_native i = (if in_destroy i then Some storage else None) \<and> (in_freed i \<longrightarrow> \<not> in_destroy i)"

lemma construct_ok:
  "instance_ok storage i \<Longrightarrow> \<not> in_freed i \<Longrightarrow>
     instance_ok storage (snd (construct_export_object storage ctx (\<lambda>j. (result, j)) i))"
  by (cases result) (auto simp: instance_ok_def construct_export_object_def act_bind_def)

lemma dealloc_ok:
  "instance_ok storage i \<Longrightarrow> \<not> in_freed i \<Longrightarrow> instance_ok storage (fst (export_instance_dealloc i type_refs type))"
  by (auto simp: instance_ok_def export_instance_dealloc_def destroy_export_instance_def Let_def)

interpretation instances: invariant_machine "\<lambda>i. i = fresh_instance" "instance_step storage" "instance_ok storage"
proof
  show "i = fresh_instance \<Longrightarrow> instance_ok storage i" for i
    by (simp add: instance_ok_def fresh_instance_def)
  show "instance_ok storage i \<Longrightarrow> instance_step storage i j \<Longrightarrow> instance_ok storage j" for i j
    by (auto elim!: instance_step.cases intro: construct_ok dealloc_ok)
qed


definition sample_life :: "export_instance" where
  "sample_life = snd (construct_export_object 4096 7 (\<lambda>j. (Return (), j))
     (snd (construct_export_object 4096 7 (\<lambda>j. (Throw UnknownException, j)) fresh_instance)))"


text \<open>
  The guard against a second construction is set only after the native constructor returned. A
  constructor that calls back into Python and there initialises the same object once more builds two
  native objects in one storage, both calls succeed, and freeing the instance destroys only one of
  them.
\<close>

theorem python_reentrant_init_builds_twice:
  "let inner = construct_export_object storage ctx (act_return ());
       i = snd (construct_export_object storage ctx inner fresh_instance);
       freed = fst (export_instance_dealloc i type_refs type)
   in fst (construct_export_object storage ctx inner fresh_instance) = Return () \<and> in_live i = 2 \<and>
      in_freed freed \<and> in_live freed = 1"
  by (simp add: construct_export_object_def act_bind_def act_return_def fresh_instance_def
      export_instance_dealloc_def destroy_export_instance_def Let_def)

end
