(* ===== verification/PyHolders.thy ===== *)
theory PyHolders
  imports PyExport
begin

section \<open>Callable objects and their holders\<close>

text \<open>
  The Python objects that stand for native callables (\<open>callable_object\<close> of
  \<open>dynabridge/backends/python.h\<close>). Each owns a holder on the heap, one of three classes
  behind a common header of function pointers; calls go through those pointers, and so does the
  destruction of the holder.
\<close>

subsection \<open>Holders\<close>

text \<open>
  The three classes derived from \<open>callable_holder\<close>, with what their binder does.
\<close>

datatype 'w py_holder =
    TypedHolder nat bool "nat list \<Rightarrow> ('w py, nat option) action"
  | OverloadHolder "nat list \<Rightarrow> ('w py, nat option option) action"
  | ConstructorHolder nat "('w py, nat) action" "nat \<Rightarrow> nat list \<Rightarrow> ('w py, unit) action"

text \<open>
  \<open>make_callable\<close> and \<open>make_constructor\<close> choose the class by the binder:
  an overload binder, any other binder, or the constructor of a class.
\<close>

datatype 'w py_binder =
    SignatureBinder nat bool "nat list \<Rightarrow> ('w py, nat option) action"
  | OverloadBinder "nat list \<Rightarrow> ('w py, nat option option) action"

definition make_callable_impl :: "'w py_binder \<Rightarrow> 'w py_holder" where
  "make_callable_impl binder =
     (case binder of
        SignatureBinder arity void callee \<Rightarrow> TypedHolder arity void callee
      | OverloadBinder dispatch \<Rightarrow> OverloadHolder dispatch)"

text \<open>
  \<open>invoke_tuple\<close> and \<open>invoke_vector\<close>: the \<open>tuple_call_entry\<close>
  and \<open>vector_call_entry\<close> that the constructor of each class stores.
\<close>

definition holder_invoke_tuple ::
    "'w py_api \<Rightarrow> 'w py_holder \<Rightarrow> nat list option \<Rightarrow> ('w py, nat option) action" where
  "holder_invoke_tuple api h args =
     (case h of
        TypedHolder arity void callee \<Rightarrow> typed_call_signature api arity void callee args
      | OverloadHolder dispatch \<Rightarrow> overload_call_tuple api dispatch args
      | ConstructorHolder arity target construct \<Rightarrow> construct_tuple api arity target construct args)"

definition holder_invoke_vector ::
    "'w py_api \<Rightarrow> 'w py_holder \<Rightarrow> nat list \<Rightarrow> nat option \<Rightarrow> ('w py, nat option) action" where
  "holder_invoke_vector api h args kw =
     (case h of
        TypedHolder arity void callee \<Rightarrow> typed_call_vector_signature api arity void callee args kw
      | OverloadHolder dispatch \<Rightarrow> overload_call_vector api dispatch args kw
      | ConstructorHolder arity target construct \<Rightarrow> construct_vector api arity target construct args kw)"

text \<open>
  \<open>tp_call\<close>: older interpreters enter by the tuple; with vectorcall
  \<open>PyVectorcall_Call\<close> spreads the tuple and the keyword dictionary and enters by the
  vector.
\<close>

definition callable_object_call ::
    "'w py_api \<Rightarrow> bool \<Rightarrow> 'w py_holder \<Rightarrow> nat list \<Rightarrow> nat option \<Rightarrow> ('w py, nat option) action" where
  "callable_object_call api vector h args kwargs =
     (if vector then holder_invoke_vector api h args kwargs
      else callable_call api (holder_invoke_tuple api h) (Some args) kwargs)"

lemma holder_entries_agree:
  "\<not> keywords_given kw \<Longrightarrow> holder_invoke_vector api h args kw = holder_invoke_tuple api h (Some args)"
  by (cases h) (simp_all add: fun_eq_iff holder_invoke_vector_def holder_invoke_tuple_def typed_call_signature_def
      typed_call_vector_signature_def overload_call_tuple_def overload_call_vector_def construct_tuple_def construct_vector_def)

lemma holder_keywords_refused:
  "keywords_given kw \<Longrightarrow>
     holder_invoke_vector api h args kw = py_refuse api (case h of
        ConstructorHolder arity target construct \<Rightarrow> ''dynabridge Python constructor does not accept keyword arguments''
      | _ \<Rightarrow> ''dynabridge Python callback does not accept keyword arguments'')"
  by (cases h) (simp_all add: fun_eq_iff holder_invoke_vector_def typed_call_vector_signature_def
      overload_call_vector_def construct_vector_def)


subsection \<open>Ownership of the holders\<close>

text \<open>
  The heap of callables: the holders alive, the holder each living object points to, the references
  to each object and, as ghosts, the calls running in it (whose callers keep a reference) and
  whether a dead holder was called or destroyed. Holders are numbered in the order of their
  allocation.
\<close>

record callables =
  cb_holders :: "nat set"
  cb_next :: nat
  cb_objects :: "nat \<rightharpoonup> nat"
  cb_refs :: "nat \<Rightarrow> nat"
  cb_running :: "nat \<Rightarrow> nat"
  cb_fault :: bool

definition no_callables :: callables where
  "no_callables = \<lparr>cb_holders = {}, cb_next = 0, cb_objects = Map.empty, cb_refs = (\<lambda>_. 0), cb_running = (\<lambda>_. 0), cb_fault = False\<rparr>"

definition holder_new :: "callables \<Rightarrow> nat \<times> callables" where
  "holder_new c = (cb_next c, c\<lparr>cb_holders := insert (cb_next c) (cb_holders c), cb_next := Suc (cb_next c)\<rparr>)"

text \<open>\<open>destroy\<close> goes to \<open>manage_entry\<close>, which deletes the holder.\<close>

definition holder_destroy :: "nat \<Rightarrow> callables \<Rightarrow> callables" where
  "holder_destroy h c = c\<lparr>cb_holders := cb_holders c - {h}, cb_fault := cb_fault c \<or> h \<notin> cb_holders c\<rparr>"

text \<open>
  \<open>make_callable_object\<close> on a new holder: \<open>type\<close> is what
  \<open>callable_type\<close> gives, \<open>alloc\<close> what \<open>PyObject_New
\<close>
  gives.
\<close>

definition callable_make :: "nat option \<Rightarrow> nat option \<Rightarrow> callables \<Rightarrow> nat option \<times> callables" where
  "callable_make type alloc c =
     (case holder_new c of (h, c1) \<Rightarrow>
        if type = None then (None, holder_destroy h c1)
        else (case alloc of
            None \<Rightarrow> (None, holder_destroy h c1)
          | Some x \<Rightarrow> (Some x, c1\<lparr>cb_objects := (cb_objects c1)(x \<mapsto> h), cb_refs := (cb_refs c1)(x := 1)\<rparr>)))"

text \<open>
  A call reads the holder of the object; \<open>callable_descr_get\<close> and Python code take
  references.
\<close>

definition callable_enter :: "nat \<Rightarrow> callables \<Rightarrow> callables" where
  "callable_enter x c =
     c\<lparr>cb_running := (cb_running c)(x := cb_running c x + 1),
       cb_fault := cb_fault c \<or> (case cb_objects c x of None \<Rightarrow> True | Some h \<Rightarrow> h \<notin> cb_holders c)\<rparr>"

definition callable_leave :: "nat \<Rightarrow> callables \<Rightarrow> callables" where
  "callable_leave x c = c\<lparr>cb_running := (cb_running c)(x := cb_running c x - 1)\<rparr>"

definition callable_take :: "nat \<Rightarrow> callables \<Rightarrow> callables" where
  "callable_take x c = c\<lparr>cb_refs := (cb_refs c)(x := cb_refs c x + 1)\<rparr>"

text \<open>\<open>callable_dealloc\<close> runs when the last reference is released.\<close>

definition callable_release :: "nat \<Rightarrow> callables \<Rightarrow> callables" where
  "callable_release x c =
     (let c1 = c\<lparr>cb_refs := (cb_refs c)(x := cb_refs c x - 1)\<rparr> in
      if cb_refs c1 x \<noteq> 0 then c1
      else (case cb_objects c x of
          None \<Rightarrow> c1\<lparr>cb_fault := True\<rparr>
        | Some h \<Rightarrow> (holder_destroy h c1)\<lparr>cb_objects := (cb_objects c1)(x := None)\<rparr>))"

text \<open>
  What the interpreter may do: it allocates objects at free addresses, calls only an object it holds
  a reference to and keeps that reference for the call, and releases the other references.
  (The vectorcall of a class enters its constructor through the reference of the class dictionary; it
  does not touch the holder after native code ran.)
\<close>

inductive callables_step :: "callables \<Rightarrow> callables \<Rightarrow> bool" where
  callables_make: "(case alloc of None \<Rightarrow> True | Some x \<Rightarrow> x \<notin> dom (cb_objects c)) \<Longrightarrow>
     callables_step c (snd (callable_make type alloc c))"
| callables_enter: "cb_running c x < cb_refs c x \<Longrightarrow> callables_step c (callable_enter x c)"
| callables_leave: "0 < cb_running c x \<Longrightarrow> callables_step c (callable_leave x c)"
| callables_take: "0 < cb_refs c x \<Longrightarrow> callables_step c (callable_take x c)"
| callables_release: "cb_running c x < cb_refs c x \<Longrightarrow> callables_step c (callable_release x c)"

definition callables_ok :: "callables \<Rightarrow> bool" where
  "callables_ok c \<longleftrightarrow> \<not> cb_fault c \<and> ran (cb_objects c) = cb_holders c \<and> inj_on (cb_objects c) (dom (cb_objects c)) \<and>
     cb_holders c \<subseteq> {..<cb_next c} \<and> (\<forall>x. 0 < cb_refs c x \<longleftrightarrow> x \<in> dom (cb_objects c)) \<and>
     (\<forall>x. cb_running c x \<le> cb_refs c x)"

lemmas callables_defs = callables_ok_def callable_make_def holder_new_def holder_destroy_def
  callable_enter_def callable_leave_def callable_take_def callable_release_def

lemma make_ok:
  assumes "callables_ok c" "case alloc of None \<Rightarrow> True | Some x \<Rightarrow> x \<notin> dom (cb_objects c)"
  shows "callables_ok (snd (callable_make type alloc c))"
proof -
  have f: "cb_next c \<notin> cb_holders c" using assms(1) by (auto simp: callables_ok_def)
  have d: "insert (cb_next c) (cb_holders c) - {cb_next c} = cb_holders c" using f by simp
  have s: "cb_holders c \<subseteq> {..<Suc (cb_next c)}" using assms(1) by (auto simp: callables_ok_def)
  show ?thesis
  proof (cases "type = None \<or> alloc = None")
    case True
    with f d s assms(1) show ?thesis by (auto simp: callables_defs split: option.splits)
  next
    case False
    then obtain x where x: "alloc = Some x" "cb_objects c x = None" using assms(2) by (auto split: option.splits)
    then have "cb_refs c x = 0" "cb_running c x = 0"
      using assms(1) unfolding callables_ok_def by (metis domIff gr0I, metis domIff gr0I le_zero_eq)
    with False x f s assms(1) show ?thesis
      by (auto simp: callables_defs ran_map_upd simp del: fun_upd_apply dom_fun_upd intro!: inj_upd_fresh)
         (auto simp: domIff)
  qed
qed

lemma release_ok:
  assumes "callables_ok c" "cb_running c x < cb_refs c x"
  shows "callables_ok (callable_release x c)"
proof -
  have "0 < cb_refs c x" using assms(2) by simp
  then obtain h where h: "cb_objects c x = Some h" using assms(1) by (auto simp: callables_ok_def)
  then have "h \<in> cb_holders c" using assms(1) by (auto simp: callables_ok_def ran_def)
  have i: "inj_on (cb_objects c) (dom (cb_objects c))" using assms(1) by (simp add: callables_ok_def)
  show ?thesis
  proof (cases "cb_refs c x = 1")
    case True
    then have "callable_release x c = c\<lparr>cb_refs := (cb_refs c)(x := 0),
        cb_holders := cb_holders c - {h}, cb_objects := (cb_objects c)(x := None)\<rparr>"
      using h \<open>h \<in> cb_holders c\<close> assms(1) by (auto simp: callables_defs Let_def)
    with True assms ran_drop [OF i h] inj_drop [OF i, of x] show ?thesis
      unfolding callables_ok_def by (auto simp: domIff)
  next
    case False
    with assms \<open>0 < cb_refs c x\<close> show ?thesis
      unfolding callables_ok_def callable_release_def by (auto simp: Let_def)
  qed
qed

lemma calls_ok:
  "callables_ok c \<Longrightarrow> cb_running c x < cb_refs c x \<Longrightarrow> callables_ok (callable_enter x c)"
  "callables_ok c \<Longrightarrow> callables_ok (callable_leave x c)"
  "callables_ok c \<Longrightarrow> 0 < cb_refs c x \<Longrightarrow> callables_ok (callable_take x c)"
proof -
  assume a: "callables_ok c" "cb_running c x < cb_refs c x"
  then have "0 < cb_refs c x" by simp
  with a obtain h where "cb_objects c x = Some h" by (auto simp: callables_ok_def)
  moreover from this have "h \<in> cb_holders c" using a by (auto simp: callables_ok_def ran_def)
  ultimately show "callables_ok (callable_enter x c)" using a by (auto simp: callables_ok_def callable_enter_def)
next
  assume a: "callables_ok c"
  then have "cb_running c x \<le> cb_refs c x" by (simp add: callables_ok_def)
  then have "cb_running c x - 1 \<le> cb_refs c x" by simp
  with a show "callables_ok (callable_leave x c)" by (auto simp: callables_ok_def callable_leave_def)
next
  assume a: "callables_ok c" "0 < cb_refs c x"
  then have "cb_running c x \<le> cb_refs c x" by (simp add: callables_ok_def)
  then have "cb_running c x \<le> Suc (cb_refs c x)" by simp
  with a show "callables_ok (callable_take x c)" by (auto simp: callables_ok_def callable_take_def)
qed

interpretation callable_heap: invariant_machine "\<lambda>c. c = no_callables" callables_step callables_ok
proof
  show "c = no_callables \<Longrightarrow> callables_ok c" for c
    by (simp add: callables_ok_def no_callables_def)
  show "callables_ok c \<Longrightarrow> callables_step c d \<Longrightarrow> callables_ok d" for c d
    by (auto elim!: callables_step.cases intro: make_ok release_ok calls_ok)
qed


text \<open>
  Two callables are made, the second fails, the first is called, shared and released during the
  call.
\<close>

definition callable_run :: callables where
  "callable_run = callable_release 7 (callable_enter 7 (callable_take 7
     (snd (callable_make (Some 1) None (snd (callable_make (Some 1) (Some 7) no_callables))))))"


end
