(* ===== verification/NapiRuntime.thy ===== *)
theory NapiRuntime
  imports Actions Ownership
begin

section \<open>The Node-API environment and its handles\<close>

text \<open>
  The engine as the Node-API backend sees it (\<open>dynabridge/backends/napi.h\<close>). A \<open>napi_value\<close> is
  an address or null and needs no release; what native code does own are references it created
  and heap objects it allocated: native receivers, callback holders and class states. \<open>na_held\<close>
  is a ghost: the resources native code owns at the moment. Handing an object to a finalizer
  takes it out; releasing what is not owned, whether it was deleted before or belongs to a
  finalizer, is a fault. \<open>na_handoffs\<close> is the memory at which \<open>external_proxy_handoff\<close> objects
  live (their magic number and receiver). \<open>na_pending\<close> says that a JavaScript exception is pending, and
  \<open>na_world\<close> is the rest of the engine's state.
\<close>

datatype na_resource = Reference nat | Receiver nat | Holder nat

record 'w napi =
  na_held :: "na_resource multiset"
  na_pending :: bool
  na_fault :: bool
  na_handoffs :: "nat \<Rightarrow> (u64 \<times> nat option) option"
  na_world :: 'w

datatype napi_valuetype = NapiUndefined | NapiString | NapiFunction | NapiOther

text \<open>What \<open>napi_get_cb_info\<close> reports: the arguments passed, the receiver and the data pointer.\<close>

record cb_info =
  cb_args :: "nat list"
  cb_this :: "nat option"
  cb_data :: "nat option"

text \<open>
  The Node-API functions the backend calls, as the engine implements them: the status and the
  output, \<open>None\<close> when the status is not \<open>napi_ok\<close>. They are not code of the program; what they
  promise is \<open>lawful_napi\<close>. \<open>api_new_instance\<close> gets the native constructor callback of the
  class it instantiates, if it has one, which the engine runs on the new object.
\<close>

record 'w napi_api =
  api_create_reference :: "nat option \<Rightarrow> nat \<Rightarrow> 'w napi \<Rightarrow> nat option \<times> 'w napi"
  api_delete_reference :: "nat option \<Rightarrow> nat \<Rightarrow> 'w napi \<Rightarrow> 'w napi"
  api_reference_value :: "nat option \<Rightarrow> nat \<Rightarrow> 'w napi \<Rightarrow> nat option option \<times> 'w napi"
  api_undefined :: "nat option \<Rightarrow> 'w napi \<Rightarrow> nat option \<times> 'w napi"
  api_get_property :: "nat option \<Rightarrow> nat option \<Rightarrow> string \<Rightarrow> 'w napi \<Rightarrow> nat option \<times> 'w napi"
  api_set_property :: "nat option \<Rightarrow> nat option \<Rightarrow> string \<Rightarrow> nat option \<Rightarrow> 'w napi \<Rightarrow> unit option \<times> 'w napi"
  api_typeof :: "nat option \<Rightarrow> nat \<Rightarrow> 'w napi \<Rightarrow> napi_valuetype option \<times> 'w napi"
  api_call_function ::
    "nat option \<Rightarrow> nat option \<Rightarrow> nat option \<Rightarrow> nat option list \<Rightarrow> 'w napi \<Rightarrow> nat option \<times> 'w napi"
  api_new_instance ::
    "nat option \<Rightarrow> nat option \<Rightarrow> nat option list \<Rightarrow> (cb_info \<Rightarrow> 'w napi \<Rightarrow> nat option outcome \<times> 'w napi) option \<Rightarrow>
     'w napi \<Rightarrow> nat option \<times> 'w napi"
  api_unwrap :: "nat option \<Rightarrow> nat option \<Rightarrow> 'w napi \<Rightarrow> nat option option \<times> 'w napi"
  api_type_tag :: "nat option \<Rightarrow> nat option \<Rightarrow> nat \<Rightarrow> 'w napi \<Rightarrow> unit option \<times> 'w napi"
  api_check_tag :: "nat option \<Rightarrow> nat \<Rightarrow> nat \<Rightarrow> 'w napi \<Rightarrow> bool option \<times> 'w napi"
  api_instanceof :: "nat option \<Rightarrow> nat \<Rightarrow> nat option \<Rightarrow> 'w napi \<Rightarrow> bool option \<times> 'w napi"
  api_wrap :: "nat option \<Rightarrow> nat option \<Rightarrow> nat \<Rightarrow> 'w napi \<Rightarrow> unit option \<times> 'w napi"
  api_create_external :: "nat option \<Rightarrow> nat \<Rightarrow> 'w napi \<Rightarrow> nat option \<times> 'w napi"
  api_external_value :: "nat option \<Rightarrow> nat \<Rightarrow> 'w napi \<Rightarrow> nat option option \<times> 'w napi"
  api_create_function :: "nat option \<Rightarrow> string \<Rightarrow> nat \<Rightarrow> 'w napi \<Rightarrow> nat option \<times> 'w napi"
  api_define_class :: "nat option \<Rightarrow> string \<Rightarrow> nat \<Rightarrow> 'w napi \<Rightarrow> nat option \<times> 'w napi"
  api_add_finalizer :: "nat option \<Rightarrow> nat option \<Rightarrow> nat \<Rightarrow> 'w napi \<Rightarrow> unit option \<times> 'w napi"
  api_add_cleanup_hook :: "nat option \<Rightarrow> nat \<Rightarrow> 'w napi \<Rightarrow> unit option \<times> 'w napi"
  api_create_object :: "nat option \<Rightarrow> 'w napi \<Rightarrow> nat option \<times> 'w napi"
  api_throw_error :: "nat option \<Rightarrow> bytes \<Rightarrow> 'w napi \<Rightarrow> 'w napi"

subsection \<open>Owning and giving away\<close>

definition na_own :: "na_resource \<Rightarrow> 'w napi \<Rightarrow> 'w napi" where
  "na_own x s = s\<lparr>na_held := na_held s + {#x#}\<rparr>"

definition na_give :: "na_resource \<Rightarrow> 'w napi \<Rightarrow> 'w napi" where
  "na_give x s =
     (if x \<in># na_held s then s\<lparr>na_held := na_held s - {#x#}\<rparr> else s\<lparr>na_fault := True\<rparr>)"

text \<open>\<open>napi_create_reference\<close> and \<open>napi_delete_reference\<close> with what they do to the ghost.\<close>

definition napi_create_reference ::
    "'w napi_api \<Rightarrow> nat option \<Rightarrow> nat \<Rightarrow> 'w napi \<Rightarrow> nat option \<times> 'w napi" where
  "napi_create_reference api env v s =
     (case api_create_reference api env v s of
        (None, s') \<Rightarrow> (None, s')
      | (Some r, s') \<Rightarrow> (Some r, na_own (Reference r) s'))"

definition napi_delete_reference :: "'w napi_api \<Rightarrow> nat option \<Rightarrow> nat \<Rightarrow> 'w napi \<Rightarrow> 'w napi" where
  "napi_delete_reference api env r s = api_delete_reference api env r (na_give (Reference r) s)"

text \<open>\<open>check\<close>: a status that is not \<open>napi_ok\<close> becomes a \<open>std::runtime_error\<close>.\<close>

definition napi_check :: "('w napi \<Rightarrow> 'a option \<times> 'w napi) \<Rightarrow> string \<Rightarrow> ('w napi, 'a) action" where
  "napi_check call message s =
     (case call s of
        (None, s') \<Rightarrow> (Throw (RuntimeError message), s')
      | (Some x, s') \<Rightarrow> (Return x, s'))"

subsection \<open>\<open>object_t\<close>\<close>

record na_object =
  ob_env :: "nat option"
  ob_ref :: "nat option"

definition object_empty :: na_object where
  "object_empty = \<lparr>ob_env = None, ob_ref = None\<rparr>"

definition object_make ::
    "'w napi_api \<Rightarrow> nat option \<Rightarrow> nat option \<Rightarrow> ('w napi, na_object) action" where
  "object_make api env value =
     (case value of
        None \<Rightarrow> act_return \<lparr>ob_env = env, ob_ref = None\<rparr>
      | Some v \<Rightarrow>
          act_bind (napi_check (napi_create_reference api env v) ''napi_create_reference failed'')
            (\<lambda>r. act_return \<lparr>ob_env = env, ob_ref = Some r\<rparr>))"

definition object_release :: "na_object \<Rightarrow> nat option \<times> na_object" where
  "object_release this = (ob_ref this, this\<lparr>ob_ref := None\<rparr>)"

definition object_move :: "na_object \<Rightarrow> na_object \<times> na_object" where
  "object_move other =
     (case object_release other of (r, other') \<Rightarrow> (\<lparr>ob_env = ob_env other, ob_ref = r\<rparr>, other'))"

definition object_reset :: "'w napi_api \<Rightarrow> na_object \<Rightarrow> 'w napi \<Rightarrow> na_object \<times> 'w napi" where
  "object_reset api this s =
     (case ob_ref this of
        None \<Rightarrow> (this, s)
      | Some r \<Rightarrow> (this\<lparr>ob_ref := None\<rparr>, napi_delete_reference api (ob_env this) r s))"

definition object_destroy :: "'w napi_api \<Rightarrow> na_object \<Rightarrow> 'w napi \<Rightarrow> 'w napi" where
  "object_destroy api this s = snd (object_reset api this s)"

text \<open>Move assignment: the objects it leaves and the reference it deletes, and its effect.\<close>

definition object_assign_refs ::
    "bool \<Rightarrow> na_object \<Rightarrow> na_object \<Rightarrow> na_object \<times> na_object \<times> nat multiset" where
  "object_assign_refs same this other =
     (if same then (this, other, {#})
      else case object_release other of (r, other') \<Rightarrow>
        (\<lparr>ob_env = ob_env other, ob_ref = r\<rparr>, other', opt_mset (ob_ref this)))"

definition object_assign ::
    "'w napi_api \<Rightarrow> bool \<Rightarrow> na_object \<Rightarrow> na_object \<Rightarrow> 'w napi \<Rightarrow> (na_object \<times> na_object) \<times> 'w napi" where
  "object_assign api same this other s =
     (case object_assign_refs same this other of (this', other', rel) \<Rightarrow>
        ((this', other'), if same then s else snd (object_reset api this s)))"

text \<open>\<open>get\<close> ignores the status: the value stays null when there is none.\<close>

definition object_get :: "'w napi_api \<Rightarrow> na_object \<Rightarrow> 'w napi \<Rightarrow> nat option \<times> 'w napi" where
  "object_get api this s =
     (case ob_ref this of
        None \<Rightarrow> (None, s)
      | Some r \<Rightarrow>
          (case api_reference_value api (ob_env this) r s of
             (None, s') \<Rightarrow> (None, s') | (Some value, s') \<Rightarrow> (value, s')))"

definition object_native :: "'w napi_api \<Rightarrow> na_object \<Rightarrow> 'w napi \<Rightarrow> nat option \<times> 'w napi" where
  "object_native api this s =
     (if ob_ref this = None then (None, s)
      else case object_get api this s of (value, s1) \<Rightarrow>
        (case api_unwrap api (ob_env this) value s1 of
           (None, s2) \<Rightarrow> (None, s2) | (Some receiver, s2) \<Rightarrow> (receiver, s2)))"

text \<open>
  \<open>reset(env, value)\<close>: the object lets go of what it had first, so that after an exception it
  holds nothing.
\<close>

definition object_reset_to ::
    "'w napi_api \<Rightarrow> nat option \<Rightarrow> nat option \<Rightarrow> na_object \<Rightarrow> ('w napi, na_object) action" where
  "object_reset_to api env value this s =
     (case object_reset api this s of (this', s') \<Rightarrow>
        (case value of
           None \<Rightarrow> (Return (this'\<lparr>ob_env := env\<rparr>), s')
         | Some v \<Rightarrow>
             act_bind (napi_check (napi_create_reference api env v) ''napi_create_reference failed'')
               (\<lambda>r. act_return (this'\<lparr>ob_env := env, ob_ref := Some r\<rparr>)) s'))"

interpretation napi_object: move_only_owner ob_ref object_move object_assign_refs
    "\<lambda>s. opt_mset (ob_ref s)"
  by unfold_locales (auto simp: object_move_def object_release_def object_assign_refs_def)

subsection \<open>Conservation of resources\<close>

text \<open>
  A step that consumes the resources \<open>U\<close> and produces those of its result, whatever else
  (\<open>F\<close>) native code owns; a C++ exception in flight owns none.
\<close>

definition outcome_held :: "('a \<Rightarrow> na_resource multiset) \<Rightarrow> 'a outcome \<Rightarrow> na_resource multiset" where
  "outcome_held V r = (case r of Return x \<Rightarrow> V x | _ \<Rightarrow> {#})"

lemma outcome_held_simps [simp]:
  "outcome_held V (Return x) = V x" "outcome_held V (Throw e) = {#}" "outcome_held V Abort = {#}"
  by (simp_all add: outcome_held_def)

named_theorems keeping \<open>what keeps the resources native code holds, part by part\<close>

definition keeps :: "na_resource multiset \<Rightarrow> ('w napi, 'a) action \<Rightarrow> ('a \<Rightarrow> na_resource multiset) \<Rightarrow> bool" where
  "keeps U f V \<longleftrightarrow> (\<forall>s F. \<not> na_fault s \<longrightarrow> na_held s = F + U \<longrightarrow>
     \<not> na_fault (snd (f s)) \<and> na_held (snd (f s)) = F + outcome_held V (fst (f s)))"

text \<open>The same for a step that cannot fail.\<close>

definition drops :: "na_resource multiset \<Rightarrow> ('w napi \<Rightarrow> 'w napi) \<Rightarrow> bool" where
  "drops U f \<longleftrightarrow> (\<forall>s F. \<not> na_fault s \<longrightarrow> na_held s = F + U \<longrightarrow>
     \<not> na_fault (f s) \<and> na_held (f s) = F)"

lemma keepsI:
  "(\<And>s F r s'. \<not> na_fault s \<Longrightarrow> na_held s = F + U \<Longrightarrow> f s = (r, s') \<Longrightarrow>
      \<not> na_fault s' \<and> na_held s' = F + outcome_held V r) \<Longrightarrow> keeps U f V"
  by (metis keeps_def prod.collapse)

lemma keepsD:
  "keeps U f V \<Longrightarrow> \<not> na_fault s \<Longrightarrow> na_held s = F + U \<Longrightarrow> f s = (r, s') \<Longrightarrow>
     \<not> na_fault s' \<and> na_held s' = F + outcome_held V r"
  unfolding keeps_def by (metis fst_conv snd_conv)

lemma dropsD: "drops U f \<Longrightarrow> \<not> na_fault s \<Longrightarrow> na_held s = F + U \<Longrightarrow> \<not> na_fault (f s) \<and> na_held (f s) = F"
  by (simp add: drops_def)

lemma keeps_return: "keeps (V x) (act_return x) V"
  by (rule keepsI) (auto simp: act_return_def)

lemma keeps_pure [simp, keeping]: "keeps {#} (act_return x) (\<lambda>_. {#})"
  using keeps_return [of "\<lambda>_. {#}" x] by simp

lemma keeps_throw: "keeps {#} (\<lambda>s. (Throw e, s)) V"
  by (rule keepsI) auto

lemma keeps_bind:
  assumes "keeps U f V" "\<And>x. keeps (V x) (g x) W"
  shows "keeps U (act_bind f g) W"
proof (rule keepsI)
  fix s F r s'
  assume s: "\<not> na_fault s" "na_held s = F + U" and r: "act_bind f g s = (r, s')"
  obtain a t where f: "f s = (a, t)" by fastforce
  note t = keepsD [OF assms(1) s f]
  show "\<not> na_fault s' \<and> na_held s' = F + outcome_held W r"
  proof (cases a)
    case (Return x)
    with f r have "g x t = (r, s')" by (simp add: act_bind_step)
    then show ?thesis using keepsD [OF assms(2), of t F x r s'] t Return by simp
  qed (use f r t in \<open>auto simp: act_bind_step\<close>)
qed

text \<open>The common case: the first part leaves nothing behind.\<close>

lemma keeps_then [keeping]:
  "keeps U f (\<lambda>_. {#}) \<Longrightarrow> (\<And>x. keeps {#} (g x) W) \<Longrightarrow> keeps U (act_bind f g) W"
  by (rule keeps_bind)

lemma drops_comp: "drops U f \<Longrightarrow> drops V g \<Longrightarrow> drops (U + V) (\<lambda>s. g (f s))"
  unfolding drops_def by (metis union_assoc union_commute)

text \<open>A scope that releases \<open>U\<close> on every way out, and one that releases it when an error passes.\<close>

definition finally_do :: "('w napi \<Rightarrow> 'w napi) \<Rightarrow> ('w napi, 'a) action \<Rightarrow> ('w napi, 'a) action" where
  "finally_do g f s = (case f s of (r, s') \<Rightarrow> (r, g s'))"

definition on_throw :: "('w napi \<Rightarrow> 'w napi) \<Rightarrow> ('w napi, 'a) action \<Rightarrow> ('w napi, 'a) action" where
  "on_throw g f s = (case f s of (Return x, s') \<Rightarrow> (Return x, s') | (r, s') \<Rightarrow> (r, g s'))"

lemma keeps_finally:
  assumes "keeps U f V" "drops A g"
  shows "keeps (U + A) (finally_do g f) V"
proof (rule keepsI)
  fix s F r s'
  assume s: "\<not> na_fault s" "na_held s = F + (U + A)" and r: "finally_do g f s = (r, s')"
  from r obtain t where f: "f s = (r, t)" and s': "s' = g t"
    by (auto simp: finally_do_def split: prod.splits)
  have "\<not> na_fault t \<and> na_held t = (F + A) + outcome_held V r"
    using s by (intro keepsD [OF assms(1) _ _ f]) (simp_all add: ac_simps)
  then show "\<not> na_fault s' \<and> na_held s' = F + outcome_held V r"
    unfolding s' by (intro dropsD [OF assms(2)]) (simp_all add: ac_simps)
qed

lemma keeps_on_throw:
  assumes "keeps U f V" "drops A g"
  shows "keeps (U + A) (on_throw g f) (\<lambda>x. V x + A)"
proof (rule keepsI)
  fix s F r s'
  assume s: "\<not> na_fault s" "na_held s = F + (U + A)" and r: "on_throw g f s = (r, s')"
  obtain r1 t where f: "f s = (r1, t)" by fastforce
  have t: "\<not> na_fault t \<and> na_held t = (F + A) + outcome_held V r1"
    using s by (intro keepsD [OF assms(1) _ _ f]) (simp_all add: ac_simps)
  have "\<not> na_fault (g t) \<and> na_held (g t) = F" if "outcome_held V r1 = {#}"
    using t that by (intro dropsD [OF assms(2)]) simp_all
  then show "\<not> na_fault s' \<and> na_held s' = F + outcome_held (\<lambda>x. V x + A) r"
    using r f t by (cases r1) (auto simp: on_throw_def ac_simps)
qed

lemma keeps_post:
  assumes "keeps U f V" "\<And>s x t. f s = (Return x, t) \<Longrightarrow> V x = W x"
  shows "keeps U f W"
proof (rule keepsI)
  fix s F r s'
  assume s: "\<not> na_fault s" "na_held s = F + U" and r: "f s = (r, s')"
  have "outcome_held W r = outcome_held V r" using assms(2) r by (cases r) auto
  with keepsD [OF assms(1) s r] show "\<not> na_fault s' \<and> na_held s' = F + outcome_held W r" by simp
qed

subsection \<open>What the engine promises\<close>

text \<open>
  A function of the engine may run JavaScript, which may call native code again; but it leaves
  alone what native code that is running owns.
\<close>

definition na_quiet :: "('w napi \<Rightarrow> 'w napi) \<Rightarrow> bool" where
  "na_quiet f \<longleftrightarrow> (\<forall>s. (na_fault (f s) \<longrightarrow> na_fault s) \<and> na_held (f s) = na_held s \<and>
     na_handoffs (f s) = na_handoffs s)"

text \<open>
  Instantiating a class: the engine may refuse before it runs the constructor callback, and does
  when an argument is null; when it runs it, then once, with the arguments given, and it fails
  when an exception is pending after.
\<close>

definition instantiates ::
    "((cb_info \<Rightarrow> 'w napi \<Rightarrow> nat option outcome \<times> 'w napi) option \<Rightarrow> 'w napi \<Rightarrow> nat option \<times> 'w napi) \<Rightarrow>
     nat option list \<Rightarrow> bool" where
  "instantiates call args \<longleftrightarrow> na_quiet (\<lambda>s. snd (call None s)) \<and>
     (\<forall>cb s. \<exists>pre post. na_quiet pre \<and> na_quiet post \<and>
        (call (Some cb) s = (None, pre s) \<or>
         (\<exists>info v t. map Some (cb_args info) = args \<and> t = snd (cb info (pre s)) \<and>
            call (Some cb) s = (v, post t) \<and> (v \<noteq> None \<longrightarrow> \<not> na_pending t))))"

definition lawful_napi :: "'w napi_api \<Rightarrow> bool" where
  "lawful_napi api \<longleftrightarrow>
     (\<forall>env v. na_quiet (\<lambda>s. snd (api_create_reference api env v s))) \<and>
     (\<forall>env r. na_quiet (api_delete_reference api env r)) \<and>
     (\<forall>env r. na_quiet (\<lambda>s. snd (api_reference_value api env r s))) \<and>
     (\<forall>env. na_quiet (\<lambda>s. snd (api_undefined api env s))) \<and>
     (\<forall>env x n. na_quiet (\<lambda>s. snd (api_get_property api env x n s))) \<and>
     (\<forall>env x n v. na_quiet (\<lambda>s. snd (api_set_property api env x n v s))) \<and>
     (\<forall>env v. na_quiet (\<lambda>s. snd (api_typeof api env v s))) \<and>
     (\<forall>env this f args. na_quiet (\<lambda>s. snd (api_call_function api env this f args s))) \<and>
     (\<forall>env f args. instantiates (api_new_instance api env f args) args) \<and>
     (\<forall>env v. na_quiet (\<lambda>s. snd (api_unwrap api env v s))) \<and>
     (\<forall>env v k. na_quiet (\<lambda>s. snd (api_type_tag api env v k s))) \<and>
     (\<forall>env v k. na_quiet (\<lambda>s. snd (api_check_tag api env v k s))) \<and>
     (\<forall>env v f. na_quiet (\<lambda>s. snd (api_instanceof api env v f s))) \<and>
     (\<forall>env v p. na_quiet (\<lambda>s. snd (api_wrap api env v p s))) \<and>
     (\<forall>env p. na_quiet (\<lambda>s. snd (api_create_external api env p s))) \<and>
     (\<forall>env v. na_quiet (\<lambda>s. snd (api_external_value api env v s))) \<and>
     (\<forall>env n h. na_quiet (\<lambda>s. snd (api_create_function api env n h s))) \<and>
     (\<forall>env n h. na_quiet (\<lambda>s. snd (api_define_class api env n h s))) \<and>
     (\<forall>env v h. na_quiet (\<lambda>s. snd (api_add_finalizer api env v h s))) \<and>
     (\<forall>env r. na_quiet (\<lambda>s. snd (api_add_cleanup_hook api env r s))) \<and>
     (\<forall>env. na_quiet (\<lambda>s. snd (api_create_object api env s))) \<and>
     (\<forall>env m. na_quiet (api_throw_error api env m)) \<and>
     (\<forall>env m s. na_pending (api_throw_error api env m s))"


lemma lawful_napiD [keeping]:
  assumes "lawful_napi api"
  shows "na_quiet (\<lambda>s. snd (api_create_reference api env v s))"
    "na_quiet (api_delete_reference api env r)"
    "na_quiet (\<lambda>s. snd (api_reference_value api env r s))"
    "na_quiet (\<lambda>s. snd (api_undefined api env s))"
    "na_quiet (\<lambda>s. snd (api_get_property api env x n s))"
    "na_quiet (\<lambda>s. snd (api_set_property api env x n x' s))"
    "na_quiet (\<lambda>s. snd (api_typeof api env v s))"
    "na_quiet (\<lambda>s. snd (api_call_function api env x x' args s))"
    "instantiates (api_new_instance api env x args) args"
    "na_quiet (\<lambda>s. snd (api_unwrap api env x s))"
    "na_quiet (\<lambda>s. snd (api_type_tag api env x k s))"
    "na_quiet (\<lambda>s. snd (api_check_tag api env v k s))"
    "na_quiet (\<lambda>s. snd (api_instanceof api env v x s))"
    "na_quiet (\<lambda>s. snd (api_wrap api env x p s))"
    "na_quiet (\<lambda>s. snd (api_create_external api env p s))"
    "na_quiet (\<lambda>s. snd (api_external_value api env v s))"
    "na_quiet (\<lambda>s. snd (api_create_function api env n h s))"
    "na_quiet (\<lambda>s. snd (api_define_class api env n h s))"
    "na_quiet (\<lambda>s. snd (api_add_finalizer api env x h s))"
    "na_quiet (\<lambda>s. snd (api_create_object api env s))"
    "na_quiet (api_throw_error api env m)"
    "na_quiet (\<lambda>s. snd (api_add_cleanup_hook api env r s))"
    "na_pending (api_throw_error api env m s)"
  using assms by (simp_all add: lawful_napi_def)

lemma na_quietD:
  "na_quiet (\<lambda>s. snd (call s)) \<Longrightarrow> call s = (x, t) \<Longrightarrow>
     (na_fault t \<longrightarrow> na_fault s) \<and> na_held t = na_held s \<and> na_handoffs t = na_handoffs s"
  by (auto simp: na_quiet_def dest!: spec [of _ s])

lemma na_quietI:
  "(\<And>s x t. call s = (x, t) \<Longrightarrow>
     (na_fault t \<longrightarrow> na_fault s) \<and> na_held t = na_held s \<and> na_handoffs t = na_handoffs s) \<Longrightarrow>
   na_quiet (\<lambda>s. snd (call s))"
  unfolding na_quiet_def by (metis surj_pair snd_conv)

lemma drops_quiet: "na_quiet f \<Longrightarrow> drops {#} f"
  by (auto simp: drops_def na_quiet_def)

lemma drops_give: "na_quiet f \<Longrightarrow> drops {#x#} (\<lambda>s. f (na_give x s))"
  by (auto simp: drops_def na_quiet_def na_give_def)

lemma keeps_quiet:
  assumes "na_quiet (\<lambda>s. snd (call s))"
  shows "keeps {#} (\<lambda>s. case call s of (r, s') \<Rightarrow> (Return (g r), s')) (\<lambda>_. {#})"
  by (rule keepsI) (auto dest: na_quietD [OF assms] split: prod.splits)

lemma keeps_check [keeping]:
  assumes "na_quiet (\<lambda>s. snd (call s))"
  shows "keeps {#} (napi_check call m) (\<lambda>_. {#})"
proof (rule keepsI)
  fix s F r s'
  assume s: "\<not> na_fault s" "na_held s = F + {#}" and r: "napi_check call m s = (r, s')"
  obtain x t where c: "call s = (x, t)" by fastforce
  then have "\<not> na_fault t" "na_held t = F" using na_quietD [OF assms c] s by auto
  then show "\<not> na_fault s' \<and> na_held s' = F + outcome_held (\<lambda>_. {#}) r"
    using r c by (auto simp: napi_check_def split: option.splits)
qed

lemma keeps_create_reference:
  assumes "lawful_napi api"
  shows "keeps {#} (napi_check (napi_create_reference api env v) m) (\<lambda>r. {#Reference r#})"
proof (rule keepsI)
  fix s F r s'
  assume s: "\<not> na_fault s" "na_held s = F + {#}"
    and r: "napi_check (napi_create_reference api env v) m s = (r, s')"
  obtain x t where c: "api_create_reference api env v s = (x, t)" by fastforce
  have "\<not> na_fault t" "na_held t = F"
    using na_quietD [OF lawful_napiD(1) [OF assms] c] s by auto
  then show "\<not> na_fault s' \<and> na_held s' = F + outcome_held (\<lambda>r. {#Reference r#}) r"
    using r c by (auto simp: napi_check_def napi_create_reference_def na_own_def split: option.splits)
qed

lemma drops_delete_reference: "lawful_napi api \<Longrightarrow> drops {#Reference r#} (napi_delete_reference api env r)"
  unfolding napi_delete_reference_def by (intro drops_give lawful_napiD)

text \<open>What an \<open>object_t\<close> owns.\<close>

definition object_held :: "na_object \<Rightarrow> na_resource multiset" where
  "object_held ob = image_mset Reference (opt_mset (ob_ref ob))"

lemma object_held_simps [simp]:
  "object_held \<lparr>ob_env = env, ob_ref = None\<rparr> = {#}"
  "object_held \<lparr>ob_env = env, ob_ref = Some r\<rparr> = {#Reference r#}"
  "object_held (ob\<lparr>ob_ref := None\<rparr>) = {#}" "object_held (ob\<lparr>ob_ref := Some r\<rparr>) = {#Reference r#}"
  "object_held (ob\<lparr>ob_env := env\<rparr>) = object_held ob"
  by (simp_all add: object_held_def)

lemma keeps_object_make:
  assumes "lawful_napi api"
  shows "keeps {#} (object_make api env value) object_held"
proof (cases "value")
  case None
  then show ?thesis using keeps_return [of object_held "\<lparr>ob_env = env, ob_ref = None\<rparr>"]
    by (simp add: object_make_def)
next
  case (Some v)
  have "keeps {#Reference r#} (act_return \<lparr>ob_env = env, ob_ref = Some r\<rparr>) object_held" for r
    using keeps_return [of object_held "\<lparr>ob_env = env, ob_ref = Some r\<rparr>"] by simp
  from keeps_bind [OF keeps_create_reference [OF assms] this]
  show ?thesis by (simp add: object_make_def Some)
qed

lemma drops_object_destroy:
  assumes "lawful_napi api"
  shows "drops (object_held ob) (object_destroy api ob)"
proof (cases "ob_ref ob")
  case None
  then show ?thesis by (simp add: object_held_def object_destroy_def object_reset_def drops_def)
next
  case (Some r)
  then show ?thesis
    using drops_delete_reference [OF assms, of r "ob_env ob"]
    by (simp add: object_held_def object_destroy_def [abs_def] object_reset_def)
qed

lemma object_get_quiet: "lawful_napi api \<Longrightarrow> na_quiet (\<lambda>s. snd (object_get api this s))"
  by (rule na_quietI)
    (fastforce simp: object_get_def dest: na_quietD [OF lawful_napiD(3)] split: option.splits prod.splits)

lemma keeps_object_reset_to:
  assumes "lawful_napi api"
  shows "keeps (object_held ob) (object_reset_to api env v ob) object_held"
proof -
  have ob: "object_reset api ob s = (ob\<lparr>ob_ref := None\<rparr>, object_destroy api ob s)" for s
    by (cases ob) (auto simp: object_destroy_def object_reset_def split: option.splits)
  have eq: "object_reset_to api env v ob = (\<lambda>s.
      on_fst (\<lambda>r. ob\<lparr>ob_env := env, ob_ref := ob_ref r\<rparr>) (object_make api env v) (object_destroy api ob s))"
    if "on_fst = (\<lambda>g m s. case m s of (Return x, t) \<Rightarrow> (Return (g x), t) | (Throw e, t) \<Rightarrow> (Throw e, t) | (Abort, t) \<Rightarrow> (Abort, t))"
    for on_fst
    using that ob
    by (auto simp: object_reset_to_def fun_eq_iff object_make_def act_return_def act_bind_def
        split: option.splits outcome.splits prod.splits)
  show ?thesis
  proof (rule keepsI)
    fix s F r s'
    assume s: "\<not> na_fault s" "na_held s = F + object_held ob" and r: "object_reset_to api env v ob s = (r, s')"
    note d = dropsD [OF drops_object_destroy [OF assms] s]
    obtain x t where m: "object_make api env v (object_destroy api ob s) = (x, t)" by fastforce
    have "\<not> na_fault t \<and> na_held t = F + outcome_held object_held x"
      using d by (intro keepsD [OF keeps_object_make [OF assms] _ _ m]) simp_all
    then show "\<not> na_fault s' \<and> na_held s' = F + outcome_held object_held r"
      using eq [OF refl] r m by (cases x) (auto simp: object_held_def)
  qed
qed

subsection \<open>An engine for examples\<close>

text \<open>
  Every operation succeeds: objects are the number 9, references 3, strings and numbers have no
  content. An external value is its data pointer, and a wrapped object holds the pointer 20.
\<close>

definition sample_instance ::
    "nat option list \<Rightarrow> (cb_info \<Rightarrow> nat napi \<Rightarrow> nat option outcome \<times> nat napi) option \<Rightarrow> nat napi \<Rightarrow>
     nat option \<times> nat napi" where
  "sample_instance args cb s =
     (case cb of
        None \<Rightarrow> (Some 9, s)
      | Some f \<Rightarrow>
          if None \<in> set args then (None, s)
          else (case f \<lparr>cb_args = map the args, cb_this = Some 9, cb_data = Some 1\<rparr> s of
            (r, t) \<Rightarrow> (if na_pending t then None else Some 9, t)))"

definition sample_napi :: "nat napi_api" where
  "sample_napi =
     \<lparr>api_create_reference = (\<lambda>env v s. (Some 3, s)), api_delete_reference = (\<lambda>env r s. s),
      api_reference_value = (\<lambda>env r s. (Some (Some 9), s)), api_undefined = (\<lambda>env s. (Some 0, s)),
      api_get_property = (\<lambda>env x n s. (Some 9, s)), api_set_property = (\<lambda>env x n v s. (Some (), s)),
      api_typeof = (\<lambda>env v s. (Some NapiFunction, s)), api_call_function = (\<lambda>env this f args s. (Some 8, s)),
      api_new_instance = (\<lambda>env f. sample_instance), api_unwrap = (\<lambda>env v s. (Some (Some 20), s)),
      api_type_tag = (\<lambda>env v k s. (Some (), s)), api_check_tag = (\<lambda>env v k s. (Some True, s)),
      api_instanceof = (\<lambda>env v f s. (Some True, s)), api_wrap = (\<lambda>env v p s. (Some (), s)),
      api_create_external = (\<lambda>env p s. (Some p, s)), api_external_value = (\<lambda>env v s. (Some (Some v), s)),
      api_create_function = (\<lambda>env n h s. (Some 9, s)), api_define_class = (\<lambda>env n h s. (Some 9, s)),
      api_add_finalizer = (\<lambda>env v h s. (Some (), s)), api_add_cleanup_hook = (\<lambda>env r s. (Some (), s)),
      api_create_object = (\<lambda>env s. (Some 9, s)), api_throw_error = (\<lambda>env m s. s\<lparr>na_pending := True\<rparr>)\<rparr>"

definition sample_env :: "na_resource multiset \<Rightarrow> nat napi" where
  "sample_env held =
     \<lparr>na_held = held, na_pending = False, na_fault = False, na_handoffs = (\<lambda>a. None), na_world = 0\<rparr>"

lemma sample_instance_ok: "instantiates (sample_instance args) args"
proof -
  have id: "na_quiet (\<lambda>s :: nat napi. s)" by (simp add: na_quiet_def)
  have "\<exists>pre post. na_quiet pre \<and> na_quiet post \<and>
      (sample_instance args (Some cb) s = (None, pre s) \<or>
       (\<exists>info v t. map Some (cb_args info) = args \<and> t = snd (cb info (pre s)) \<and>
          sample_instance args (Some cb) s = (v, post t) \<and> (v \<noteq> None \<longrightarrow> \<not> na_pending t)))" for cb s
  proof (cases "None \<in> set args")
    case True
    then show ?thesis using id by (intro exI [of _ "\<lambda>s. s"]) (simp add: sample_instance_def)
  next
    case False
    then have args: "map Some (map the args) = args" by (induction args) auto
    let ?info = "\<lparr>cb_args = map the args, cb_this = Some 9, cb_data = Some 1\<rparr>"
    have "map Some (cb_args ?info) = args" using args by simp
    then show ?thesis
      using id False by (intro exI [of _ "\<lambda>s. s"] conjI disjI2 exI [of _ ?info])
        (auto simp: sample_instance_def split: prod.split)
  qed
  then show ?thesis by (simp add: instantiates_def sample_instance_def id)
qed

lemma sample_napi_lawful: "lawful_napi sample_napi"
proof -
  have id: "na_quiet (\<lambda>s :: nat napi. s)" by (simp add: na_quiet_def)
  have "na_quiet (\<lambda>s :: nat napi. s\<lparr>na_pending := True\<rparr>)" by (simp add: na_quiet_def)
  then show ?thesis by (simp add: lawful_napi_def sample_napi_def id sample_instance_ok)
qed

end
