(* ===== verification/NapiContext.thy ===== *)
theory NapiContext
  imports NapiRuntime
begin

section \<open>Contexts and class targets of the Node-API backend\<close>

text \<open>
  \<open>context_t\<close> and \<open>class_target_t\<close> (\<open>dynabridge/backends/napi.h\<close>): what a registered binding or
  class holds on to, its moves, and the release of a class constructor's reference when the
  environment is torn down.
\<close>

subsection \<open>\<open>context_t\<close>\<close>

record na_context =
  cx_env :: "nat option"
  cx_callable :: na_object
  cx_callable_cache :: "nat option"
  cx_this_cache :: "nat option"

definition refresh_this_arg :: "'w napi_api \<Rightarrow> na_context \<Rightarrow> ('w napi, na_context) action" where
  "refresh_this_arg api ctx =
     (if cx_env ctx = None then act_return ctx
      else act_bind (napi_check (api_undefined api (cx_env ctx)) ''napi_get_undefined failed'')
        (\<lambda>u. act_return (ctx\<lparr>cx_this_cache := Some u\<rparr>)))"

text \<open>
  The constructor owns a reference to its callable, the borrowing one does not. When a
  constructor throws, the members that were already there are destroyed.
\<close>

definition context_make ::
    "'w napi_api \<Rightarrow> nat option \<Rightarrow> nat option \<Rightarrow> ('w napi, na_context) action" where
  "context_make api env callable =
     act_bind (object_make api env callable) (\<lambda>ob.
       on_throw (object_destroy api ob)
         (refresh_this_arg api
           \<lparr>cx_env = env, cx_callable = ob, cx_callable_cache = callable, cx_this_cache = None\<rparr>))"

definition context_borrow ::
    "'w napi_api \<Rightarrow> nat option \<Rightarrow> nat option \<Rightarrow> ('w napi, na_context) action" where
  "context_borrow api env callable =
     refresh_this_arg api
       \<lparr>cx_env = env, cx_callable = object_empty, cx_callable_cache = callable, cx_this_cache = None\<rparr>"

definition context_move :: "na_context \<Rightarrow> na_context \<times> na_context" where
  "context_move other =
     (case object_move (cx_callable other) of (callable, callable') \<Rightarrow>
        (\<lparr>cx_env = cx_env other, cx_callable = callable,
          cx_callable_cache = cx_callable_cache other, cx_this_cache = cx_this_cache other\<rparr>,
         \<lparr>cx_env = None, cx_callable = callable', cx_callable_cache = None, cx_this_cache = None\<rparr>))"

definition context_assign_refs ::
    "bool \<Rightarrow> na_context \<Rightarrow> na_context \<Rightarrow> na_context \<times> na_context \<times> nat multiset" where
  "context_assign_refs same this other =
     (if same then (this, other, {#})
      else case object_assign_refs False (cx_callable this) (cx_callable other) of
        (callable, callable', rel) \<Rightarrow>
          (\<lparr>cx_env = cx_env other, cx_callable = callable,
            cx_callable_cache = cx_callable_cache other, cx_this_cache = cx_this_cache other\<rparr>,
           \<lparr>cx_env = None, cx_callable = callable', cx_callable_cache = None, cx_this_cache = None\<rparr>,
           rel))"

definition context_callable :: "'w napi_api \<Rightarrow> na_context \<Rightarrow> 'w napi \<Rightarrow> nat option \<times> na_context \<times> 'w napi" where
  "context_callable api ctx s =
     (if cx_callable_cache ctx = None
      then (case object_get api (cx_callable ctx) s of (v, s') \<Rightarrow> (v, ctx\<lparr>cx_callable_cache := v\<rparr>, s'))
      else (cx_callable_cache ctx, ctx, s))"

definition context_this_arg :: "'w napi_api \<Rightarrow> na_context \<Rightarrow> ('w napi, nat option \<times> na_context) action" where
  "context_this_arg api ctx =
     act_bind (if cx_this_cache ctx = None then refresh_this_arg api ctx else act_return ctx)
       (\<lambda>ctx'. act_return (cx_this_cache ctx', ctx'))"

definition refresh_callable :: "'w napi_api \<Rightarrow> na_context \<Rightarrow> 'w napi \<Rightarrow> na_context \<times> 'w napi" where
  "refresh_callable api ctx s =
     (case object_get api (cx_callable ctx) s of (v, s') \<Rightarrow> (ctx\<lparr>cx_callable_cache := v\<rparr>, s'))"

definition context_refresh :: "'w napi_api \<Rightarrow> na_context \<Rightarrow> ('w napi, na_context) action" where
  "context_refresh api ctx s = (case refresh_callable api ctx s of (ctx', s') \<Rightarrow> refresh_this_arg api ctx' s')"

definition set_callable ::
    "'w napi_api \<Rightarrow> nat option \<Rightarrow> na_context \<Rightarrow> ('w napi, na_context) action" where
  "set_callable api callable ctx =
     act_bind (object_reset_to api (cx_env ctx) callable (cx_callable ctx))
       (\<lambda>ob. act_return (ctx\<lparr>cx_callable := ob, cx_callable_cache := callable\<rparr>))"

interpretation napi_context: move_only_owner "\<lambda>c. ob_ref (cx_callable c)" context_move context_assign_refs
    "\<lambda>c. opt_mset (ob_ref (cx_callable c))"
  by unfold_locales
    (auto simp: context_move_def object_move_def object_release_def context_assign_refs_def
      object_assign_refs_def)

definition context_held :: "na_context \<Rightarrow> na_resource multiset" where
  "context_held ctx = object_held (cx_callable ctx)"

lemma keeps_refresh_this_arg:
  assumes "lawful_napi api"
  shows "keeps {#} (refresh_this_arg api ctx) (\<lambda>_. {#})"
proof (cases "cx_env ctx")
  case None
  then show ?thesis using keeps_return [of "\<lambda>_. {#}"] by (simp add: refresh_this_arg_def)
next
  case (Some env)
  then show ?thesis
    using keeps_bind [OF keeps_check [OF lawful_napiD(4) [OF assms]] keeps_return [of "\<lambda>_. {#}"]]
    by (simp add: refresh_this_arg_def)
qed

lemma refresh_this_arg_callable:
  "refresh_this_arg api ctx s = (Return ctx', t) \<Longrightarrow>
     cx_env ctx' = cx_env ctx \<and> cx_callable ctx' = cx_callable ctx \<and>
     cx_callable_cache ctx' = cx_callable_cache ctx \<and> (cx_env ctx \<noteq> None \<longrightarrow> cx_this_cache ctx' \<noteq> None)"
  by (auto simp: refresh_this_arg_def act_return_def act_bind_def
      split: if_splits outcome.splits prod.splits)

lemma keeps_context_make [keeping]:
  assumes "lawful_napi api"
  shows "keeps {#} (context_make api env callable) context_held"
  unfolding context_make_def
proof (rule keeps_bind [OF keeps_object_make [OF assms]])
  fix ob
  let ?f = "refresh_this_arg api
      \<lparr>cx_env = env, cx_callable = ob, cx_callable_cache = callable, cx_this_cache = None\<rparr>"
  from keeps_on_throw [OF keeps_refresh_this_arg [OF assms] drops_object_destroy [OF assms]]
  have "keeps (object_held ob) (on_throw (object_destroy api ob) ?f) (\<lambda>_. object_held ob)" by simp
  then show "keeps (object_held ob) (on_throw (object_destroy api ob) ?f) context_held"
  proof (rule keeps_post)
    fix s x t
    assume "on_throw (object_destroy api ob) ?f s = (Return x, t)"
    then have "?f s = (Return x, t)" by (auto simp: on_throw_def split: outcome.splits prod.splits)
    then show "object_held ob = context_held x"
      using refresh_this_arg_callable [of api _ s x t] by (simp add: context_held_def)
  qed
qed

lemma keeps_context_borrow:
  assumes "lawful_napi api"
  shows "keeps {#} (context_borrow api env callable) context_held"
  unfolding context_borrow_def
  using keeps_refresh_this_arg [OF assms]
  by (rule keeps_post) (auto dest!: refresh_this_arg_callable simp: context_held_def object_empty_def)

lemma keeps_set_callable:
  assumes "lawful_napi api"
  shows "keeps (context_held ctx) (set_callable api callable ctx) context_held"
  unfolding set_callable_def context_held_def
proof (rule keeps_bind [OF keeps_object_reset_to [OF assms]])
  fix ob
  show "keeps (object_held ob) (act_return (ctx\<lparr>cx_callable := ob, cx_callable_cache := callable\<rparr>))
      (\<lambda>ctx. object_held (cx_callable ctx))"
    using keeps_return [of "\<lambda>ctx. object_held (cx_callable ctx)" "ctx\<lparr>cx_callable := ob, cx_callable_cache := callable\<rparr>"]
    by simp
qed

subsection \<open>A class target and its constructor reference\<close>

text \<open>
  \<open>class_target_t\<close> keeps the class alive through a \<open>constructor_reference\<close> behind a
  \<open>unique_ptr\<close> (here the reference it holds, or null) and a copy of the raw handle.
\<close>

record class_target =
  ct_reference :: "nat option"
  ct_env :: "nat option"
  ct_constructor :: "nat option"
  ct_state :: "nat option"

definition class_target_empty :: class_target where
  "class_target_empty = \<lparr>ct_reference = None, ct_env = None, ct_constructor = None, ct_state = None\<rparr>"

text \<open>
  The constructor of \<open>constructor_reference\<close>: when the cleanup hook is refused, the reference is
  deleted again.
\<close>

definition constructor_reference ::
    "'w napi_api \<Rightarrow> nat option \<Rightarrow> nat \<Rightarrow> ('w napi, nat) action" where
  "constructor_reference api env constructor =
     act_bind (napi_check (napi_create_reference api env constructor)
         ''napi_create_reference failed for class constructor'')
       (\<lambda>r s. case api_add_cleanup_hook api env r s of
          (None, s') \<Rightarrow>
            (Throw (RuntimeError ''napi_add_env_cleanup_hook failed''), napi_delete_reference api env r s')
        | (Some _, s') \<Rightarrow> (Return r, s'))"

definition class_target_make ::
    "'w napi_api \<Rightarrow> nat option \<Rightarrow> nat \<Rightarrow> nat \<Rightarrow> ('w napi, class_target) action" where
  "class_target_make api env constructor st =
     act_bind (constructor_reference api env constructor) (\<lambda>r. act_return
       \<lparr>ct_reference = Some r, ct_env = env, ct_constructor = Some r, ct_state = Some st\<rparr>)"

definition class_target_held :: "class_target \<Rightarrow> na_resource multiset" where
  "class_target_held t = image_mset Reference (opt_mset (ct_reference t))"

lemma keeps_class_target_make [keeping]:
  assumes "lawful_napi api"
  shows "keeps {#} (class_target_make api env constructor st) class_target_held"
proof -
  have hook: "keeps {#Reference r#} (\<lambda>s. case api_add_cleanup_hook api env r s of
      (None, s') \<Rightarrow>
        (Throw (RuntimeError ''napi_add_env_cleanup_hook failed''), napi_delete_reference api env r s')
    | (Some _, s') \<Rightarrow> (Return r, s')) (\<lambda>r. {#Reference r#})" for r
  proof (rule keepsI)
    fix s F x s'
    assume s: "\<not> na_fault s" "na_held s = F + {#Reference r#}"
      and x: "(case api_add_cleanup_hook api env r s of
      (None, s') \<Rightarrow>
        (Throw (RuntimeError ''napi_add_env_cleanup_hook failed''), napi_delete_reference api env r s')
    | (Some _, s') \<Rightarrow> (Return r, s')) = (x, s')"
    obtain h t where c: "api_add_cleanup_hook api env r s = (h, t)" by fastforce
    have t: "\<not> na_fault t" "na_held t = F + {#Reference r#}"
      using na_quietD [OF lawful_napiD(22) [OF assms] c] s by auto
    show "\<not> na_fault s' \<and> na_held s' = F + outcome_held (\<lambda>r. {#Reference r#}) x"
      using dropsD [OF drops_delete_reference [OF assms] t] t x c by (cases h) auto
  qed
  have ret: "keeps {#Reference r#} (act_return
      \<lparr>ct_reference = Some r, ct_env = env, ct_constructor = Some r, ct_state = Some st\<rparr>) class_target_held" for r
    using keeps_return [of class_target_held
        "\<lparr>ct_reference = Some r, ct_env = env, ct_constructor = Some r, ct_state = Some st\<rparr>"]
    by (simp add: class_target_held_def)
  show ?thesis
    unfolding class_target_make_def constructor_reference_def
    by (rule keeps_bind [OF keeps_bind [OF keeps_create_reference [OF assms] hook] ret])
qed

definition class_target_move :: "class_target \<Rightarrow> class_target \<times> class_target" where
  "class_target_move other = (other, class_target_empty)"

definition class_target_assign ::
    "bool \<Rightarrow> class_target \<Rightarrow> class_target \<Rightarrow> class_target \<times> class_target \<times> nat multiset" where
  "class_target_assign same this other =
     (if same then (this, other, {#})
      else (other, class_target_empty, opt_mset (ct_reference this)))"

interpretation napi_class_target: move_only_owner ct_reference class_target_move class_target_assign
    "\<lambda>t. opt_mset (ct_reference t)"
  by unfold_locales (auto simp: class_target_move_def class_target_assign_def class_target_empty_def)

definition class_target_constructor :: "'w napi_api \<Rightarrow> class_target \<Rightarrow> ('w napi, nat option) action" where
  "class_target_constructor api this =
     napi_check (\<lambda>s. case ct_constructor this of
         None \<Rightarrow> (None, s)
       | Some r \<Rightarrow> api_reference_value api (ct_env this) r s)
       ''napi_get_reference_value failed for class constructor''"

definition class_target_define ::
    "'w napi_api \<Rightarrow> class_target \<Rightarrow> string \<Rightarrow> nat option \<Rightarrow> ('w napi, unit) action" where
  "class_target_define api this name v =
     act_bind (class_target_constructor api this) (\<lambda>constructor.
     act_bind (napi_check (api_get_property api (ct_env this) constructor ''prototype'')
         ''napi class prototype lookup failed'') (\<lambda>prototype.
       napi_check (api_set_property api (ct_env this) (Some prototype) name v)
         ''napi class method definition failed''))"

definition napi_module_define ::
    "'w napi_api \<Rightarrow> nat option \<Rightarrow> nat option \<Rightarrow> string \<Rightarrow> nat option \<Rightarrow> ('w napi, unit) action" where
  "napi_module_define api env module name v =
     napi_check (api_set_property api env module name v) ''napi_set_named_property failed''"

lemma keeps_class_target_constructor [keeping]:
  assumes "lawful_napi api"
  shows "keeps {#} (class_target_constructor api this) (\<lambda>_. {#})"
proof -
  have "na_quiet (\<lambda>s. snd (case ct_constructor this of None \<Rightarrow> (None, s)
      | Some r \<Rightarrow> api_reference_value api (ct_env this) r s))"
    using lawful_napiD(3) [OF assms] by (cases "ct_constructor this") (simp_all add: na_quiet_def)
  from keeps_check [OF this] show ?thesis by (simp add: class_target_constructor_def)
qed

lemma keeps_class_target_define [keeping]:
  assumes "lawful_napi api"
  shows "keeps {#} (class_target_define api this name v) (\<lambda>_. {#})"
  unfolding class_target_define_def
  by (intro keeping assms)

lemma keeps_napi_module_define:
  "lawful_napi api \<Longrightarrow> keeps {#} (napi_module_define api env module name v) (\<lambda>_. {#})"
  unfolding napi_module_define_def by (intro keeping)

subsection \<open>Releasing the reference when the environment goes away\<close>

text \<open>
  A \<open>constructor_reference\<close> registers itself as a cleanup hook, so that its reference is deleted
  by the environment's teardown or by its own destructor, whichever comes first; a class target in
  static storage may be destroyed after the environment is gone. \<open>cr_created\<close> and \<open>cr_deleted\<close>
  are ghosts. Using the environment after its teardown, running the hook on a deleted object and
  deleting a reference that is not live are faults.
\<close>

record cref_state =
  cr_live :: bool
  cr_env :: "nat option"
  cr_ref :: "nat option"
  cr_hook :: bool
  cr_env_up :: bool
  cr_created :: "nat multiset"
  cr_deleted :: "nat multiset"
  cr_fault :: bool

definition cr_initial :: cref_state where
  "cr_initial = \<lparr>cr_live = False, cr_env = None, cr_ref = None, cr_hook = False, cr_env_up = True,
     cr_created = {#}, cr_deleted = {#}, cr_fault = False\<rparr>"

text \<open>A call into the environment.\<close>

definition cr_use_env :: "cref_state \<Rightarrow> cref_state" where
  "cr_use_env s = s\<lparr>cr_fault := cr_fault s \<or> \<not> cr_env_up s\<rparr>"

definition cr_delete :: "nat option \<Rightarrow> cref_state \<Rightarrow> cref_state" where
  "cr_delete r s =
     (let s' = cr_use_env s in
      case r of
        None \<Rightarrow> s'\<lparr>cr_fault := True\<rparr>
      | Some x \<Rightarrow> s'\<lparr>cr_deleted := cr_deleted s' + {#x#},
          cr_fault := cr_fault s' \<or> x \<notin># cr_created s' - cr_deleted s'\<rparr>)"

text \<open>
  The constructor: the results of \<open>napi_create_reference\<close> (the new reference) and of
  \<open>napi_add_env_cleanup_hook\<close> are up to the engine. When it throws, there is no object.
\<close>

definition cref_make :: "nat \<Rightarrow> nat option \<Rightarrow> bool \<Rightarrow> cref_state \<Rightarrow> cref_state" where
  "cref_make env fresh hooked s =
     (case fresh of
        None \<Rightarrow> cr_use_env s
      | Some r \<Rightarrow>
          let s1 = cr_use_env (s\<lparr>cr_created := cr_created s + {#r#}\<rparr>) in
          if hooked
          then (cr_use_env s1)\<lparr>cr_live := True, cr_env := Some env, cr_ref := Some r, cr_hook := True\<rparr>
          else cr_delete (Some r) (cr_use_env s1))"

definition cref_cleanup :: "cref_state \<Rightarrow> cref_state" where
  "cref_cleanup s =
     (cr_delete (cr_ref s) (s\<lparr>cr_fault := cr_fault s \<or> \<not> cr_live s\<rparr>))\<lparr>cr_env := None, cr_ref := None\<rparr>"

definition cref_destroy :: "cref_state \<Rightarrow> cref_state" where
  "cref_destroy s =
     (let s1 = (if cr_env s \<noteq> None then cref_cleanup ((cr_use_env s)\<lparr>cr_hook := False\<rparr>) else s)
      in s1\<lparr>cr_live := False\<rparr>)"

text \<open>The engine's teardown runs the hooks that are registered.\<close>

definition env_teardown :: "cref_state \<Rightarrow> cref_state" where
  "env_teardown s =
     (let s1 = (if cr_hook s then cref_cleanup (s\<lparr>cr_hook := False\<rparr>) else s) in s1\<lparr>cr_env_up := False\<rparr>)"

inductive cref_step :: "cref_state \<Rightarrow> cref_state \<Rightarrow> bool" where
  step_make: "\<not> cr_live s \<Longrightarrow> cr_env_up s \<Longrightarrow> cref_step s (cref_make env fresh hooked s)"
| step_destroy: "cr_live s \<Longrightarrow> cref_step s (cref_destroy s)"
| step_teardown: "cr_env_up s \<Longrightarrow> cref_step s (env_teardown s)"

definition cref_inv :: "cref_state \<Rightarrow> bool" where
  "cref_inv s \<longleftrightarrow> \<not> cr_fault s \<and> cr_created s = cr_deleted s + opt_mset (cr_ref s) \<and>
     (cr_env s = None \<longleftrightarrow> cr_ref s = None) \<and> (cr_hook s \<longleftrightarrow> cr_live s \<and> cr_env s \<noteq> None) \<and>
     (cr_hook s \<longrightarrow> cr_env_up s) \<and> (\<not> cr_live s \<longrightarrow> cr_env s = None)"

lemmas cref_defs = cref_make_def cref_destroy_def env_teardown_def cref_cleanup_def cr_delete_def
  cr_use_env_def Let_def

interpretation cref: invariant_machine "\<lambda>s. s = cr_initial" cref_step cref_inv
proof
  fix s assume "s = cr_initial" then show "cref_inv s" by (simp add: cref_inv_def cr_initial_def)
next
  fix s t assume s: "cref_inv s" "cref_step s t"
  from s(2) show "cref_inv t"
  proof (cases rule: cref_step.cases)
    case (step_make env fresh hooked)
    with s(1) show ?thesis by (cases fresh) (auto simp: cref_inv_def cref_defs)
  next
    case step_destroy
    with s(1) show ?thesis by (auto simp: cref_inv_def cref_defs)
  next
    case step_teardown
    with s(1) show ?thesis by (auto simp: cref_inv_def cref_defs)
  qed
qed

text \<open>
  The reference that keeps an exported class alive is deleted exactly once, by the teardown of
  the environment or by the destructor of its owner, in whatever order these come, also when
  registering the cleanup hook fails; the environment is never used after its teardown, and the
  hook never runs on an owner that is gone.
\<close>

theorem napi_class_reference_once:
  assumes "reaches (\<lambda>s. s = cr_initial) cref_step s"
  shows "\<not> cr_fault s \<and> cr_deleted s \<subseteq># cr_created s \<and>
    (\<not> cr_live s \<or> \<not> cr_env_up s \<longrightarrow> cr_deleted s = cr_created s \<and> \<not> cr_hook s)"
  using cref.reaches_inv [OF assms] by (auto simp: cref_inv_def)

theorem napi_class_reference_once_witness:
  "reaches (\<lambda>s. s = cr_initial) cref_step (cref_destroy (env_teardown (cref_make 1 (Some 7) True cr_initial))) \<and>
   cr_deleted (cref_destroy (env_teardown (cref_make 1 (Some 7) True cr_initial))) = {#7#}"
proof -
  let ?a = "cref_make 1 (Some 7) True cr_initial"
  have "reaches (\<lambda>s. s = cr_initial) cref_step ?a"
    by (rule reaches_step [OF reaches_start [where start = "\<lambda>s. s = cr_initial", OF refl]])
      (rule step_make, simp_all add: cr_initial_def)
  then have "reaches (\<lambda>s. s = cr_initial) cref_step (env_teardown ?a)"
    by (rule reaches_step) (rule step_teardown, simp add: cr_initial_def cref_defs)
  then have r: "reaches (\<lambda>s. s = cr_initial) cref_step (cref_destroy (env_teardown ?a))"
    by (rule reaches_step) (rule step_destroy, simp add: cr_initial_def cref_defs)
  show ?thesis
    using napi_class_reference_once [OF r] r by (simp add: cr_initial_def cref_defs)
qed

end
