(* ===== verification/NapiCall.thy ===== *)
theory NapiCall
  imports NapiContext
begin

section \<open>Calling JavaScript\<close>

text \<open>
  How imported functions, members and classes are called through Node-API
  (\<open>dynabridge/backends/napi.h\<close>). Arguments are plain values, so only the context's caches and
  the resources of imported objects are state. Each operation returns the context it leaves
  behind, also when it throws.
\<close>

definition napi_call ::
    "'w napi_api \<Rightarrow> na_context \<Rightarrow> nat option \<Rightarrow> nat option list \<Rightarrow> 'w napi \<Rightarrow>
     nat outcome \<times> na_context \<times> 'w napi" where
  "napi_call api ctx callable args s =
     (case context_this_arg api ctx s of
        (Return (this, ctx'), s1) \<Rightarrow>
          (case napi_check (api_call_function api (cx_env ctx') this callable args)
               ''napi_call_function failed'' s1 of (r, s2) \<Rightarrow> (r, ctx', s2))
      | (Throw e, s1) \<Rightarrow> (Throw e, ctx, s1)
      | (Abort, s1) \<Rightarrow> (Abort, ctx, s1))"

text \<open>
  \<open>invoke_impl\<close>: \<open>convert\<close> is \<open>from_cast<R>\<close> of the result, or drops it when \<open>R\<close> is \<open>void\<close>; a
  member call passes the receiver in front of the arguments.
\<close>

definition napi_invoke_impl ::
    "'w napi_api \<Rightarrow> (nat \<Rightarrow> ('w napi, 'n) action) \<Rightarrow> na_context \<Rightarrow> nat option option \<Rightarrow>
     nat option list \<Rightarrow> 'w napi \<Rightarrow> 'n outcome \<times> na_context \<times> 'w napi" where
  "napi_invoke_impl api convert ctx receiver args s =
     (case context_callable api ctx s of (callable, ctx1, s1) \<Rightarrow>
        (case napi_call api ctx1 callable
             (case receiver of None \<Rightarrow> args | Some self \<Rightarrow> self # args) s1 of
           (Return x, ctx2, s2) \<Rightarrow> (case convert x s2 of (r, s3) \<Rightarrow> (r, ctx2, s3))
         | (Throw e, ctx2, s2) \<Rightarrow> (Throw e, ctx2, s2)
         | (Abort, ctx2, s2) \<Rightarrow> (Abort, ctx2, s2)))"

text \<open>The arguments are converted in the order the compiler chose; nothing has to be undone.\<close>

definition napi_invoke ::
    "'w napi_api \<Rightarrow> (nat \<Rightarrow> nat list) \<Rightarrow> (nat \<Rightarrow> ('w napi, 'n) action) \<Rightarrow> na_context \<Rightarrow> nat option option \<Rightarrow>
     (nat \<Rightarrow> ('w napi, nat option) action) \<Rightarrow> nat \<Rightarrow> 'w napi \<Rightarrow> 'n outcome \<times> na_context \<times> 'w napi" where
  "napi_invoke api order convert ctx receiver to n s =
     (case act_at (order n) to (replicate n None) s of
        (Return args, s1) \<Rightarrow> napi_invoke_impl api convert ctx receiver args s1
      | (Throw e, s1) \<Rightarrow> (Throw e, ctx, s1)
      | (Abort, s1) \<Rightarrow> (Abort, ctx, s1))"

text \<open>
  The constructor of an imported object: \<open>construct_import_object_impl\<close> makes a new instance of
  the imported class, which the object under construction, still empty, then refers to.
\<close>

definition napi_construct_import_object ::
    "'w napi_api \<Rightarrow> na_context \<Rightarrow> nat option list \<Rightarrow> 'w napi \<Rightarrow> na_object outcome \<times> na_context \<times> 'w napi" where
  "napi_construct_import_object api ctx args s =
     (let this = \<lparr>ob_env = cx_env ctx, ob_ref = None\<rparr> in
      case context_callable api ctx s of (callable, ctx', s1) \<Rightarrow>
        (case act_bind (napi_check (\<lambda>s. api_new_instance api (ob_env this) callable args None s)
               ''napi_new_instance failed'') (\<lambda>v. object_reset_to api (ob_env this) (Some v) this) s1 of
           (r, s2) \<Rightarrow> (r, ctx', s2)))"

definition import_property ::
    "'w napi_api \<Rightarrow> nat option \<Rightarrow> nat option \<Rightarrow> string \<Rightarrow> ('w napi, nat) action" where
  "import_property api env source name =
     napi_check (api_get_property api env source name) ''N-API import lookup failed''"

definition napi_import_module ::
    "'w napi_api \<Rightarrow> nat option \<Rightarrow> nat option \<Rightarrow> string \<Rightarrow> ('w napi, na_context) action" where
  "napi_import_module api env module name =
     act_bind (import_property api env module name) (\<lambda>v. context_make api env (Some v))"

definition napi_import_object ::
    "'w napi_api \<Rightarrow> na_object \<Rightarrow> string \<Rightarrow> ('w napi, na_context) action" where
  "napi_import_object api source name s =
     (case object_get api source s of (v, s1) \<Rightarrow>
        act_bind (import_property api (ob_env source) v name)
          (\<lambda>x. context_make api (ob_env source) (Some x)) s1)"

text \<open>\<open>try_import_callable_impl\<close>: a function argument, borrowed for the call.\<close>

definition napi_try_import_callable ::
    "'w napi_api \<Rightarrow> nat option \<Rightarrow> nat option \<Rightarrow> ('w napi, na_context option) action" where
  "napi_try_import_callable api env v s =
     (case v of
        None \<Rightarrow> (Return None, s)
      | Some x \<Rightarrow>
          (case api_typeof api env x s of (type, s1) \<Rightarrow>
             if type \<noteq> Some NapiFunction then (Return None, s1)
             else act_bind (context_borrow api env v) (\<lambda>ctx. act_return (Some ctx)) s1))"

definition napi_to_dynamic_object :: "'w napi_api \<Rightarrow> na_object \<Rightarrow> ('w napi, nat option) action" where
  "napi_to_dynamic_object api ob s = (case object_get api ob s of (v, s') \<Rightarrow> (Return v, s'))"

subsection \<open>What a call keeps\<close>

text \<open>The same accounting for operations that leave a context behind, which may own a reference.\<close>

definition keeps_ctx ::
    "na_context \<Rightarrow> na_resource multiset \<Rightarrow> ('w napi \<Rightarrow> 'a outcome \<times> na_context \<times> 'w napi) \<Rightarrow>
     ('a \<Rightarrow> na_resource multiset) \<Rightarrow> bool" where
  "keeps_ctx ctx U f V \<longleftrightarrow> keeps U (\<lambda>s. case f s of (r, ctx', s') \<Rightarrow> (r, s')) V \<and>
     (\<forall>s. context_held (fst (snd (f s))) = context_held ctx \<and> cx_env (fst (snd (f s))) = cx_env ctx)"

lemma context_callable_ok:
  assumes "lawful_napi api" "context_callable api ctx s = (v, ctx', s')"
  shows "context_held ctx' = context_held ctx" "cx_env ctx' = cx_env ctx"
    "(na_fault s' \<longrightarrow> na_fault s) \<and> na_held s' = na_held s"
  using assms(2) na_quietD [OF object_get_quiet [OF assms(1)]]
  by (fastforce simp: context_callable_def context_held_def split: if_splits prod.splits)+

lemma context_this_arg_ok:
  assumes "lawful_napi api"
  shows "keeps {#} (context_this_arg api ctx) (\<lambda>_. {#})"
    and "context_this_arg api ctx s = (Return (v, ctx'), s') \<Longrightarrow>
      context_held ctx' = context_held ctx \<and> cx_env ctx' = cx_env ctx"
proof -
  have "keeps {#} (if cx_this_cache ctx = None then refresh_this_arg api ctx else act_return ctx) (\<lambda>_. {#})"
    using keeps_refresh_this_arg [OF assms] by simp
  then show "keeps {#} (context_this_arg api ctx) (\<lambda>_. {#})"
    unfolding context_this_arg_def by (rule keeps_bind) (rule keeps_pure)
  show "context_this_arg api ctx s = (Return (v, ctx'), s') \<Longrightarrow>
      context_held ctx' = context_held ctx \<and> cx_env ctx' = cx_env ctx"
    by (auto simp: context_this_arg_def act_bind_def act_return_def context_held_def
        dest!: refresh_this_arg_callable split: if_splits outcome.splits prod.splits)
qed

lemma napi_call_keeps:
  assumes "lawful_napi api"
  shows "keeps_ctx ctx {#} (napi_call api ctx callable args) (\<lambda>_. {#})"
  unfolding keeps_ctx_def
proof (intro conjI allI)
  let ?call = "\<lambda>env this. napi_check (api_call_function api env this callable args) ''napi_call_function failed''"
  have "(\<lambda>s. case napi_call api ctx callable args s of (r, ctx', s') \<Rightarrow> (r, s')) =
      act_bind (context_this_arg api ctx) (\<lambda>(this, ctx'). ?call (cx_env ctx') this)"
    by (auto simp: napi_call_def act_bind_def fun_eq_iff split: outcome.splits prod.splits)
  moreover have "keeps {#} (case p of (this, ctx') \<Rightarrow> ?call (cx_env ctx') this) (\<lambda>_. {#})" for p
    by (cases p) (simp add: keeps_check lawful_napiD [OF assms])
  ultimately show "keeps {#} (\<lambda>s. case napi_call api ctx callable args s of (r, ctx', s') \<Rightarrow> (r, s')) (\<lambda>_. {#})"
    by (simp only:) (rule keeps_bind [OF context_this_arg_ok(1) [OF assms]])
  fix s
  obtain r s1 where c: "context_this_arg api ctx s = (r, s1)" by fastforce
  have "context_held (fst (snd (napi_call api ctx callable args s))) = context_held ctx \<and>
      cx_env (fst (snd (napi_call api ctx callable args s))) = cx_env ctx"
  proof (cases r)
    case (Return p)
    obtain this ctx' where p: "p = (this, ctx')" by fastforce
    with c Return show ?thesis
      using context_this_arg_ok(2) [OF assms, of ctx s this ctx' s1]
      by (simp add: napi_call_def split: prod.split)
  qed (simp_all add: napi_call_def c)
  then show "context_held (fst (snd (napi_call api ctx callable args s))) = context_held ctx"
    "cx_env (fst (snd (napi_call api ctx callable args s))) = cx_env ctx" by simp_all
qed

lemma napi_invoke_impl_keeps:
  assumes "lawful_napi api" "\<And>x. keeps {#} (convert x) V"
  shows "keeps_ctx ctx {#} (napi_invoke_impl api convert ctx receiver args) V"
  unfolding keeps_ctx_def
proof (intro conjI allI)
  let ?args = "case receiver of None \<Rightarrow> args | Some self \<Rightarrow> self # args"
  show "keeps {#} (\<lambda>s. case napi_invoke_impl api convert ctx receiver args s of (r, ctx', s') \<Rightarrow> (r, s')) V"
  proof (rule keepsI)
    fix s F r s'
    assume s: "\<not> na_fault s" "na_held s = F + {#}"
      and r: "(case napi_invoke_impl api convert ctx receiver args s of (r, ctx', s') \<Rightarrow> (r, s')) = (r, s')"
    obtain f ctx1 s1 where c: "context_callable api ctx s = (f, ctx1, s1)" by (metis prod_cases3)
    have s1: "\<not> na_fault s1" "na_held s1 = F + {#}" using context_callable_ok(3) [OF assms(1) c] s by auto
    have "keeps {#} (act_bind (\<lambda>s. case napi_call api ctx1 f ?args s of (r, ctx', s') \<Rightarrow> (r, s')) convert) V"
      using napi_call_keeps [OF assms(1)] assms(2) by (intro keeps_bind) (auto simp: keeps_ctx_def)
    moreover have "act_bind (\<lambda>s. case napi_call api ctx1 f ?args s of (r, ctx', s') \<Rightarrow> (r, s')) convert s1 = (r, s')"
      using r c by (auto simp: napi_invoke_impl_def act_bind_def split: outcome.splits prod.splits)
    ultimately show "\<not> na_fault s' \<and> na_held s' = F + outcome_held V r" using s1 by (blast dest: keepsD)
  qed
  fix s
  obtain f ctx1 s1 where c: "context_callable api ctx s = (f, ctx1, s1)" by (metis prod_cases3)
  have "context_held (fst (snd (napi_call api ctx1 f ?args s1))) = context_held ctx1"
    "cx_env (fst (snd (napi_call api ctx1 f ?args s1))) = cx_env ctx1"
    using napi_call_keeps [OF assms(1)] by (auto simp: keeps_ctx_def)
  then have "context_held (fst (snd (napi_invoke_impl api convert ctx receiver args s))) = context_held ctx \<and>
    cx_env (fst (snd (napi_invoke_impl api convert ctx receiver args s))) = cx_env ctx"
    using c context_callable_ok(1,2) [OF assms(1) c]
    by (cases "napi_call api ctx1 f ?args s1"; cases "fst (napi_call api ctx1 f ?args s1)")
      (simp_all add: napi_invoke_impl_def split: prod.split)
  then show "context_held (fst (snd (napi_invoke_impl api convert ctx receiver args s))) = context_held ctx"
    "cx_env (fst (snd (napi_invoke_impl api convert ctx receiver args s))) = cx_env ctx" by simp_all
qed

lemma keeps_act_at:
  "(\<And>i. keeps {#} (to i) (\<lambda>_. {#})) \<Longrightarrow> keeps {#} (act_at is to res) (\<lambda>_. {#})"
proof (induction "is" arbitrary: res)
  case (Cons i "is")
  show ?case unfolding act_at.simps
    by (rule keeps_bind [OF Cons.prems]) (rule Cons.IH [OF Cons.prems])
qed simp

lemma napi_invoke_keeps:
  assumes "lawful_napi api" "\<And>i. keeps {#} (to i) (\<lambda>_. {#})" "\<And>x. keeps {#} (convert x) V"
  shows "keeps_ctx ctx {#} (napi_invoke api order convert ctx receiver to n) V"
  unfolding keeps_ctx_def
proof (intro conjI allI)
  let ?impl = "\<lambda>args. napi_invoke_impl api convert ctx receiver args"
  note impl = napi_invoke_impl_keeps [where convert = convert and ctx = ctx and receiver = receiver, OF assms(1,3), unfolded keeps_ctx_def]
  have "(\<lambda>s. case napi_invoke api order convert ctx receiver to n s of (r, ctx', s') \<Rightarrow> (r, s')) =
      act_bind (act_at (order n) to (replicate n None)) (\<lambda>args s. case ?impl args s of (r, ctx', s') \<Rightarrow> (r, s'))"
    by (auto simp: napi_invoke_def act_bind_def fun_eq_iff split: outcome.splits prod.splits)
  then show "keeps {#} (\<lambda>s. case napi_invoke api order convert ctx receiver to n s of (r, ctx', s') \<Rightarrow> (r, s')) V"
    using impl by (simp only:) (rule keeps_bind [OF keeps_act_at [OF assms(2)]], blast)
  fix s
  have "context_held (fst (snd (napi_invoke api order convert ctx receiver to n s))) = context_held ctx \<and>
      cx_env (fst (snd (napi_invoke api order convert ctx receiver to n s))) = cx_env ctx"
    using impl
    by (cases "act_at (order n) to (replicate n None) s"; cases "fst (act_at (order n) to (replicate n None) s)")
      (simp_all add: napi_invoke_def)
  then show "context_held (fst (snd (napi_invoke api order convert ctx receiver to n s))) = context_held ctx"
    "cx_env (fst (snd (napi_invoke api order convert ctx receiver to n s))) = cx_env ctx" by simp_all
qed

lemma new_instance_quiet:
  "lawful_napi api \<Longrightarrow> na_quiet (\<lambda>s. snd (api_new_instance api env f args None s))"
  using lawful_napiD(9) [of api env f args] by (simp add: instantiates_def)

lemma napi_construct_import_object_keeps:
  assumes "lawful_napi api"
  shows "keeps_ctx ctx {#} (napi_construct_import_object api ctx args) object_held"
  unfolding keeps_ctx_def
proof (intro conjI allI)
  let ?this = "\<lparr>ob_env = cx_env ctx, ob_ref = None\<rparr>"
  let ?make = "\<lambda>f. act_bind (napi_check (\<lambda>s. api_new_instance api (ob_env ?this) f args None s)
      ''napi_new_instance failed'') (\<lambda>v. object_reset_to api (ob_env ?this) (Some v) ?this)"
  have make: "keeps {#} (?make f) object_held" for f
    using keeps_object_reset_to [OF assms, of ?this]
    by (intro keeps_bind [OF keeps_check [OF new_instance_quiet [OF assms]]]) simp
  show "keeps {#} (\<lambda>s. case napi_construct_import_object api ctx args s of (r, ctx', s') \<Rightarrow> (r, s')) object_held"
  proof (rule keepsI)
    fix s F r s'
    assume s: "\<not> na_fault s" "na_held s = F + {#}"
      and r: "(case napi_construct_import_object api ctx args s of (r, ctx', s') \<Rightarrow> (r, s')) = (r, s')"
    obtain f ctx1 s1 where c: "context_callable api ctx s = (f, ctx1, s1)" by (metis prod_cases3)
    have s1: "\<not> na_fault s1" "na_held s1 = F + {#}" using context_callable_ok(3) [OF assms(1) c] s by auto
    have "?make f s1 = (r, s')"
      using r c by (auto simp: napi_construct_import_object_def split: prod.splits)
    then show "\<not> na_fault s' \<and> na_held s' = F + outcome_held object_held r"
      using make s1 by (blast dest: keepsD)
  qed
  fix s
  obtain f ctx1 s1 where c: "context_callable api ctx s = (f, ctx1, s1)" by (metis prod_cases3)
  then show "context_held (fst (snd (napi_construct_import_object api ctx args s))) = context_held ctx"
    "cx_env (fst (snd (napi_construct_import_object api ctx args s))) = cx_env ctx"
    using context_callable_ok(1,2) [OF assms(1) c]
    by (simp_all add: napi_construct_import_object_def split: prod.split)
qed

lemma keeps_import_property [keeping]: "lawful_napi api \<Longrightarrow> keeps {#} (import_property api env source name) (\<lambda>_. {#})"
  unfolding import_property_def by (intro keeping)

lemma keeps_after_quiet:
  assumes "na_quiet (\<lambda>s. snd (call s))" "\<And>x. keeps U (f x) V"
  shows "keeps U (\<lambda>s. case call s of (x, s') \<Rightarrow> f x s') V"
proof (rule keepsI)
  fix s F r s'
  assume s: "\<not> na_fault s" "na_held s = F + U" and r: "(case call s of (x, s') \<Rightarrow> f x s') = (r, s')"
  obtain x t where c: "call s = (x, t)" by fastforce
  then show "\<not> na_fault s' \<and> na_held s' = F + outcome_held V r"
    using r na_quietD [OF assms(1) c] s by (intro keepsD [OF assms(2)]) auto
qed

lemma napi_import_keeps:
  assumes "lawful_napi api"
  shows "keeps {#} (napi_import_module api env module name) context_held"
    "keeps {#} (napi_import_object api source name) context_held"
proof -
  have bind: "keeps {#} (act_bind (import_property api env v name) (\<lambda>x. context_make api env (Some x))) context_held"
    for env v
    by (intro keeping assms)
  then show "keeps {#} (napi_import_module api env module name) context_held"
    by (simp add: napi_import_module_def)
  show "keeps {#} (napi_import_object api source name) context_held"
    using keeps_after_quiet [OF object_get_quiet [OF assms] bind]
    by (simp add: napi_import_object_def [abs_def])
qed

definition opt_context_held :: "na_context option \<Rightarrow> na_resource multiset" where
  "opt_context_held c = (case c of None \<Rightarrow> {#} | Some ctx \<Rightarrow> context_held ctx)"

lemma napi_try_import_callable_keeps:
  assumes "lawful_napi api"
  shows "keeps {#} (napi_try_import_callable api env v) opt_context_held"
proof (cases v)
  case None
  then show ?thesis
    using keeps_return [of opt_context_held None]
    by (simp add: napi_try_import_callable_def [abs_def] opt_context_held_def act_return_def [abs_def])
next
  case (Some x)
  have none: "keeps {#} (\<lambda>s. (Return None, s)) opt_context_held"
    using keeps_return [of opt_context_held None] by (simp add: opt_context_held_def act_return_def [abs_def])
  have "keeps (context_held ctx) (act_return (Some ctx)) opt_context_held" for ctx
    using keeps_return [of opt_context_held "Some ctx"] by (simp add: opt_context_held_def)
  from keeps_bind [OF keeps_context_borrow [OF assms] this]
  have "keeps {#} (\<lambda>s. if t \<noteq> Some NapiFunction then (Return None, s)
      else act_bind (context_borrow api env v) (\<lambda>ctx. act_return (Some ctx)) s) opt_context_held" for t
    using none by (cases "t = Some NapiFunction") simp_all
  then have "keeps {#} (\<lambda>s. case api_typeof api env x s of (t, s') \<Rightarrow>
      if t \<noteq> Some NapiFunction then (Return None, s')
      else act_bind (context_borrow api env v) (\<lambda>ctx. act_return (Some ctx)) s') opt_context_held"
    by (rule keeps_after_quiet [OF lawful_napiD(7) [OF assms]])
  then show ?thesis unfolding Some by (simp add: napi_try_import_callable_def [abs_def])
qed

end
