(* ===== verification/NapiExport.thy ===== *)
theory NapiExport
  imports NapiCall
begin

section \<open>Exports through Node-API\<close>

text \<open>
  Functions, classes and objects that native code exports to JavaScript
  (\<open>dynabridge/backends/napi.h\<close>): the callbacks the engine runs and their exception boundaries,
  the heap objects behind them, and the native receiver a JavaScript object wraps.
\<close>

subsection \<open>Callbacks\<close>

text \<open>
  The exception boundary of a callback: a C++ exception becomes a JavaScript one, and the
  callback returns null.
\<close>

definition napi_boundary ::
    "'w napi_api \<Rightarrow> nat option \<Rightarrow> string \<Rightarrow> ('w napi, nat option) action \<Rightarrow> ('w napi, nat option) action" where
  "napi_boundary api env msg body s =
     (case body s of
        (Return x, s1) \<Rightarrow> (Return x, s1)
      | (Abort, s1) \<Rightarrow> (Abort, s1)
      | (Throw UnknownException, s1) \<Rightarrow> (Return None, api_throw_error api env (ascii msg) s1)
      | (Throw e, s1) \<Rightarrow> (Return None, api_throw_error api env (what e) s1))"

definition napi_refuse ::
    "'w napi_api \<Rightarrow> nat option \<Rightarrow> string \<Rightarrow> ('w napi, nat option) action" where
  "napi_refuse api env msg s = (Return None, api_throw_error api env (ascii msg) s)"

text \<open>\<open>undefined\<close> ignores the status.\<close>

definition napi_undefined :: "'w napi_api \<Rightarrow> nat option \<Rightarrow> ('w napi, nat option) action" where
  "napi_undefined api env s = (case api_undefined api env s of (v, s') \<Rightarrow> (Return v, s'))"

text \<open>\<open>call_indices\<close>: the native function, and \<open>undefined\<close> when its result is \<open>void\<close>.\<close>

definition napi_call_indices ::
    "'w napi_api \<Rightarrow> nat option \<Rightarrow> bool \<Rightarrow> (nat option list \<Rightarrow> ('w napi, nat option) action) \<Rightarrow>
     nat option list \<Rightarrow> ('w napi, nat option) action" where
  "napi_call_indices api env void callee args =
     (if void then act_bind (callee args) (\<lambda>_. napi_undefined api env) else callee args)"

definition callback_dispatch ::
    "'w napi_api \<Rightarrow> nat option \<Rightarrow> nat \<Rightarrow> bool \<Rightarrow> (nat option list \<Rightarrow> ('w napi, nat option) action) \<Rightarrow>
     cb_info option \<Rightarrow> ('w napi, nat option) action" where
  "callback_dispatch api env arity void callee info =
     (case info of
        None \<Rightarrow> napi_refuse api env ''dynabridge N-API callback received invalid call info''
      | Some i \<Rightarrow>
          if length (cb_args i) \<noteq> arity \<or> cb_data i = None
          then napi_refuse api env ''dynabridge N-API callback received invalid call info''
          else napi_boundary api env ''dynabridge N-API callback failed''
            (napi_call_indices api env void callee (map Some (cb_args i))))"

text \<open>A member callback passes the receiver in front of the arguments.\<close>

definition member_callback_dispatch ::
    "'w napi_api \<Rightarrow> nat option \<Rightarrow> nat \<Rightarrow> bool \<Rightarrow> (nat option list \<Rightarrow> ('w napi, nat option) action) \<Rightarrow>
     cb_info option \<Rightarrow> ('w napi, nat option) action" where
  "member_callback_dispatch api env arity void callee info =
     (case info of
        None \<Rightarrow> napi_refuse api env ''dynabridge N-API callback received invalid call info''
      | Some i \<Rightarrow>
          if length (cb_args i) \<noteq> arity \<or> cb_data i = None
          then napi_refuse api env ''dynabridge N-API callback received invalid call info''
          else napi_boundary api env ''dynabridge N-API callback failed''
            (napi_call_indices api env void callee (cb_this i # map Some (cb_args i))))"

text \<open>
  An overload: the buffer has room for one argument more than the longest candidate takes;
  \<open>dispatch\<close> is the library's overload dispatch over the number of arguments passed and this
  buffer, in which \<open>napi_get_cb_info\<close> stores \<open>undefined\<close> where there is no argument.
\<close>

definition overload_argv :: "nat \<Rightarrow> nat \<Rightarrow> nat list \<Rightarrow> nat list" where
  "overload_argv undef max_arity args =
     (let buffer_arity = max_arity + 1 in
      take buffer_arity args @ replicate (buffer_arity - length args) undef)"

definition overload_callback ::
    "'w napi_api \<Rightarrow> nat option \<Rightarrow> nat \<Rightarrow> nat \<Rightarrow> (nat \<Rightarrow> nat list \<Rightarrow> ('w napi, nat option option) action) \<Rightarrow>
     cb_info option \<Rightarrow> ('w napi, nat option) action" where
  "overload_callback api env undef max_arity dispatch info =
     (case info of
        None \<Rightarrow> napi_refuse api env ''dynabridge N-API overload callback received invalid call info''
      | Some i \<Rightarrow>
          if cb_data i = None
          then napi_refuse api env ''dynabridge N-API overload callback received invalid call info''
          else napi_boundary api env ''dynabridge N-API overload callback failed''
            (act_bind (dispatch (length (cb_args i)) (overload_argv undef max_arity (cb_args i))) (\<lambda>result.
               case result of
                 None \<Rightarrow> napi_refuse api env ''dynabridge N-API overload has no matching signature''
               | Some x \<Rightarrow> act_return x)))"

lemma overload_argv_arg:
  "i < length args \<Longrightarrow> i \<le> max_arity \<Longrightarrow> overload_argv undef max_arity args ! i = args ! i"
  by (simp add: overload_argv_def nth_append)

lemma length_overload_argv: "length (overload_argv undef max_arity args) = max_arity + 1"
  by (simp add: overload_argv_def)

subsection \<open>The callback protocol\<close>

text \<open>
  What every callback owes the engine: no C++ exception passes through it, native code owns what
  it owned before, and the result is null with an exception pending if it did not complete.
\<close>

definition napi_entry_ok :: "('w napi, nat option) action \<Rightarrow> bool" where
  "napi_entry_ok f \<longleftrightarrow> keeps {#} f (\<lambda>_. {#}) \<and> (\<forall>s e. fst (f s) \<noteq> Throw e)"

lemma keeps_napi_refuse: "lawful_napi api \<Longrightarrow> keeps {#} (napi_refuse api env msg) (\<lambda>_. {#})"
  using drops_quiet [OF lawful_napiD(21)]
  by (auto simp: keeps_def drops_def napi_refuse_def)

lemma napi_refuse_ok: "lawful_napi api \<Longrightarrow> napi_entry_ok (napi_refuse api env msg)"
  by (simp add: napi_entry_ok_def keeps_napi_refuse) (simp add: napi_refuse_def)

lemma napi_boundary_eq:
  "napi_boundary api env msg body s =
     (case body s of
        (Throw e, s1) \<Rightarrow>
          (Return None, api_throw_error api env (if e = UnknownException then ascii msg else what e) s1)
      | (r, s1) \<Rightarrow> (r, s1))"
proof (cases "body s")
  case (Pair r s1)
  show ?thesis
  proof (cases r)
    case (Throw e)
    with Pair show ?thesis by (cases e) (simp_all add: napi_boundary_def)
  qed (simp_all add: napi_boundary_def Pair)
qed

lemma napi_boundary_ok:
  assumes "lawful_napi api" "keeps {#} body (\<lambda>_. {#})"
  shows "napi_entry_ok (napi_boundary api env msg body)"
  unfolding napi_entry_ok_def
proof (intro conjI allI)
  show "keeps {#} (napi_boundary api env msg body) (\<lambda>_. {#})"
  proof (rule keepsI)
    fix s F r s'
    assume s: "\<not> na_fault s" "na_held s = F + {#}" and r: "napi_boundary api env msg body s = (r, s')"
    obtain x t where b: "body s = (x, t)" by fastforce
    have t: "\<not> na_fault t" "na_held t = F" using keepsD [OF assms(2) s b] by (cases x; simp)+
    then show "\<not> na_fault s' \<and> na_held s' = F + outcome_held (\<lambda>_. {#}) r"
      using r b dropsD [OF drops_quiet [OF lawful_napiD(21) [OF assms(1)]], of t F]
      by (cases x) (auto simp: napi_boundary_eq)
  qed
  show "fst (napi_boundary api env msg body s) \<noteq> Throw e" for s e
    by (cases "body s"; cases "fst (body s)") (simp_all add: napi_boundary_eq)
qed

lemma napi_boundary_throws:
  assumes "lawful_napi api" "body s = (Throw e, s1)"
  shows "fst (napi_boundary api env msg body s) = Return None \<and> na_pending (snd (napi_boundary api env msg body s))"
  using assms(2) lawful_napiD(23) [OF assms(1)] by (simp add: napi_boundary_eq)

lemma keeps_napi_undefined: "lawful_napi api \<Longrightarrow> keeps {#} (napi_undefined api env) (\<lambda>_. {#})"
  unfolding napi_undefined_def [abs_def] by (rule keeps_quiet [where g = "\<lambda>x. x"]) (rule lawful_napiD)

lemma keeps_call_indices:
  assumes "lawful_napi api" "\<And>args. keeps {#} (callee args) (\<lambda>_. {#})"
  shows "keeps {#} (napi_call_indices api env void callee args) (\<lambda>_. {#})"
  using keeps_bind [OF assms(2) keeps_napi_undefined [OF assms(1)]] assms(2)
  by (simp add: napi_call_indices_def [abs_def])

text \<open>Null is returned, and an exception is pending.\<close>

definition napi_failed :: "nat option outcome \<times> 'w napi \<Rightarrow> bool" where
  "napi_failed p \<longleftrightarrow> fst p = Return None \<and> na_pending (snd p)"

lemma napi_refuse_failed: "lawful_napi api \<Longrightarrow> napi_failed (napi_refuse api env msg s)"
  by (simp add: napi_failed_def napi_refuse_def lawful_napiD)

lemma napi_boundary_failed:
  "lawful_napi api \<Longrightarrow> body s = (Throw e, t) \<Longrightarrow> napi_failed (napi_boundary api env msg body s)"
  by (simp add: napi_failed_def napi_boundary_eq lawful_napiD)

lemma callback_arity_failed:
  "lawful_napi api \<Longrightarrow> length (cb_args i) \<noteq> arity \<Longrightarrow>
     napi_failed (callback_dispatch api env arity void callee (Some i) s)"
  by (simp add: callback_dispatch_def napi_refuse_failed)

lemma callback_throw_failed:
  assumes "lawful_napi api" "callee (map Some (cb_args i)) s = (Throw e, t)"
  shows "napi_failed (callback_dispatch api env arity void callee (Some i) s)"
proof -
  have "napi_call_indices api env void callee (map Some (cb_args i)) s = (Throw e, t)"
    using assms(2) by (simp add: napi_call_indices_def act_bind_step)
  then have "napi_failed (napi_boundary api env msg (napi_call_indices api env void callee (map Some (cb_args i))) s)"
    for msg by (rule napi_boundary_failed [OF assms(1)])
  then show ?thesis by (simp add: callback_dispatch_def napi_refuse_failed [OF assms(1)])
qed

lemma overload_no_match_failed:
  assumes "lawful_napi api"
    and "dispatch (length (cb_args i)) (overload_argv undef max_arity (cb_args i)) s = (Return None, t)"
  shows "napi_failed (overload_callback api env undef max_arity dispatch (Some i) s)"
proof (cases "cb_data i")
  case None
  then show ?thesis by (simp add: overload_callback_def napi_refuse_failed [OF assms(1)])
next
  case (Some d)
  have "napi_failed (napi_boundary api env msg (act_bind (dispatch (length (cb_args i))
      (overload_argv undef max_arity (cb_args i))) (\<lambda>result. case result of
        None \<Rightarrow> napi_refuse api env msg' | Some x \<Rightarrow> act_return x)) s)" for msg msg'
    using assms(2) by (simp add: napi_boundary_eq act_bind_step napi_refuse_def napi_failed_def
        lawful_napiD [OF assms(1)])
  then show ?thesis by (simp add: overload_callback_def Some)
qed

lemma napi_entries_ok:
  assumes "lawful_napi api" "\<And>args. keeps {#} (callee args) (\<lambda>_. {#})"
    and "\<And>n argv. keeps {#} (dispatch n argv) (\<lambda>_. {#})"
  shows "napi_entry_ok (callback_dispatch api env arity void callee info)"
    and "napi_entry_ok (member_callback_dispatch api env arity void callee info)"
    and "napi_entry_ok (overload_callback api env undef max_arity dispatch info)"
proof -
  note call = napi_boundary_ok [OF assms(1) keeps_call_indices [OF assms(1,2)]]
  show "napi_entry_ok (callback_dispatch api env arity void callee info)"
    by (cases info) (simp_all add: callback_dispatch_def call napi_refuse_ok [OF assms(1)])
  show "napi_entry_ok (member_callback_dispatch api env arity void callee info)"
    by (cases info) (simp_all add: member_callback_dispatch_def call napi_refuse_ok [OF assms(1)])
  have "keeps {#} (case result of None \<Rightarrow> napi_refuse api env msg | Some x \<Rightarrow> act_return x) (\<lambda>_. {#})"
    for result msg
    using keeps_napi_refuse [OF assms(1)] by (cases result) simp_all
  from napi_boundary_ok [OF assms(1) keeps_bind [OF assms(3) this]]
  show "napi_entry_ok (overload_callback api env undef max_arity dispatch info)"
    by (cases info) (simp_all add: overload_callback_def napi_refuse_ok [OF assms(1)])
qed



end
