(* ===== verification/Registry.thy ===== *)
theory Registry
  imports Prelude KeyedStore Actions
begin

section \<open>The registry of exported classes\<close>

text \<open>
  \<open>export_class_registry\<close> and the erased holder of \<open>dynabridge/backend_base.h\<close>. An export context
  keeps the target of each class it defined under the class's type key, the address of a static
  object, unique per class.
\<close>

subsection \<open>The registry\<close>

type_synonym 't registry = "(nat \<times> 't) list"

text \<open>\<open>store\<close> overwrites the target of the first entry with the key, or appends one.\<close>

fun registry_store :: "nat \<Rightarrow> 't \<Rightarrow> 't registry \<Rightarrow> 't registry" where
  "registry_store key target [] = [(key, target)]"
| "registry_store key target ((k, t) # entries) =
     (if k = key then (k, target) # entries else (k, t) # registry_store key target entries)"

fun registry_get :: "bool \<Rightarrow> nat \<Rightarrow> 't registry \<Rightarrow> 't outcome" where
  "registry_get ex key [] =
     raise_error ex (RuntimeError ''dynabridge export class is not registered in this context'')"
| "registry_get ex key ((k, t) # entries) = (if k = key then Return t else registry_get ex key entries)"

lemma registry_get_eq:
  "registry_get ex key entries =
     (case map_of entries key of
        Some t \<Rightarrow> Return t
      | None \<Rightarrow> raise_error ex (RuntimeError ''dynabridge export class is not registered in this context''))"
  by (induction entries) auto

lemma map_of_store: "map_of (registry_store key t entries) k = (if k = key then Some t else map_of entries k)"
  by (induction entries) auto

lemma store_keys:
  "map fst (registry_store key t entries) =
     map fst entries @ (if key \<in> fst ` set entries then [] else [key])"
  by (induction entries) force+

interpretation registry: keyed_store map_of registry_store "[]" "\<lambda>entries. distinct (map fst entries)" "\<lambda>k t. True"
  by unfold_locales (auto simp: map_of_store store_keys)

text \<open>
  A context finds the class target that was stored last for a class, whatever was stored for
  others in between; storing one again replaces it without a second entry, and asking for a class
  that was never stored is an error and nothing else.
\<close>

theorem class_registry_lookup:
  "registry_get ex key (fold (\<lambda>(k, t) entries. registry_store k t entries) kts []) =
     (case map_of (rev kts) key of
        Some t \<Rightarrow> Return t
      | None \<Rightarrow> raise_error ex (RuntimeError ''dynabridge export class is not registered in this context'')) \<and>
   distinct (map fst (fold (\<lambda>(k, t) entries. registry_store k t entries) kts []))"
  using registry.get_put_all_empty [of kts key] registry.put_all_invar [of "[]" kts]
  by (simp add: registry_get_eq registry.put_all_def)

subsection \<open>The erased holder\<close>

text \<open>
  A class with two function pointers in place of a virtual table: \<open>invoke\<close> calls the one the
  constructor stored, \<open>destroy\<close> asks the other for the only operation there is.
\<close>

datatype lifecycle_op = DestroyHolder

record ('w, 'a, 'r) erased_holder =
  eh_invoke :: "'a \<Rightarrow> ('w, 'r) action"
  eh_manager :: "lifecycle_op \<Rightarrow> 'w \<Rightarrow> 'w"

definition holder_invoke :: "('w, 'a, 'r) erased_holder \<Rightarrow> 'a \<Rightarrow> ('w, 'r) action" where
  "holder_invoke h args = eh_invoke h args"

definition holder_manage :: "('w, 'a, 'r) erased_holder \<Rightarrow> lifecycle_op \<Rightarrow> 'w \<Rightarrow> 'w" where
  "holder_manage h x = eh_manager h x"

definition holder_destroy :: "('w, 'a, 'r) erased_holder \<Rightarrow> 'w \<Rightarrow> 'w" where
  "holder_destroy h = holder_manage h DestroyHolder"

end
