(* ===== verification/NapiClass.thy ===== *)
theory NapiClass
  imports NapiExport Registry
begin

section \<open>Exported functions, classes and objects of the Node-API backend\<close>

text \<open>
  The heap objects behind exported functions and classes, which a finalizer deletes, and the
  native receivers that JavaScript objects wrap (\<open>dynabridge/backends/napi.h\<close>). The addresses of
  new heap objects are arguments.
\<close>

subsection \<open>Functions\<close>

text \<open>
  \<open>destroy\<close> of a holder and \<open>delete\<close> of a receiver. An object that a finalizer was attached to
  belongs to the engine.
\<close>

definition destroy_holder :: "nat \<Rightarrow> 'w napi \<Rightarrow> 'w napi" where
  "destroy_holder h = na_give (Holder h)"

definition destroy_native :: "nat \<Rightarrow> 'w napi \<Rightarrow> 'w napi" where
  "destroy_native p = na_give (Receiver p)"

text \<open>
  A new holder, the JavaScript function (or class) made for it, and the finalizer that deletes it:
  the two typed cases and the class share these steps.
\<close>

definition attach_holder ::
    "'w napi_api \<Rightarrow> nat option \<Rightarrow> nat \<Rightarrow> ('w napi \<Rightarrow> nat option \<times> 'w napi) \<Rightarrow> string \<Rightarrow> ('w napi, nat) action" where
  "attach_holder api env h create msg s =
     (case create (na_own (Holder h) s) of
        (None, s1) \<Rightarrow> (Throw (RuntimeError msg), destroy_holder h s1)
      | (Some function, s1) \<Rightarrow>
          (case api_add_finalizer api env (Some function) h s1 of
             (None, s2) \<Rightarrow> (Throw (RuntimeError ''napi_add_finalizer failed''), destroy_holder h s2)
           | (Some _, s2) \<Rightarrow> (Return function, na_give (Holder h) s2)))"

definition make_function_impl ::
    "'w napi_api \<Rightarrow> nat option \<Rightarrow> string \<Rightarrow> nat \<Rightarrow> ('w napi, nat) action" where
  "make_function_impl api env name h =
     attach_holder api env h (api_create_function api env name h) ''napi_create_function failed''"

definition make_member_function ::
    "'w napi_api \<Rightarrow> nat option \<Rightarrow> string \<Rightarrow> nat \<Rightarrow> ('w napi, nat) action" where
  "make_member_function api env name h =
     attach_holder api env h (api_create_function api env name h) ''napi_create_function failed''"

definition napi_make_export_callable ::
    "'w napi_api \<Rightarrow> nat option \<Rightarrow> string \<Rightarrow> nat \<Rightarrow> ('w napi, nat) action" where
  "napi_make_export_callable api env name h = make_function_impl api env name h"

text \<open>\<open>define_impl\<close> for a module or an object, and for a class.\<close>

definition napi_define ::
    "'w napi_api \<Rightarrow> nat option \<Rightarrow> (string \<Rightarrow> nat option \<Rightarrow> ('w napi, unit) action) \<Rightarrow> string \<Rightarrow> nat \<Rightarrow>
     ('w napi, unit) action" where
  "napi_define api env target name h =
     act_bind (make_function_impl api env name h) (\<lambda>f. target name (Some f))"

definition napi_define_member ::
    "'w napi_api \<Rightarrow> nat option \<Rightarrow> class_target \<Rightarrow> string \<Rightarrow> nat \<Rightarrow> ('w napi, unit) action" where
  "napi_define_member api env target name h =
     act_bind (make_member_function api env name h) (\<lambda>f. class_target_define api target name (Some f))"

text \<open>
  \<open>define_class_impl\<close>: the class state is a holder too; after the class was defined in the target,
  the class target keeps its constructor alive.
\<close>

definition napi_define_class ::
    "'w napi_api \<Rightarrow> nat option \<Rightarrow> (string \<Rightarrow> nat option \<Rightarrow> ('w napi, unit) action) \<Rightarrow> string \<Rightarrow> nat \<Rightarrow>
     ('w napi, class_target) action" where
  "napi_define_class api env target name st =
     act_bind (attach_holder api env st (api_define_class api env name st) ''napi_define_class failed'')
       (\<lambda>constructor. act_bind (target name (Some constructor))
         (\<lambda>_. class_target_make api env constructor st))"

definition napi_store_export_class ::
    "nat \<Rightarrow> class_target \<Rightarrow> class_target registry \<Rightarrow> class_target registry" where
  "napi_store_export_class key target classes = registry_store key target classes"

lemma keeps_attach_holder [keeping]:
  assumes "lawful_napi api" "na_quiet (\<lambda>s. snd (create s))"
  shows "keeps {#} (attach_holder api env h create msg) (\<lambda>_. {#})"
proof (rule keepsI)
  fix s F r s'
  assume s: "\<not> na_fault s" "na_held s = F + {#}" and r: "attach_holder api env h create msg s = (r, s')"
  obtain f s1 where c: "create (na_own (Holder h) s) = (f, s1)" by fastforce
  have s1: "\<not> na_fault s1" "na_held s1 = F + {#Holder h#}"
    using na_quietD [OF assms(2) c] s by (auto simp: na_own_def)
  have drop: "\<not> na_fault t \<Longrightarrow> na_held t = F + {#Holder h#} \<Longrightarrow>
      \<not> na_fault (na_give (Holder h) t) \<and> na_held (na_give (Holder h) t) = F" for t :: "'a napi"
    by (simp add: na_give_def)
  show "\<not> na_fault s' \<and> na_held s' = F + outcome_held (\<lambda>_. {#}) r"
  proof (cases f)
    case None
    then show ?thesis using r c drop [OF s1] by (auto simp: attach_holder_def destroy_holder_def)
  next
    case (Some x)
    obtain b s2 where a: "api_add_finalizer api env (Some x) h s1 = (b, s2)" by fastforce
    have s2: "\<not> na_fault s2" "na_held s2 = F + {#Holder h#}"
      using na_quietD [OF lawful_napiD(19) [OF assms(1)] a] s1 by auto
    show ?thesis
      using r c a Some drop [OF s2] by (cases b) (auto simp: attach_holder_def destroy_holder_def)
  qed
qed

lemma keeps_make_function [keeping]:
  assumes "lawful_napi api"
  shows "keeps {#} (make_function_impl api env name h) (\<lambda>_. {#})"
    "keeps {#} (make_member_function api env name h) (\<lambda>_. {#})"
  unfolding make_function_impl_def make_member_function_def
  by (intro keeping assms)+

lemma keeps_napi_define:
  assumes "lawful_napi api" "\<And>name v. keeps {#} (target name v) (\<lambda>_. {#})"
  shows "keeps {#} (napi_define api env target name h) (\<lambda>_. {#})"
    "keeps {#} (napi_define_member api env ct name h) (\<lambda>_. {#})"
    "keeps {#} (napi_define_class api env target name h) class_target_held"
  unfolding napi_define_def napi_define_member_def napi_define_class_def
  by (intro keeping assms)+

subsection \<open>Native receivers\<close>

text \<open>
  \<open>construct_export_object_from_native\<close>: the object is tagged with its class's type key (when the
  engine has type tags), then wraps the receiver, which its finalizer deletes from then on; last
  the object under construction, still empty, refers to it.
\<close>

definition wrap_native ::
    "'w napi_api \<Rightarrow> nat option \<Rightarrow> nat option \<Rightarrow> nat \<Rightarrow> ('w napi, na_object) action" where
  "wrap_native api env self p s =
     (case api_wrap api env self p s of
        (None, s1) \<Rightarrow> (Throw (RuntimeError ''napi_wrap failed''), destroy_native p s1)
      | (Some _, s1) \<Rightarrow> object_reset_to api env self object_empty (na_give (Receiver p) s1))"

definition construct_from_native ::
    "'w napi_api \<Rightarrow> nat option \<Rightarrow> bool \<Rightarrow> nat \<Rightarrow> nat option \<Rightarrow> nat \<Rightarrow> ('w napi, na_object) action" where
  "construct_from_native api env tags key self p s =
     (if tags
      then (case api_type_tag api env self key s of
              (None, s1) \<Rightarrow> (Throw (RuntimeError ''napi_type_tag_object failed''), destroy_native p s1)
            | (Some _, s1) \<Rightarrow> wrap_native api env self p s1)
      else wrap_native api env self p s)"

text \<open>
  The constructor of an exported object, for a JavaScript \<open>new\<close>: \<open>native\<close> is the exported class's
  own constructor, which may throw. The invoker destroys the object handle at once.
\<close>

definition construct_export_object ::
    "'w napi_api \<Rightarrow> nat option \<Rightarrow> bool \<Rightarrow> nat \<Rightarrow> ('w napi, nat) action \<Rightarrow> nat option \<Rightarrow> ('w napi, na_object) action" where
  "construct_export_object api env tags key native self =
     act_bind native (\<lambda>p. construct_from_native api env tags key self p)"

definition constructed_object ::
    "'w napi_api \<Rightarrow> nat option \<Rightarrow> bool \<Rightarrow> nat \<Rightarrow> ('w napi, nat) action \<Rightarrow> nat option \<Rightarrow> ('w napi, unit) action" where
  "constructed_object api env tags key native self =
     act_bind (construct_export_object api env tags key native self)
       (\<lambda>ob s. (Return (), object_destroy api ob s))"

lemma object_held_empty [simp]: "object_held object_empty = {#}"
  by (simp add: object_empty_def)

lemma give_receiver:
  "\<not> na_fault s \<Longrightarrow> na_held s = F + {#Receiver p#} \<Longrightarrow>
     \<not> na_fault (na_give (Receiver p) s) \<and> na_held (na_give (Receiver p) s) = F \<and>
     na_handoffs (na_give (Receiver p) s) = na_handoffs s"
  by (simp add: na_give_def)

lemma keeps_wrap_native:
  assumes "lawful_napi api"
  shows "keeps {#Receiver p#} (wrap_native api env self p) object_held"
proof (rule keepsI)
  fix s F r s'
  assume s: "\<not> na_fault s" "na_held s = F + {#Receiver p#}" and r: "wrap_native api env self p s = (r, s')"
  obtain w s1 where c: "api_wrap api env self p s = (w, s1)" by fastforce
  have s1: "\<not> na_fault s1" "na_held s1 = F + {#Receiver p#}"
    using na_quietD [OF lawful_napiD(14) [OF assms] c] s by auto
  note g = give_receiver [OF s1]
  show "\<not> na_fault s' \<and> na_held s' = F + outcome_held object_held r"
  proof (cases w)
    case None
    then show ?thesis using r c g by (auto simp: wrap_native_def destroy_native_def)
  next
    case (Some x)
    then show ?thesis
      using r c keepsD [OF keeps_object_reset_to [OF assms, of object_empty env self], of "na_give (Receiver p) s1" F r s'] g
      by (simp add: wrap_native_def)
  qed
qed

lemma keeps_construct_from_native:
  assumes "lawful_napi api"
  shows "keeps {#Receiver p#} (construct_from_native api env tags key self p) object_held"
proof (rule keepsI)
  fix s F r s'
  assume s: "\<not> na_fault s" "na_held s = F + {#Receiver p#}"
    and r: "construct_from_native api env tags key self p s = (r, s')"
  obtain w s1 where c: "api_type_tag api env self key s = (w, s1)" by fastforce
  have s1: "\<not> na_fault s1" "na_held s1 = F + {#Receiver p#}"
    using na_quietD [OF lawful_napiD(11) [OF assms] c] s by auto
  show "\<not> na_fault s' \<and> na_held s' = F + outcome_held object_held r"
    using r c give_receiver [OF s1] keepsD [OF keeps_wrap_native [OF assms] s] keepsD [OF keeps_wrap_native [OF assms] s1]
    by (cases w) (auto simp: construct_from_native_def destroy_native_def split: if_splits)
qed

lemma keeps_constructed_object:
  assumes "lawful_napi api" "keeps {#} native (\<lambda>p. {#Receiver p#})"
  shows "keeps {#} (constructed_object api env tags key native self) (\<lambda>_. {#})"
proof -
  have "keeps (object_held ob) (\<lambda>s. (Return (), object_destroy api ob s)) (\<lambda>_. {#})" for ob
    using drops_object_destroy [OF assms(1), of ob] by (auto simp: keeps_def drops_def)
  then show ?thesis
    unfolding constructed_object_def construct_export_object_def
    by (rule keeps_bind [OF keeps_bind [OF assms(2) keeps_construct_from_native [OF assms(1)]]])
qed

subsection \<open>The class constructor\<close>

text \<open>
  \<open>handoff_magic\<close> marks an \<open>external_proxy_handoff\<close>, through which native code hands a receiver
  it made to the class constructor. Reading one where there is none is a fault.
\<close>

definition handoff_magic :: u64 where
  "handoff_magic = 0x44594e414558504f"

definition set_handoff :: "nat \<Rightarrow> (u64 \<times> nat option) option \<Rightarrow> 'w napi \<Rightarrow> 'w napi" where
  "set_handoff a h s = s\<lparr>na_handoffs := (na_handoffs s)(a := h)\<rparr>"

record 'w class_state =
  cs_env :: "nat option"
  cs_key :: nat
  cs_construct :: "(cb_info option \<Rightarrow> nat option \<Rightarrow> ('w napi, unit) action) option"

text \<open>
  \<open>set_constructor\<close>: the typed constructor of the exported signature; \<open>construct\<close> converts the
  arguments and constructs the object.
\<close>

definition construct_signature ::
    "nat \<Rightarrow> (nat option \<Rightarrow> nat list \<Rightarrow> ('w napi, unit) action) \<Rightarrow> cb_info option \<Rightarrow> nat option \<Rightarrow>
     ('w napi, unit) action" where
  "construct_signature arity construct info self s =
     (case info of
        None \<Rightarrow> (Throw (RuntimeError ''dynabridge N-API constructor received invalid call info''), s)
      | Some i \<Rightarrow>
          if length (cb_args i) \<noteq> arity
          then (Throw (RuntimeError ''dynabridge N-API constructor received invalid call info''), s)
          else construct self (cb_args i) s)"

definition set_constructor ::
    "nat \<Rightarrow> (nat option \<Rightarrow> nat list \<Rightarrow> ('w napi, unit) action) \<Rightarrow> 'w class_state \<Rightarrow> 'w class_state" where
  "set_constructor arity construct st = st\<lparr>cs_construct := Some (construct_signature arity construct)\<rparr>"

definition class_state_make :: "nat option \<Rightarrow> nat \<Rightarrow> 'w class_state" where
  "class_state_make env key = \<lparr>cs_env = env, cs_key = key, cs_construct = None\<rparr>"

definition try_construct_external_proxy ::
    "'w napi_api \<Rightarrow> bool \<Rightarrow> 'w class_state \<Rightarrow> cb_info option \<Rightarrow> nat option \<Rightarrow> ('w napi, bool) action" where
  "try_construct_external_proxy api tags st info self s =
     (case info of
        None \<Rightarrow> (Return False, s)
      | Some i \<Rightarrow>
          if length (cb_args i) \<noteq> 1 then (Return False, s)
          else case api_external_value api (cs_env st) (cb_args i ! 0) s of
            (Some (Some a), s1) \<Rightarrow>
              (case na_handoffs s1 a of
                 None \<Rightarrow> (Return False, s1\<lparr>na_fault := True\<rparr>)
               | Some (magic, receiver) \<Rightarrow>
                   (case receiver of
                      None \<Rightarrow> (Return False, s1)
                    | Some p \<Rightarrow>
                        if magic \<noteq> handoff_magic then (Return False, s1)
                        else act_bind (construct_from_native api (cs_env st) tags (cs_key st) self p)
                          (\<lambda>ob s2. (Return True, object_destroy api ob (set_handoff a (Some (magic, None)) s2))) s1))
          | (_, s1) \<Rightarrow> (Return False, s1))"

definition construct_entry ::
    "'w napi_api \<Rightarrow> bool \<Rightarrow> 'w class_state \<Rightarrow> cb_info option \<times> nat option \<Rightarrow> ('w napi, unit) action" where
  "construct_entry api tags st p =
     (case p of (info, self) \<Rightarrow>
        act_bind (try_construct_external_proxy api tags st info self) (\<lambda>proxy.
          if proxy then act_return ()
          else case cs_construct st of
            None \<Rightarrow> (\<lambda>s. (Throw (RuntimeError ''dynabridge N-API class has no exported constructor''), s))
          | Some construct \<Rightarrow> construct info self))"

definition class_state_holder ::
    "'w napi_api \<Rightarrow> bool \<Rightarrow> nat \<Rightarrow> 'w class_state \<Rightarrow>
     ('w napi, cb_info option \<times> nat option, unit) erased_holder" where
  "class_state_holder api tags h st =
     \<lparr>eh_invoke = construct_entry api tags st, eh_manager = (\<lambda>DestroyHolder \<Rightarrow> destroy_holder h)\<rparr>"

text \<open>
  The callback of every exported class. \<open>holder\<close> is what the data pointer points to. A C++
  exception that is not a \<open>std::exception\<close> is not caught here.
\<close>

definition class_constructor ::
    "'w napi_api \<Rightarrow> nat option \<Rightarrow> (nat \<Rightarrow> ('w napi, cb_info option \<times> nat option, unit) erased_holder) \<Rightarrow>
     cb_info option \<Rightarrow> ('w napi, nat option) action" where
  "class_constructor api env holder info s =
     (case info of
        None \<Rightarrow> (Return None, s)
      | Some i \<Rightarrow>
          (case (if cb_this i = None then api_create_object api env s else (cb_this i, s)) of (self, s1) \<Rightarrow>
             (case (case cb_data i of
                      None \<Rightarrow> (Return (), s1)
                    | Some d \<Rightarrow> holder_invoke (holder d) (info, self) s1) of
                (Return _, s2) \<Rightarrow> (Return self, s2)
              | (Abort, s2) \<Rightarrow> (Abort, s2)
              | (Throw UnknownException, s2) \<Rightarrow> (Throw UnknownException, s2)
              | (Throw e, s2) \<Rightarrow> (Return None, api_throw_error api env (what e) s2))))"

subsection \<open>Objects made by native code\<close>

text \<open>
  \<open>make_export_object_impl\<close>: native code constructs the receiver, hands it to the class
  constructor through an external value that points to the handoff at the stack address \<open>a\<close>, and
  refers to the instance. \<open>target\<close> is the registered class target, \<open>cb\<close> the class's constructor
  callback, which the engine runs. The handoff goes out of scope on every way out.
\<close>

definition new_export_instance ::
    "'w napi_api \<Rightarrow> nat option \<Rightarrow> class_target \<Rightarrow> (cb_info \<Rightarrow> 'w napi \<Rightarrow> nat option outcome \<times> 'w napi) \<Rightarrow>
     nat \<Rightarrow> nat \<Rightarrow> ('w napi, na_object) action" where
  "new_export_instance api env target cb a external =
     act_bind (class_target_constructor api target) (\<lambda>constructor s.
       case api_new_instance api env constructor [Some external] (Some cb) s of
         (v, s1) \<Rightarrow>
           (case na_handoffs s1 a of
              Some (m, Some p) \<Rightarrow>
                (Throw (RuntimeError ''napi_new_instance failed for exported object''), destroy_native p s1)
            | _ \<Rightarrow>
                if v = None
                then (Throw (RuntimeError ''napi_new_instance failed for exported object''), s1)
                else object_make api env v s1))"

definition hand_off ::
    "'w napi_api \<Rightarrow> nat option \<Rightarrow> class_target \<Rightarrow> (cb_info \<Rightarrow> 'w napi \<Rightarrow> nat option outcome \<times> 'w napi) \<Rightarrow>
     nat \<Rightarrow> nat \<Rightarrow> ('w napi, na_object) action" where
  "hand_off api env target cb a p s =
     (case api_create_external api env a (set_handoff a (Some (handoff_magic, Some p)) s) of
        (None, s1) \<Rightarrow> (Throw (RuntimeError ''napi_create_external failed''), destroy_native p s1)
      | (Some external, s1) \<Rightarrow> new_export_instance api env target cb a external s1)"

definition napi_make_export_object ::
    "'w napi_api \<Rightarrow> nat option \<Rightarrow> class_target outcome \<Rightarrow>
     (cb_info \<Rightarrow> 'w napi \<Rightarrow> nat option outcome \<times> 'w napi) \<Rightarrow> ('w napi, nat) action \<Rightarrow> nat \<Rightarrow>
     ('w napi, na_object) action" where
  "napi_make_export_object api env target cb native a =
     (case target of
        Return target \<Rightarrow>
          finally_do (set_handoff a None)
            (\<lambda>s. act_bind native (hand_off api env target cb a) (set_handoff a (Some (handoff_magic, None)) s))
      | Throw e \<Rightarrow> (\<lambda>s. (Throw e, s))
      | Abort \<Rightarrow> (\<lambda>s. (Abort, s)))"

definition napi_define_export_instance ::
    "'w napi_api \<Rightarrow> (string \<Rightarrow> nat option \<Rightarrow> ('w napi, unit) action) \<Rightarrow> string \<Rightarrow> na_object \<Rightarrow>
     ('w napi, unit) action" where
  "napi_define_export_instance api target name ob =
     finally_do (object_destroy api ob) (\<lambda>s. case object_get api ob s of (v, s') \<Rightarrow> target name v s')"

lemma keeps_define_export_instance:
  assumes "lawful_napi api" "\<And>name v. keeps {#} (target name v) (\<lambda>_. {#})"
  shows "keeps (object_held ob) (napi_define_export_instance api target name ob) (\<lambda>_. {#})"
  using keeps_finally [OF keeps_after_quiet [OF object_get_quiet [OF assms(1)] assms(2)]
      drops_object_destroy [OF assms(1), of ob]]
  by (simp add: napi_define_export_instance_def)

subsection \<open>Receiving exported objects\<close>

text \<open>
  \<open>checked_unwrap_export_object\<close>: the receiver of an object of this class, and null for any other
  value. Engines without type tags check the prototype chain instead.
\<close>

definition checked_unwrap ::
    "'w napi_api \<Rightarrow> nat option \<Rightarrow> bool \<Rightarrow> nat \<Rightarrow> class_target outcome \<Rightarrow> nat option \<Rightarrow>
     ('w napi, nat option) action" where
  "checked_unwrap api env tags key target v s =
     (case v of
        None \<Rightarrow> (Return None, s)
      | Some x \<Rightarrow>
          act_bind
            (if tags then (\<lambda>s. case api_check_tag api env x key s of (b, s') \<Rightarrow> (Return b, s'))
             else act_bind (\<lambda>s. (target, s)) (\<lambda>target.
               act_bind (class_target_constructor api target) (\<lambda>constructor s.
                 case api_instanceof api env x constructor s of (b, s') \<Rightarrow> (Return b, s'))))
            (\<lambda>matches s.
               if matches \<noteq> Some True then (Return None, s)
               else case api_unwrap api env v s of
                 (None, s') \<Rightarrow> (Return None, s') | (Some receiver, s') \<Rightarrow> (Return receiver, s')) s)"

text \<open>The receiver of a member call: checked, or trusted to be of the class.\<close>

definition bind_member_export_object ::
    "'w napi_api \<Rightarrow> nat option \<Rightarrow> bool \<Rightarrow> nat \<Rightarrow> class_target outcome \<Rightarrow> bool \<Rightarrow> nat option \<Rightarrow>
     ('w napi, nat option) action" where
  "bind_member_export_object api env tags key target trusted self =
     (if trusted
      then (\<lambda>s. if self = None then (Return None, s)
        else case api_unwrap api env self s of
          (None, s') \<Rightarrow> (Return None, s') | (Some receiver, s') \<Rightarrow> (Return receiver, s'))
      else checked_unwrap api env tags key target self)"

text \<open>An argument of class type: null is no object.\<close>

definition napi_try_bind_export_object ::
    "'w napi_api \<Rightarrow> nat option \<Rightarrow> bool \<Rightarrow> nat \<Rightarrow> class_target outcome \<Rightarrow> nat option \<Rightarrow>
     ('w napi, nat option) action" where
  "napi_try_bind_export_object api env tags key target v =
     act_bind (checked_unwrap api env tags key target v)
       (\<lambda>receiver. case receiver of None \<Rightarrow> act_return None | Some p \<Rightarrow> act_return (Some p))"

subsection \<open>Constructing from JavaScript\<close>

text \<open>A value that is not an external one.\<close>

definition no_external :: "'w napi_api \<Rightarrow> nat option \<Rightarrow> nat \<Rightarrow> bool" where
  "no_external api env v \<longleftrightarrow> (\<forall>s. case api_external_value api env v s of (x, t) \<Rightarrow> x = None \<or> x = Some None)"

lemma no_externalD:
  "no_external api env v \<Longrightarrow> api_external_value api env v s = (x, t) \<Longrightarrow> x = None \<or> x = Some None"
  unfolding no_external_def by (drule spec [of _ s]) simp

lemma try_construct_no_proxy:
  assumes "lawful_napi api" "\<And>v. v \<in> set (cb_args i) \<Longrightarrow> no_external api (cs_env st) v"
  shows "\<exists>t. try_construct_external_proxy api tags st (Some i) self s = (Return False, t) \<and>
    (na_fault t \<longrightarrow> na_fault s) \<and> na_held t = na_held s"
proof (cases "length (cb_args i) = 1")
  case True
  obtain x t where e: "api_external_value api (cs_env st) (cb_args i ! 0) s = (x, t)" by fastforce
  moreover have "x = None \<or> x = Some None"
    using assms(2) [of "cb_args i ! 0"] True e by (intro no_externalD [OF _ e]) simp
  ultimately show ?thesis
    using na_quietD [OF lawful_napiD(16) [OF assms(1)] e] True
    by (auto simp: try_construct_external_proxy_def)
qed (simp add: try_construct_external_proxy_def)

lemma construct_entry_typed:
  "try_construct_external_proxy api tags st info self s = (Return False, t) \<Longrightarrow> cs_construct st = Some f \<Longrightarrow>
     construct_entry api tags st (info, self) s = f info self t"
  by (simp add: construct_entry_def act_bind_def)

lemma keeps_construct_entry:
  assumes "lawful_napi api" "\<And>v. v \<in> set (cb_args i) \<Longrightarrow> no_external api (cs_env st) v"
    and "\<And>f. cs_construct st = Some f \<Longrightarrow> keeps {#} (f (Some i) self) (\<lambda>_. {#})"
  shows "keeps {#} (construct_entry api tags st (Some i, self)) (\<lambda>_. {#})"
proof (rule keepsI)
  fix s F r s'
  assume s: "\<not> na_fault s" "na_held s = F + {#}"
    and r: "construct_entry api tags st (Some i, self) s = (r, s')"
  obtain t where t: "try_construct_external_proxy api tags st (Some i) self s = (Return False, t)"
      "\<not> na_fault t" "na_held t = F + {#}"
    using try_construct_no_proxy [where tags = tags and self = self and s = s, OF assms(1,2)] s by auto
  show "\<not> na_fault s' \<and> na_held s' = F + outcome_held (\<lambda>_. {#}) r"
    using r t keepsD [OF assms(3) t(2,3)]
    by (cases "cs_construct st") (auto simp: construct_entry_def act_bind_step)
qed

lemma class_constructor_eq:
  assumes "cb_this i = Some x" "cb_data i = Some d"
  shows "class_constructor api env holder (Some i) s =
    (case holder_invoke (holder d) (Some i, Some x) s of
       (Return _, t) \<Rightarrow> (Return (Some x), t)
     | (Abort, t) \<Rightarrow> (Abort, t)
     | (Throw e, t) \<Rightarrow>
         if e = UnknownException then (Throw e, t) else (Return None, api_throw_error api env (what e) t))"
proof (cases "holder_invoke (holder d) (Some i, Some x) s")
  case (Pair r t)
  show ?thesis
  proof (cases r)
    case (Throw e)
    with Pair assms show ?thesis by (cases e) (simp_all add: class_constructor_def)
  qed (simp_all add: class_constructor_def Pair assms)
qed

lemma class_constructor_ok:
  assumes "lawful_napi api" "cb_this i = Some x" "cb_data i = Some d"
    and "keeps {#} (holder_invoke (holder d) (Some i, Some x)) (\<lambda>_. {#})"
  shows "keeps {#} (class_constructor api env holder (Some i)) (\<lambda>_. {#})"
proof (rule keepsI)
  fix s F r s'
  assume s: "\<not> na_fault s" "na_held s = F + {#}" and r: "class_constructor api env holder (Some i) s = (r, s')"
  obtain a t where h: "holder_invoke (holder d) (Some i, Some x) s = (a, t)" by fastforce
  have t: "\<not> na_fault t" "na_held t = F" using keepsD [OF assms(4) s h] by (cases a; simp)+
  then show "\<not> na_fault s' \<and> na_held s' = F + outcome_held (\<lambda>_. {#}) r"
    using r h dropsD [OF drops_quiet [OF lawful_napiD(21) [OF assms(1)]], of t F]
    by (cases a) (auto simp: class_constructor_eq [OF assms(2,3)] split: if_splits)
qed


text \<open>
  A class of one argument: called with two, and with a constructor that throws something that is
  not a \<open>std::exception\<close>.
\<close>

definition sample_no_external :: "nat napi_api" where
  "sample_no_external = sample_napi\<lparr>api_external_value := (\<lambda>env v s. (None, s))\<rparr>"

lemma sample_no_external_lawful: "lawful_napi sample_no_external"
proof -
  have id: "na_quiet (\<lambda>s :: nat napi. s)" by (simp add: na_quiet_def)
  have "na_quiet (\<lambda>s :: nat napi. s\<lparr>na_pending := True\<rparr>)" by (simp add: na_quiet_def)
  then show ?thesis
    by (simp add: lawful_napi_def sample_no_external_def sample_napi_def id sample_instance_ok)
qed


end
