(* ===== verification/NapiHandoff.thy ===== *)
theory NapiHandoff
  imports NapiClass
begin

section \<open>Handing a receiver to its class\<close>

text \<open>
  The composition of \<open>make_export_object_impl\<close> with the class constructor it calls through the
  engine: who deletes the receiver, on every way out.
\<close>

lemma quiet_target_constructor:
  assumes "lawful_napi api" "class_target_constructor api target s = (r, t)"
  shows "(na_fault t \<longrightarrow> na_fault s) \<and> na_held t = na_held s \<and> na_handoffs t = na_handoffs s"
  using assms(2) na_quietD [OF lawful_napiD(3) [OF assms(1)]]
  by (fastforce simp: class_target_constructor_def napi_check_def split: option.splits prod.splits)

lemma object_destroy_handoffs:
  assumes "lawful_napi api"
  shows "na_handoffs (object_destroy api ob s) = na_handoffs s"
proof -
  have "na_handoffs (api_delete_reference api env r t) = na_handoffs t" for env r t
    using lawful_napiD(2) [OF assms] by (simp add: na_quiet_def)
  then show ?thesis
    by (cases "ob_ref ob") (simp_all add: object_destroy_def object_reset_def napi_delete_reference_def na_give_def)
qed

text \<open>The constructor callback run on an external that points to a handoff which still holds \<open>p\<close>.\<close>

definition handoff_taken :: "nat \<Rightarrow> nat \<Rightarrow> na_resource multiset \<Rightarrow> 'w napi \<Rightarrow> bool" where
  "handoff_taken a p F t \<longleftrightarrow> \<not> na_fault t \<and>
     (na_held t = F \<and> na_handoffs t a = Some (handoff_magic, None) \<or>
      na_held t = F + {#Receiver p#} \<and> na_handoffs t a = Some (handoff_magic, Some p))"

text \<open>
  The setting: every data pointer leads to the state of the class, the externals created here are
  what \<open>napi_get_value_external\<close> reads back, and tagging, wrapping and referring to an instance
  succeed.
\<close>

definition class_handoff ::
    "'w napi_api \<Rightarrow> bool \<Rightarrow> 'w class_state \<Rightarrow> (nat \<Rightarrow> ('w napi, cb_info option \<times> nat option, unit) erased_holder) \<Rightarrow>
     bool" where
  "class_handoff api tags st holder \<longleftrightarrow> lawful_napi api \<and>
     (\<forall>d. holder d = class_state_holder api tags d st) \<and>
     (\<forall>self p s. \<exists>ob t. construct_from_native api (cs_env st) tags (cs_key st) self p s = (Return ob, t)) \<and>
     (\<forall>env a s v t u. api_create_external api env a s = (Some v, t) \<longrightarrow>
        (\<exists>u'. api_external_value api (cs_env st) v u = (Some (Some a), u')))"

lemma class_handoffD:
  assumes "class_handoff api tags st holder"
  shows "lawful_napi api" "holder d = class_state_holder api tags d st"
    "\<exists>ob t. construct_from_native api (cs_env st) tags (cs_key st) self p s = (Return ob, t)"
    "api_create_external api env a s = (Some v, t) \<Longrightarrow>
      \<exists>u'. api_external_value api (cs_env st) v u = (Some (Some a), u')"
  using assms unfolding class_handoff_def by blast+

lemma proxy_constructed:
  assumes h: "class_handoff api tags st holder"
    and "cb_args i = [v]" "\<And>u. \<exists>u'. api_external_value api (cs_env st) v u = (Some (Some a), u')"
    and "\<not> na_fault s" "na_held s = F + {#Receiver p#}" "na_handoffs s a = Some (handoff_magic, Some p)"
  shows "\<exists>t. construct_entry api tags st (Some i, self) s = (Return (), t) \<and> handoff_taken a p F t"
proof -
  obtain s1 where e: "api_external_value api (cs_env st) v s = (Some (Some a), s1)" using assms(3) by blast
  have s1: "\<not> na_fault s1" "na_held s1 = F + {#Receiver p#}" "na_handoffs s1 a = Some (handoff_magic, Some p)"
    using na_quietD [OF lawful_napiD(16) [OF class_handoffD(1) [OF h]] e] assms(4-6) by auto
  obtain ob s2 where c: "construct_from_native api (cs_env st) tags (cs_key st) self p s1 = (Return ob, s2)"
    using class_handoffD(3) [OF h] by blast
  have s2: "\<not> na_fault s2" "na_held s2 = F + object_held ob"
    using keepsD [OF keeps_construct_from_native [OF class_handoffD(1) [OF h]] s1(1,2) c] by simp_all
  let ?s3 = "set_handoff a (Some (handoff_magic, None)) s2"
  let ?t = "object_destroy api ob ?s3"
  have "\<not> na_fault ?t \<and> na_held ?t = F"
    using s2 by (intro dropsD [OF drops_object_destroy [OF class_handoffD(1) [OF h]]]) (simp_all add: set_handoff_def)
  moreover have "na_handoffs ?t a = Some (handoff_magic, None)"
    by (simp add: object_destroy_handoffs [OF class_handoffD(1) [OF h]] set_handoff_def)
  moreover have "try_construct_external_proxy api tags st (Some i) self s = (Return True, ?t)"
    using assms(2) e s1(3) c by (simp add: try_construct_external_proxy_def act_bind_def)
  ultimately show ?thesis
    by (simp add: construct_entry_def act_bind_def act_return_def handoff_taken_def)
qed

lemma constructor_takes_handoff:
  assumes h: "class_handoff api tags st holder"
    and "cb_args i = [v]" "\<And>u. \<exists>u'. api_external_value api (cs_env st) v u = (Some (Some a), u')"
    and "\<not> na_fault s" "na_held s = F + {#Receiver p#}" "na_handoffs s a = Some (handoff_magic, Some p)"
  shows "handoff_taken a p F (snd (class_constructor api env holder (Some i) s))"
proof -
  obtain self s1 where c: "(if cb_this i = None then api_create_object api env s else (cb_this i, s)) = (self, s1)"
    by fastforce
  have s1: "\<not> na_fault s1" "na_held s1 = F + {#Receiver p#}" "na_handoffs s1 a = Some (handoff_magic, Some p)"
    using c na_quietD [OF lawful_napiD(20) [OF class_handoffD(1) [OF h]]] assms(4-6) by (auto split: if_splits)
  show ?thesis
  proof (cases "cb_data i")
    case None
    then show ?thesis using c s1 by (simp add: class_constructor_def handoff_taken_def)
  next
    case (Some d)
    obtain t where t: "construct_entry api tags st (Some i, self) s1 = (Return (), t)" "handoff_taken a p F t"
      using proxy_constructed [OF h assms(2,3) s1] by blast
    have "holder_invoke (holder d) (Some i, self) s1 = (Return (), t)"
      using t by (simp add: holder_invoke_def class_handoffD(2) [OF h] class_state_holder_def)
    then show ?thesis using c t Some by (simp add: class_constructor_def)
  qed
qed

lemma instantiatesD:
  assumes "instantiates call args" "call (Some cb) s = (v, s')"
  obtains pre post where "na_quiet pre" "na_quiet post"
    "v = None \<and> s' = pre s \<or>
     (\<exists>info. map Some (cb_args info) = args \<and> s' = post (snd (cb info (pre s))))"
proof -
  from assms(1) have "\<exists>pre post. na_quiet pre \<and> na_quiet post \<and>
      (call (Some cb) s = (None, pre s) \<or>
       (\<exists>info v t. map Some (cb_args info) = args \<and> t = snd (cb info (pre s)) \<and>
          call (Some cb) s = (v, post t) \<and> (v \<noteq> None \<longrightarrow> \<not> na_pending t)))"
    by (simp add: instantiates_def)
  then show thesis using assms(2) that by (elim exE conjE disjE) auto
qed

lemma keeps_new_export_instance:
  assumes h: "class_handoff api tags st holder"
    and ctor: "\<And>s. \<exists>v t. class_target_constructor api target s = (Return v, t)"
    and ext: "\<And>u. \<exists>u'. api_external_value api (cs_env st) external u = (Some (Some a), u')"
    and s: "\<not> na_fault s" "na_held s = F + {#Receiver p#}" "na_handoffs s a = Some (handoff_magic, Some p)"
    and r: "new_export_instance api env target (\<lambda>i. class_constructor api env holder (Some i)) a external s = (r, s')"
  shows "\<not> na_fault s' \<and> na_held s' = F + outcome_held object_held r"
proof -
  let ?cb = "\<lambda>i. class_constructor api env holder (Some i)"
  note l = class_handoffD(1) [OF h]
  obtain c s1 where c: "class_target_constructor api target s = (Return c, s1)" using ctor by blast
  have s1: "\<not> na_fault s1" "na_held s1 = F + {#Receiver p#}" "na_handoffs s1 a = Some (handoff_magic, Some p)"
    using quiet_target_constructor [OF l c] s by auto
  obtain v s2 where n: "api_new_instance api env c [Some external] (Some ?cb) s1 = (v, s2)" by fastforce
  have "handoff_taken a p F s2"
  proof -
    obtain pre post where q: "na_quiet pre" "na_quiet post"
      and run: "v = None \<and> s2 = pre s1 \<or>
        (\<exists>info. map Some (cb_args info) = [Some external] \<and> s2 = post (snd (?cb info (pre s1))))"
      using instantiatesD [OF lawful_napiD(9) [OF l] n] by blast
    have pre: "\<not> na_fault (pre s1)" "na_held (pre s1) = F + {#Receiver p#}"
        "na_handoffs (pre s1) a = Some (handoff_magic, Some p)"
      using q(1) s1 by (auto simp: na_quiet_def)
    have post: "handoff_taken a p F (post t)" if "handoff_taken a p F t" for t
      using that q(2) by (auto simp: na_quiet_def handoff_taken_def)
    from run show ?thesis
    proof (elim disjE exE conjE)
      assume "s2 = pre s1"
      then show ?thesis using pre by (simp add: handoff_taken_def)
    next
      fix info
      assume i: "map Some (cb_args info) = [Some external]" "s2 = post (snd (?cb info (pre s1)))"
      then have "cb_args info = [external]" by auto
      from constructor_takes_handoff [OF h this ext pre] show ?thesis unfolding i(2) by (rule post)
    qed
  qed
  then consider (kept) "\<not> na_fault s2" "na_held s2 = F + {#Receiver p#}" "na_handoffs s2 a = Some (handoff_magic, Some p)"
    | (taken) "\<not> na_fault s2" "na_held s2 = F" "na_handoffs s2 a = Some (handoff_magic, None)"
    by (auto simp: handoff_taken_def)
  then show ?thesis
  proof cases
    case kept
    then show ?thesis using r c n give_receiver [OF kept(1,2)]
      by (auto simp: new_export_instance_def act_bind_def destroy_native_def)
  next
    case taken
    have "object_make api env v s2 = (r, s') \<or> r = Throw (RuntimeError ''napi_new_instance failed for exported object'') \<and> s' = s2"
      using r c n taken(3) by (auto simp: new_export_instance_def act_bind_def split: if_splits)
    then show ?thesis
      using keepsD [OF keeps_object_make [OF l, of env v], of s2 F r s'] taken by auto
  qed
qed

lemma keeps_hand_off:
  assumes h: "class_handoff api tags st holder"
    and ctor: "\<And>s. \<exists>v t. class_target_constructor api target s = (Return v, t)"
  shows "keeps {#Receiver p#} (hand_off api env target (\<lambda>i. class_constructor api env holder (Some i)) a p) object_held"
proof (rule keepsI)
  fix s :: "'a napi" and F r s'
  let ?s = "set_handoff a (Some (handoff_magic, Some p)) s"
  assume s: "\<not> na_fault s" "na_held s = F + {#Receiver p#}"
    and r: "hand_off api env target (\<lambda>i. class_constructor api env holder (Some i)) a p s = (r, s')"
  obtain e s1 where e: "api_create_external api env a ?s = (e, s1)" by fastforce
  have s1: "\<not> na_fault s1" "na_held s1 = F + {#Receiver p#}" "na_handoffs s1 a = Some (handoff_magic, Some p)"
    using na_quietD [OF lawful_napiD(15) [OF class_handoffD(1) [OF h]] e] s by (auto simp: set_handoff_def)
  show "\<not> na_fault s' \<and> na_held s' = F + outcome_held object_held r"
  proof (cases e)
    case None
    then show ?thesis using r e give_receiver [OF s1(1,2)] by (auto simp: hand_off_def destroy_native_def)
  next
    case (Some v)
    have "\<exists>u'. api_external_value api (cs_env st) v u = (Some (Some a), u')" for u
      using class_handoffD(4) [OF h] e Some by blast
    from keeps_new_export_instance [OF h ctor this s1] show ?thesis
      using r e Some by (simp add: hand_off_def)
  qed
qed


text \<open>A class whose state the data pointer leads to, its target, and a receiver at address 20.\<close>

definition sample_class :: "nat class_state" where
  "sample_class = class_state_make (Some 1) 77"

definition sample_target :: class_target where
  "sample_target = \<lparr>ct_reference = Some 3, ct_env = Some 1, ct_constructor = Some 3, ct_state = Some 1\<rparr>"

definition sample_make :: "nat napi_api \<Rightarrow> na_object outcome \<times> nat napi" where
  "sample_make api =
     napi_make_export_object api (Some 1) (Return sample_target)
       (\<lambda>i. class_constructor api (Some 1) (\<lambda>d. class_state_holder api True d sample_class) (Some i))
       (\<lambda>s. (Return 20, na_own (Receiver 20) s)) 40 (sample_env {#})"

lemmas sample_make_defs = sample_make_def sample_target_def sample_class_def napi_make_export_object_def
  finally_do_def act_bind_def act_return_def hand_off_def new_export_instance_def class_target_constructor_def
  napi_check_def class_constructor_def holder_invoke_def class_state_holder_def construct_entry_def
  try_construct_external_proxy_def construct_from_native_def wrap_native_def object_reset_to_def
  object_reset_def object_empty_def object_make_def object_destroy_def napi_create_reference_def
  napi_delete_reference_def destroy_native_def set_handoff_def na_give_def na_own_def sample_env_def
  class_state_make_def sample_instance_def handoff_magic_def



end
