(* ===== verification/NapiHolders.thy ===== *)
theory NapiHolders
  imports NapiClass
begin

section \<open>Callback holders of the Node-API backend\<close>

text \<open>
  The heap objects behind exported JavaScript functions and classes (\<open>dynabridge/backends/napi.h\<close>):
  the three classes of holders and the code each runs, and the life of holders and class states
  between the function that carries their address, the engine's collector and the end of the
  environment.
\<close>

subsection \<open>Holders\<close>

text \<open>
  The classes derived from \<open>callback_holder\<close>, with what their binder does: the number of
  parameters of its signature and whether its result is \<open>void\<close>; for overloads the buffer's
  \<open>max_arity\<close> and the dispatch.
\<close>

datatype 'w napi_holder =
    TypedCallback nat bool "nat option list \<Rightarrow> ('w napi, nat option) action"
  | MemberCallback nat bool "nat option list \<Rightarrow> ('w napi, nat option) action"
  | OverloadCallback nat "nat \<Rightarrow> nat list \<Rightarrow> ('w napi, nat option option) action"

text \<open>The binders of \<open>make_function\<close>, which asks whether one is a set of overloads.\<close>

datatype 'w napi_binder =
    SignatureBinder nat bool "nat option list \<Rightarrow> ('w napi, nat option) action"
  | OverloadBinder nat "nat \<Rightarrow> nat list \<Rightarrow> ('w napi, nat option option) action"

definition function_holder :: "'w napi_binder \<Rightarrow> 'w napi_holder" where
  "function_holder binder =
     (case binder of
        SignatureBinder arity void callee \<Rightarrow> TypedCallback arity void callee
      | OverloadBinder max_arity dispatch \<Rightarrow> OverloadCallback max_arity dispatch)"

text \<open>
  The static function that is registered with the engine for a holder, and what the engine enters
  with. It knows the class of the holder and calls it without going through \<open>invoke\<close>.
\<close>

definition holder_callback ::
    "'w napi_api \<Rightarrow> nat option \<Rightarrow> nat \<Rightarrow> 'w napi_holder \<Rightarrow> cb_info option \<Rightarrow> ('w napi, nat option) action" where
  "holder_callback api env undef h info =
     (case h of
        TypedCallback arity void callee \<Rightarrow> callback_dispatch api env arity void callee info
      | MemberCallback arity void callee \<Rightarrow> member_callback_dispatch api env arity void callee info
      | OverloadCallback max_arity dispatch \<Rightarrow> overload_callback api env undef max_arity dispatch info)"

text \<open>
  \<open>call_entry\<close>, the function each class stores in its \<open>erased_backend_holder\<close>: the
  arguments are the first of the array, as many as the signature has, after the receiver of a member;
  that of an overload holder ignores everything and returns null.
\<close>

definition typed_call_entry ::
    "'w napi_api \<Rightarrow> nat option \<Rightarrow> nat \<Rightarrow> bool \<Rightarrow> (nat option list \<Rightarrow> ('w napi, nat option) action) \<Rightarrow>
     nat option list \<Rightarrow> ('w napi, nat option) action" where
  "typed_call_entry api env arity void callee argv = napi_call_indices api env void callee (take arity argv)"

definition member_call_entry ::
    "'w napi_api \<Rightarrow> nat option \<Rightarrow> nat \<Rightarrow> bool \<Rightarrow> (nat option list \<Rightarrow> ('w napi, nat option) action) \<Rightarrow>
     nat option \<Rightarrow> nat option list \<Rightarrow> ('w napi, nat option) action" where
  "member_call_entry api env arity void callee receiver argv =
     napi_call_indices api env void callee (receiver # take arity argv)"

definition overload_call_entry :: "('w napi, nat option) action" where
  "overload_call_entry = act_return None"

definition holder_call_entry ::
    "'w napi_api \<Rightarrow> nat option \<Rightarrow> 'w napi_holder \<Rightarrow> nat option \<Rightarrow> nat option list \<Rightarrow> ('w napi, nat option) action" where
  "holder_call_entry api env h receiver argv =
     (case h of
        TypedCallback arity void callee \<Rightarrow> typed_call_entry api env arity void callee argv
      | MemberCallback arity void callee \<Rightarrow> member_call_entry api env arity void callee receiver argv
      | OverloadCallback max_arity dispatch \<Rightarrow> overload_call_entry)"

text \<open>
  Where a holder has one signature, its callback is the erased entry within the exception boundary,
  for the calls that pass the declared number of arguments.
\<close>

fun accepts_arguments :: "'w napi_holder \<Rightarrow> nat \<Rightarrow> bool" where
  "accepts_arguments (TypedCallback arity void callee) n = (n = arity)"
| "accepts_arguments (MemberCallback arity void callee) n = (n = arity)"
| "accepts_arguments (OverloadCallback max_arity dispatch) n = False"

lemma holder_callback_entry:
  "cb_data i = Some d \<Longrightarrow> accepts_arguments h (length (cb_args i)) \<Longrightarrow>
     holder_callback api env undef h (Some i) =
       napi_boundary api env ''dynabridge N-API callback failed'' (holder_call_entry api env h (cb_this i) (map Some (cb_args i)))"
  by (cases h) (auto simp: holder_callback_def holder_call_entry_def typed_call_entry_def member_call_entry_def
      callback_dispatch_def member_callback_dispatch_def)

subsection \<open>The engine's functions\<close>

text \<open>
  What the engine keeps: the address a function or class was created with, the object its finalizer
  will be given, the functions native code or JavaScript can still reach, the calls running in each,
  and whether the environment is up.
\<close>

record js_functions =
  fn_data :: "nat \<rightharpoonup> nat"
  fn_final :: "nat \<rightharpoonup> nat"
  fn_reach :: "nat set"
  fn_running :: "nat \<Rightarrow> nat"
  fn_env :: bool

definition on_functions :: "(js_functions \<Rightarrow> js_functions) \<Rightarrow> js_functions napi \<Rightarrow> js_functions napi" where
  "on_functions u s = s\<lparr>na_world := u (na_world s)\<rparr>"

definition no_functions :: "js_functions napi" where
  "no_functions = \<lparr>na_held = {#}, na_pending = False, na_fault = False, na_handoffs = (\<lambda>_. None),
     na_world = \<lparr>fn_data = Map.empty, fn_final = Map.empty, fn_reach = {}, fn_running = (\<lambda>_. 0), fn_env = True\<rparr>\<rparr>"

text \<open>
  Node-API's promise for the three calls that make a function: each fails without effect or has the
  effect it is named for, on a new function.
\<close>

definition creates_function :: "(nat \<Rightarrow> js_functions napi \<Rightarrow> nat option \<times> js_functions napi) \<Rightarrow> bool" where
  "creates_function create \<longleftrightarrow> (\<forall>h s. case create h s of
      (None, s') \<Rightarrow> s' = s
    | (Some f, s') \<Rightarrow> fn_data (na_world s) f = None \<and>
        s' = on_functions (\<lambda>w. w\<lparr>fn_data := (fn_data w)(f \<mapsto> h)\<rparr>) s)"

definition function_engine :: "js_functions napi_api \<Rightarrow> bool" where
  "function_engine api \<longleftrightarrow>
     (\<forall>env name. creates_function (api_create_function api env name)) \<and>
     (\<forall>env name. creates_function (api_define_class api env name)) \<and>
     (\<forall>env f h s. case api_add_finalizer api env (Some f) h s of
        (None, s') \<Rightarrow> s' = s
      | (Some _, s') \<Rightarrow> s' = on_functions (\<lambda>w. w\<lparr>fn_final := (fn_final w)(f \<mapsto> h)\<rparr>) s)"

subsection \<open>The life of a holder\<close>

text \<open>A holder is alive while native code owns it or a finalizer waits for it.\<close>

definition holder_alive :: "js_functions napi \<Rightarrow> nat \<Rightarrow> bool" where
  "holder_alive s h \<longleftrightarrow> Holder h \<in># na_held s \<or> h \<in> ran (fn_final (na_world s))"

text \<open>
  A function the backend returns is reachable from then on: the value is in a handle scope, then in
  a module, a class or an argument. One it does not return is not.
\<close>

definition returned_function :: "(js_functions napi, nat) action \<Rightarrow> js_functions napi \<Rightarrow> js_functions napi" where
  "returned_function maker s =
     (case maker s of
        (Return f, s') \<Rightarrow> on_functions (\<lambda>w. w\<lparr>fn_reach := insert f (fn_reach w)\<rparr>) s'
      | (_, s') \<Rightarrow> s')"

text \<open>
  The class state's first steps, before \<open>define_class_impl\<close> puts the class in its target.
\<close>

definition make_class :: "'w napi_api \<Rightarrow> nat option \<Rightarrow> string \<Rightarrow> nat \<Rightarrow> ('w napi, nat) action" where
  "make_class api env name st =
     attach_holder api env st (api_define_class api env name st) ''napi_define_class failed''"

text \<open>
  A call uses the object at the address the function carries; that this is dead is a fault.
\<close>

definition function_enter :: "nat \<Rightarrow> js_functions napi \<Rightarrow> js_functions napi" where
  "function_enter f s =
     (on_functions (\<lambda>w. w\<lparr>fn_running := (fn_running w)(f := fn_running w f + 1)\<rparr>) s)
       \<lparr>na_fault := na_fault s \<or> (case fn_data (na_world s) f of None \<Rightarrow> True | Some h \<Rightarrow> \<not> holder_alive s h)\<rparr>"

definition function_leave :: "nat \<Rightarrow> js_functions napi \<Rightarrow> js_functions napi" where
  "function_leave f = on_functions (\<lambda>w. w\<lparr>fn_running := (fn_running w)(f := fn_running w f - 1)\<rparr>)"

definition function_lose :: "nat \<Rightarrow> js_functions napi \<Rightarrow> js_functions napi" where
  "function_lose f = on_functions (\<lambda>w. w\<lparr>fn_reach := fn_reach w - {f}\<rparr>)"

text \<open>
  \<open>callback_holder_finalizer\<close> and \<open>class_state_finalizer\<close>: the engine is done with the object, so it
  is the callback's again.
\<close>

definition callback_holder_finalizer :: "nat \<Rightarrow> 'w napi \<Rightarrow> 'w napi" where
  "callback_holder_finalizer h s = destroy_holder h (na_own (Holder h) s)"

definition function_collect :: "nat \<Rightarrow> js_functions napi \<Rightarrow> js_functions napi" where
  "function_collect f s =
     (let gone = on_functions (\<lambda>w. w\<lparr>fn_data := (fn_data w)(f := None), fn_final := (fn_final w)(f := None)\<rparr>) s in
      case fn_final (na_world s) f of None \<Rightarrow> gone | Some h \<Rightarrow> callback_holder_finalizer h gone)"

definition environment_end :: "js_functions napi \<Rightarrow> js_functions napi" where
  "environment_end = on_functions (\<lambda>w. w\<lparr>fn_env := False, fn_reach := {}\<rparr>)"

text \<open>
  What may happen: native code makes a function, a member function or a class around a new holder,
  during a call or outside; reachable functions are called and released; one that is neither
  reachable nor running is collected at any later time, by its finalizer if it has one; the
  environment ends when no call runs, and collects all that is left.
\<close>

inductive functions_step :: "js_functions napi \<Rightarrow> js_functions napi \<Rightarrow> bool" where
  step_function: "function_engine api \<Longrightarrow> fn_env (na_world s) \<Longrightarrow> \<not> holder_alive s h \<Longrightarrow>
     functions_step s (returned_function (make_function_impl api env name h) s)"
| step_member: "function_engine api \<Longrightarrow> fn_env (na_world s) \<Longrightarrow> \<not> holder_alive s h \<Longrightarrow>
     functions_step s (returned_function (make_member_function api env name h) s)"
| step_class: "function_engine api \<Longrightarrow> fn_env (na_world s) \<Longrightarrow> \<not> holder_alive s h \<Longrightarrow>
     functions_step s (returned_function (make_class api env name h) s)"
| step_enter: "f \<in> fn_reach (na_world s) \<Longrightarrow> functions_step s (function_enter f s)"
| step_leave: "0 < fn_running (na_world s) f \<Longrightarrow> functions_step s (function_leave f s)"
| step_lose: "functions_step s (function_lose f s)"
| step_collect: "f \<in> dom (fn_data (na_world s)) \<Longrightarrow> f \<notin> fn_reach (na_world s) \<Longrightarrow> fn_running (na_world s) f = 0 \<Longrightarrow>
     functions_step s (function_collect f s)"
| step_end: "\<forall>f. fn_running (na_world s) f = 0 \<Longrightarrow> functions_step s (environment_end s)"

definition functions_ok :: "js_functions napi \<Rightarrow> bool" where
  "functions_ok s \<longleftrightarrow>
     (let w = na_world s in
      \<not> na_fault s \<and> na_held s = {#} \<and> finite (dom (fn_data w)) \<and> fn_final w \<subseteq>\<^sub>m fn_data w \<and> inj_on (fn_final w) (dom (fn_final w)) \<and>
      fn_reach w \<subseteq> dom (fn_final w) \<and> (\<forall>f. 0 < fn_running w f \<longrightarrow> f \<in> dom (fn_final w)) \<and>
      (\<not> fn_env w \<longrightarrow> fn_reach w = {} \<and> (\<forall>f. fn_running w f = 0)))"

lemma on_functions_simps [simp]:
  "na_held (on_functions u s) = na_held s" "na_fault (on_functions u s) = na_fault s"
  "na_world (on_functions u s) = u (na_world s)"
  by (simp_all add: on_functions_def)

lemma creates_functionD:
  assumes "creates_function create" "create h s = (r, s')"
  shows "case r of None \<Rightarrow> s' = s
    | Some f \<Rightarrow> fn_data (na_world s) f = None \<and> s' = on_functions (\<lambda>w. w\<lparr>fn_data := (fn_data w)(f \<mapsto> h)\<rparr>) s"
  using assms(1) [unfolded creates_function_def, THEN spec, of h, THEN spec, of s] assms(2) by simp

lemma engine_finalizerD:
  assumes "function_engine api" "api_add_finalizer api env (Some f) h s = (r, s')"
  shows "case r of None \<Rightarrow> s' = s | Some u \<Rightarrow> s' = on_functions (\<lambda>w. w\<lparr>fn_final := (fn_final w)(f \<mapsto> h)\<rparr>) s"
proof -
  note fin = assms(1) [unfolded function_engine_def, THEN conjunct2, THEN conjunct2, THEN spec, of env, THEN spec, of f,
      THEN spec, of h, THEN spec, of s]
  with assms(2) show ?thesis by (cases r) simp_all
qed

text \<open>The three ways out of making a function, seen from the heap.\<close>

lemma attach_holder_cases:
  assumes "function_engine api" "creates_function create" "\<not> na_fault s" "na_held s = {#}"
  obtains (refused) m s' where "attach_holder api env h (create h) msg s = (Throw (RuntimeError m), s')"
      "na_held s' = {#}" "\<not> na_fault s'" "na_world s' = na_world s"
    | (unattached) f m s' where "attach_holder api env h (create h) msg s = (Throw (RuntimeError m), s')"
      "na_held s' = {#}" "\<not> na_fault s'" "fn_data (na_world s) f = None"
      "na_world s' = (na_world s)\<lparr>fn_data := (fn_data (na_world s))(f \<mapsto> h)\<rparr>"
    | (attached) f s' where "attach_holder api env h (create h) msg s = (Return f, s')"
      "na_held s' = {#}" "\<not> na_fault s'" "fn_data (na_world s) f = None"
      "na_world s' = (na_world s)\<lparr>fn_data := (fn_data (na_world s))(f \<mapsto> h), fn_final := (fn_final (na_world s))(f \<mapsto> h)\<rparr>"
proof -
  obtain r s1 where c: "create h (na_own (Holder h) s) = (r, s1)" by fastforce
  note cr = creates_functionD [OF assms(2) c]
  note defs = attach_holder_def destroy_holder_def na_own_def na_give_def
  show thesis
  proof (cases r)
    case None
    with cr refused c assms(3,4) show thesis by (simp add: defs)
  next
    case (Some f)
    obtain b s2 where a: "api_add_finalizer api env (Some f) h s1 = (b, s2)" by fastforce
    note fin = engine_finalizerD [OF assms(1) a]
    show thesis
    proof (cases b)
      case None
      with fin cr c Some a assms(3,4) show thesis by (intro unattached [of "''napi_add_finalizer failed''" "na_give (Holder h) s1" f]) (auto simp: defs)
    next
      case (Some u)
      with fin cr c \<open>r = Some f\<close> a assms(3,4) show thesis by (intro attached [of f "na_give (Holder h) s2"]) (auto simp: defs)
    qed
  qed
qed

lemma attach_ok:
  assumes "functions_ok s" "function_engine api" "creates_function create" "fn_env (na_world s)" "\<not> holder_alive s h"
  shows "functions_ok (returned_function (attach_holder api env h (create h) msg) s)"
proof -
  have s: "\<not> na_fault s" "na_held s = {#}" using assms(1) by (simp_all add: functions_ok_def Let_def)
  have h: "h \<notin> ran (fn_final (na_world s))" using assms(5) by (simp add: holder_alive_def)
  have sub: "fn_final (na_world s) f = None" if "fn_data (na_world s) f = None" for f
    using that assms(1) by (metis (no_types, lifting) functions_ok_def domIff map_le_def not_None_eq)
  show ?thesis
  proof (rule attach_holder_cases [OF assms(2,3) s, of env h msg])
    fix m s'
    assume "attach_holder api env h (create h) msg s = (Throw (RuntimeError m), s')"
      "na_held s' = {#}" "\<not> na_fault s'" "na_world s' = na_world s"
    then show ?thesis using assms(1) by (simp add: returned_function_def functions_ok_def Let_def)
  next
    fix f m s'
    assume "attach_holder api env h (create h) msg s = (Throw (RuntimeError m), s')"
      "na_held s' = {#}" "\<not> na_fault s'" "fn_data (na_world s) f = None"
      "na_world s' = (na_world s)\<lparr>fn_data := (fn_data (na_world s))(f \<mapsto> h)\<rparr>"
    moreover have "fn_final (na_world s) \<subseteq>\<^sub>m (fn_data (na_world s))(f \<mapsto> h)"
      using assms(1) sub [of f] \<open>fn_data (na_world s) f = None\<close> by (auto simp: functions_ok_def Let_def map_le_def)
    ultimately show ?thesis using assms(1) by (auto simp: returned_function_def functions_ok_def Let_def)
  next
    fix f s'
    assume "attach_holder api env h (create h) msg s = (Return f, s')"
      "na_held s' = {#}" "\<not> na_fault s'" "fn_data (na_world s) f = None"
      "na_world s' = (na_world s)\<lparr>fn_data := (fn_data (na_world s))(f \<mapsto> h), fn_final := (fn_final (na_world s))(f \<mapsto> h)\<rparr>"
    moreover have "(fn_final (na_world s))(f \<mapsto> h) \<subseteq>\<^sub>m (fn_data (na_world s))(f \<mapsto> h)"
      using assms(1) by (simp add: functions_ok_def Let_def)
    moreover have "inj_on ((fn_final (na_world s))(f \<mapsto> h)) (dom ((fn_final (na_world s))(f \<mapsto> h)))"
      using assms(1) h by (intro inj_upd_fresh) (simp_all add: functions_ok_def Let_def)
    ultimately show ?thesis using assms(1,4)
      by (auto simp: returned_function_def functions_ok_def Let_def simp del: fun_upd_apply dom_fun_upd) auto
  qed
qed

lemma functions_okD:
  assumes "functions_ok s"
  shows "\<not> na_fault s" "na_held s = {#}" "fn_final (na_world s) \<subseteq>\<^sub>m fn_data (na_world s)"
    "inj_on (fn_final (na_world s)) (dom (fn_final (na_world s)))"
    "f \<in> fn_reach (na_world s) \<Longrightarrow> f \<in> dom (fn_final (na_world s))"
    "0 < fn_running (na_world s) f \<Longrightarrow> f \<in> dom (fn_final (na_world s))"
    "\<not> fn_env (na_world s) \<Longrightarrow> fn_reach (na_world s) = {}"
    "\<not> fn_env (na_world s) \<Longrightarrow> fn_running (na_world s) f = 0" "finite (dom (fn_data (na_world s)))"
  using assms by (auto simp: functions_ok_def Let_def)

lemma usable_holder:
  assumes "functions_ok s" "f \<in> dom (fn_final (na_world s))"
  shows "\<exists>h. fn_data (na_world s) f = Some h \<and> holder_alive s h"
proof -
  from assms(2) obtain h where h: "fn_final (na_world s) f = Some h" by blast
  with functions_okD(3) [OF assms(1)] have "fn_data (na_world s) f = Some h" by (metis domI map_le_def)
  with h show ?thesis by (auto simp: holder_alive_def ran_def)
qed

lemma enter_ok:
  assumes "functions_ok s" "f \<in> fn_reach (na_world s)"
  shows "functions_ok (function_enter f s)"
proof -
  have "f \<in> dom (fn_final (na_world s))" using functions_okD(5) [OF assms] .
  moreover from usable_holder [OF assms(1) this] obtain h where "fn_data (na_world s) f = Some h" "holder_alive s h" by blast
  moreover have "fn_env (na_world s)" using assms functions_okD(7) by fastforce
  ultimately show ?thesis using assms by (auto simp: functions_ok_def Let_def function_enter_def)
qed

lemma leave_ok:
  assumes "functions_ok s" "0 < fn_running (na_world s) f"
  shows "functions_ok (function_leave f s)"
  using assms functions_okD(6) [OF assms] by (auto simp: functions_ok_def Let_def function_leave_def)

lemma collect_ok:
  assumes "functions_ok s" "f \<notin> fn_reach (na_world s)" "fn_running (na_world s) f = 0"
  shows "functions_ok (function_collect f s)"
proof -
  note ok = functions_okD [OF assms(1)]
  have le: "(fn_final (na_world s))(f := None) \<subseteq>\<^sub>m (fn_data (na_world s))(f := None)"
    using ok(3) by (auto simp: map_le_def)
  have world: "na_world (function_collect f s) = (na_world s)\<lparr>fn_data := (fn_data (na_world s))(f := None),
      fn_final := (fn_final (na_world s))(f := None)\<rparr>"
    "na_held (function_collect f s) = {#}" "\<not> na_fault (function_collect f s)"
    using ok(1,2) by (simp_all add: function_collect_def Let_def callback_holder_finalizer_def destroy_holder_def
        na_own_def na_give_def split: option.splits)
  then show ?thesis
    using assms le inj_drop [OF ok(4), of f] ok(5-8)
    by (auto simp: functions_ok_def Let_def simp del: fun_upd_apply dom_fun_upd) auto
qed

interpretation function_heap: invariant_machine "\<lambda>s. s = no_functions" functions_step functions_ok
proof
  show "s = no_functions \<Longrightarrow> functions_ok s" for s
    by (simp add: functions_ok_def no_functions_def)
  show "functions_ok s \<Longrightarrow> functions_step s t \<Longrightarrow> functions_ok t" for s t
  proof (erule functions_step.cases)
    fix api s' h env name
    assume a: "functions_ok s" "s = s'" "function_engine api" "fn_env (na_world s')" "\<not> holder_alive s' h"
    then have e: "creates_function (api_create_function api env name)" "creates_function (api_define_class api env name)"
      by (simp_all add: function_engine_def)
    show "t = returned_function (make_function_impl api env name h) s' \<Longrightarrow> functions_ok t"
      and "t = returned_function (make_member_function api env name h) s' \<Longrightarrow> functions_ok t"
      and "t = returned_function (make_class api env name h) s' \<Longrightarrow> functions_ok t"
      using attach_ok [of s', OF _ a(3) e(1) a(4,5)] attach_ok [of s', OF _ a(3) e(2) a(4,5)] a(1,2)
      by (simp_all add: make_function_impl_def make_member_function_def make_class_def)
  next
    fix f s'
    assume a: "functions_ok s" "s = s'"
    show "t = function_enter f s' \<Longrightarrow> f \<in> fn_reach (na_world s') \<Longrightarrow> functions_ok t" using enter_ok a by blast
    show "t = function_leave f s' \<Longrightarrow> 0 < fn_running (na_world s') f \<Longrightarrow> functions_ok t" using leave_ok a by blast
    show "t = function_lose f s' \<Longrightarrow> functions_ok t" using a by (auto simp: functions_ok_def Let_def function_lose_def)
    show "t = function_collect f s' \<Longrightarrow> f \<in> dom (fn_data (na_world s')) \<Longrightarrow> f \<notin> fn_reach (na_world s') \<Longrightarrow>
        fn_running (na_world s') f = 0 \<Longrightarrow> functions_ok t" using collect_ok a by blast
    show "t = environment_end s' \<Longrightarrow> \<forall>f. fn_running (na_world s') f = 0 \<Longrightarrow> functions_ok t"
      using a by (auto simp: functions_ok_def Let_def environment_end_def)
  qed
qed

lemma alive_iff: "functions_ok s \<Longrightarrow> holder_alive s h \<longleftrightarrow> h \<in> ran (fn_final (na_world s))"
  by (simp add: holder_alive_def functions_okD)

text \<open>Once the environment has ended the collector can free everything that is left.\<close>

lemma ended_drains:
  assumes "functions_ok s" "\<not> fn_env (na_world s)"
  shows "\<exists>t. functions_step\<^sup>*\<^sup>* s t \<and> (\<forall>h. \<not> holder_alive t h)"
  using assms
proof (induction "card (dom (fn_data (na_world s)))" arbitrary: s rule: less_induct)
  case less
  note ok = functions_okD [OF less.prems(1)]
  show ?case
  proof (cases "dom (fn_data (na_world s)) = {}")
    case True
    then have "fn_final (na_world s) = Map.empty" using ok(3) by (auto dest: map_le_implies_dom_le)
    with less.prems show ?thesis by (auto simp: alive_iff)
  next
    case False
    then obtain f where f: "f \<in> dom (fn_data (na_world s))" by blast
    let ?t = "function_collect f s"
    have data: "fn_data (na_world ?t) = (fn_data (na_world s))(f := None)" "fn_env (na_world ?t) = fn_env (na_world s)"
      by (simp_all add: function_collect_def Let_def callback_holder_finalizer_def destroy_holder_def na_own_def
          na_give_def split: option.splits)
    have step: "functions_step s ?t" using f ok(7,8) less.prems(2) by (intro step_collect) auto
    have "card (dom (fn_data (na_world ?t))) < card (dom (fn_data (na_world s)))"
      using f ok(9) data(1) by (intro psubset_card_mono) auto
    with less.hyps function_heap.step_inv [OF less.prems(1) step] data(2) less.prems(2)
    obtain u where "functions_step\<^sup>*\<^sup>* ?t u" "\<forall>h. \<not> holder_alive u h" by metis
    with step show ?thesis by (meson converse_rtranclp_into_rtranclp)
  qed
qed

text \<open>
  C21: no exported JavaScript function runs native code whose holder is gone. Whatever the engine
  refuses while functions, member functions and classes are made, and in whatever order they are
  called, dropped, collected and made during calls: nothing is released twice, native code keeps
  nothing, the holders alive are exactly those of the functions with a finalizer, one each; a
  function that can be called or is running carries a living holder; and when the environment ends
  every holder can still be freed.
\<close>

theorem napi_callbacks_safe:
  assumes "reaches (\<lambda>s. s = no_functions) functions_step s"
  shows "\<not> na_fault s \<and> na_held s = {#} \<and>
    bij_betw (\<lambda>f. the (fn_data (na_world s) f)) (dom (fn_final (na_world s))) {h. holder_alive s h} \<and>
    (f \<notin> fn_reach (na_world s) \<and> fn_running (na_world s) f = 0 \<or>
      (\<exists>h. fn_data (na_world s) f = Some h \<and> holder_alive s h)) \<and>
    ((\<exists>g. fn_running (na_world s) g \<noteq> 0) \<or>
      (\<exists>t. functions_step\<^sup>*\<^sup>* (environment_end s) t \<and> (\<forall>h. \<not> holder_alive t h)))"
proof -
  let ?w = "na_world s"
  have ok: "functions_ok s" by (rule function_heap.reaches_inv [OF assms])
  note d = functions_okD [OF ok]
  have eq: "the (fn_data ?w f) = the (fn_final ?w f)" if "f \<in> dom (fn_final ?w)" for f
    using that d(3) by (simp add: map_le_def)
  have inj: "inj_on (\<lambda>f. the (fn_data ?w f)) (dom (fn_final ?w))"
    using d(4) eq unfolding inj_on_def by (metis domD option.sel)
  have "(\<lambda>f. the (fn_final ?w f)) ` dom (fn_final ?w) = ran (fn_final ?w)"
    by (force simp: ran_def image_iff)
  then have "(\<lambda>f. the (fn_data ?w f)) ` dom (fn_final ?w) = {h. holder_alive s h}"
    using eq alive_iff [OF ok] by (simp cong: image_cong)
  with inj have bij: "bij_betw (\<lambda>f. the (fn_data ?w f)) (dom (fn_final ?w)) {h. holder_alive s h}"
    by (simp add: bij_betw_def)
  have use: "f \<notin> fn_reach ?w \<and> fn_running ?w f = 0 \<or> (\<exists>h. fn_data ?w f = Some h \<and> holder_alive s h)"
    using usable_holder [OF ok] d(5,6) [of f] by auto
  have "\<exists>t. functions_step\<^sup>*\<^sup>* (environment_end s) t \<and> (\<forall>h. \<not> holder_alive t h)" if "\<forall>g. fn_running ?w g = 0"
    using function_heap.step_inv [OF ok step_end [OF that]] by (rule ended_drains) (simp add: environment_end_def)
  with d(1,2) bij use show ?thesis by blast
qed

text \<open>
  An engine that makes function 5 when it is free and attaches every finalizer, and one that
  attaches none: a function is made and called, during the call another one fails, the first is
  dropped, returns and is collected.
\<close>

definition one_function :: "nat \<Rightarrow> js_functions napi \<Rightarrow> nat option \<times> js_functions napi" where
  "one_function h s =
     (if fn_data (na_world s) 5 = None then (Some 5, on_functions (\<lambda>w. w\<lparr>fn_data := (fn_data w)(5 \<mapsto> h)\<rparr>) s)
      else if fn_data (na_world s) 6 = None then (Some 6, on_functions (\<lambda>w. w\<lparr>fn_data := (fn_data w)(6 \<mapsto> h)\<rparr>) s)
      else (None, s))"

definition function_api :: "js_functions napi_api \<Rightarrow> bool \<Rightarrow> js_functions napi_api" where
  "function_api api attaches = api\<lparr>
     api_create_function := (\<lambda>env name. one_function), api_define_class := (\<lambda>env name. one_function),
     api_add_finalizer := (\<lambda>env v h s. case v of None \<Rightarrow> (None, s) | Some f \<Rightarrow>
       if attaches then (Some (), on_functions (\<lambda>w. w\<lparr>fn_final := (fn_final w)(f \<mapsto> h)\<rparr>) s) else (None, s))\<rparr>"

lemma function_api_engine: "function_engine (function_api api attaches)"
  by (auto simp: function_engine_def creates_function_def function_api_def one_function_def)

definition two_functions :: "js_functions napi_api \<Rightarrow> js_functions napi" where
  "two_functions api =
     function_lose 5 (returned_function (make_class (function_api api False) None ''counter'' 2)
       (function_enter 5 (returned_function (make_function_impl (function_api api True) None ''add'' 1) no_functions)))"

theorem napi_callbacks_safe_witness:
  "\<forall>api. let s = two_functions api in \<not> na_fault s \<and> na_held s = {#} \<and>
    bij_betw (\<lambda>f. the (fn_data (na_world s) f)) (dom (fn_final (na_world s))) {h. holder_alive s h} \<and>
    holder_alive s 1 \<and> \<not> holder_alive s 2 \<and> \<not> holder_alive (function_collect 5 (function_leave 5 s)) 1"
proof (intro allI)
  fix api
  let ?reach = "reaches (\<lambda>s. s = no_functions) functions_step"
  note unfold = returned_function_def make_function_impl_def make_class_def attach_holder_def function_api_def
    one_function_def function_enter_def function_lose_def destroy_holder_def na_own_def na_give_def holder_alive_def
    no_functions_def on_functions_def
  let ?s1 = "returned_function (make_function_impl (function_api api True) None ''add'' 1) no_functions"
  let ?s2 = "function_enter 5 ?s1"
  let ?s3 = "returned_function (make_class (function_api api False) None ''counter'' 2) ?s2"
  have "?reach no_functions" by (rule reaches_start) (rule refl)
  then have "?reach ?s1"
    by (rule reaches_step) (rule step_function [OF function_api_engine], simp_all add: unfold)
  then have "?reach ?s2" by (rule reaches_step) (rule step_enter, simp add: unfold)
  then have "?reach ?s3"
    by (rule reaches_step) (rule step_class [OF function_api_engine], simp_all add: unfold)
  then have "?reach (two_functions api)"
    unfolding two_functions_def by (rule reaches_step) (rule step_lose)
  note safe = napi_callbacks_safe [OF this, of 5]
  have alive: "holder_alive (two_functions api) 1" "\<not> holder_alive (two_functions api) 2"
    "\<not> holder_alive (function_collect 5 (function_leave 5 (two_functions api))) 1"
    by (simp_all add: two_functions_def unfold function_collect_def function_leave_def callback_holder_finalizer_def)
  show "let s = two_functions api in \<not> na_fault s \<and> na_held s = {#} \<and>
    bij_betw (\<lambda>f. the (fn_data (na_world s) f)) (dom (fn_final (na_world s))) {h. holder_alive s h} \<and>
    holder_alive s 1 \<and> \<not> holder_alive s 2 \<and> \<not> holder_alive (function_collect 5 (function_leave 5 s)) 1"
    using safe alive by (simp add: Let_def)
qed
end
