(* ===== verification/NapiConverters.thy ===== *)
theory NapiConverters
  imports NapiCall Converters Complex_Main
begin

section \<open>Conversions between JavaScript and native values\<close>

text \<open>
  The converters of \<open>dynabridge/backends/napi_converters.h\<close>. A JavaScript number is a double: a
  rational number when it is finite (comparisons and truncation of doubles are exact), an infinity
  or not a number.
\<close>

datatype js_number = Finite rat | Infinite bool | NaN

text \<open>
  The Node-API functions for primitive values. The engine is a parameter; what it promises is
  \<open>lawful_values\<close>: \<open>nv_number\<close> and \<open>nv_text\<close> say what a value holds (the UTF-8 bytes of a string),
  the rest reads and makes such values.
\<close>

record 'w napi_values =
  nv_number :: "nat \<Rightarrow> js_number option"
  nv_text :: "nat \<Rightarrow> bytes option"
  nv_typeof :: "nat \<Rightarrow> 'w napi \<Rightarrow> napi_valuetype option \<times> 'w napi"
  nv_get_double :: "nat \<Rightarrow> 'w napi \<Rightarrow> js_number option \<times> 'w napi"
  nv_create_int32 :: "32 word \<Rightarrow> 'w napi \<Rightarrow> nat option \<times> 'w napi"
  nv_create_uint32 :: "u32 \<Rightarrow> 'w napi \<Rightarrow> nat option \<times> 'w napi"
  nv_create_string :: "bytes \<Rightarrow> 'w napi \<Rightarrow> nat option \<times> 'w napi"
  nv_string_size :: "nat \<Rightarrow> 'w napi \<Rightarrow> nat option \<times> 'w napi"
  nv_string_copy :: "nat \<Rightarrow> nat \<Rightarrow> 'w napi \<Rightarrow> (nat \<times> bytes) option \<times> 'w napi"

subsection \<open>The converters\<close>

text \<open>\<open>std::trunc\<close> on a finite number.\<close>

definition trunc_rat :: "rat \<Rightarrow> rat" where
  "trunc_rat x = (if 0 \<le> x then of_int \<lfloor>x\<rfloor> else of_int \<lceil>x\<rceil>)"

definition napi_int_to :: "'w napi_values \<Rightarrow> 32 word \<Rightarrow> ('w napi, nat) action" where
  "napi_int_to nv n = napi_check (nv_create_int32 nv n) ''napi_create_int32 failed''"

definition napi_int_from :: "'w napi_values \<Rightarrow> nat \<Rightarrow> 'w napi \<Rightarrow> 32 word option \<times> 'w napi" where
  "napi_int_from nv v s =
     (case nv_get_double nv v s of
        (Some (Finite result), s') \<Rightarrow>
          (if trunc_rat result \<noteq> result \<or> result < of_int int_min \<or> result > of_int int_max then None
           else Some (word_of_int \<lfloor>result\<rfloor>), s')
      | (_, s') \<Rightarrow> (None, s'))"

definition napi_unsigned_to :: "'w napi_values \<Rightarrow> u32 \<Rightarrow> ('w napi, nat) action" where
  "napi_unsigned_to nv n = napi_check (nv_create_uint32 nv n) ''napi_create_uint32 failed''"

definition napi_unsigned_from :: "'w napi_values \<Rightarrow> nat \<Rightarrow> 'w napi \<Rightarrow> u32 option \<times> 'w napi" where
  "napi_unsigned_from nv v s =
     (case nv_get_double nv v s of
        (Some (Finite result), s') \<Rightarrow>
          (if trunc_rat result \<noteq> result \<or> result < 0 \<or> result > of_nat unsigned_max then None
           else Some (word_of_int \<lfloor>result\<rfloor>), s')
      | (_, s') \<Rightarrow> (None, s'))"

definition napi_string_to :: "'w napi_values \<Rightarrow> bytes \<Rightarrow> ('w napi, nat) action" where
  "napi_string_to nv t = napi_check (nv_create_string nv t) ''napi_create_string_utf8 failed''"

text \<open>
  Strings are read twice: for the size, then into a buffer with room for the terminating NUL,
  which is cut off again. \<open>nv_string_copy\<close> returns how many bytes it copied and the buffer's bytes.
\<close>

definition napi_string_from :: "'w napi_values \<Rightarrow> nat \<Rightarrow> ('w napi, bytes option) action" where
  "napi_string_from nv v =
     act_bind (napi_check (nv_typeof nv v) ''napi_typeof failed during string conversion'') (\<lambda>type.
       if type \<noteq> NapiString then act_return None
       else act_bind (napi_check (nv_string_size nv v) ''napi_get_value_string_utf8 size probe failed'') (\<lambda>size.
         if size = size_max then (\<lambda>s. (Throw (LengthError ''dynabridge N-API string is too large''), s))
         else act_bind (napi_check (nv_string_copy nv v (size + 1)) ''napi_get_value_string_utf8 failed'')
           (\<lambda>(copied, buffer). act_return (Some (take copied buffer)))))"

subsection \<open>What the engine promises about values\<close>

text \<open>
  Numbers are read as doubles; \<open>napi_get_value_string_utf8\<close> counts the bytes of a string without the
  NUL and copies as many as fit before the NUL it writes. UTF-8 text (\<open>utf8\<close>) survives.
\<close>

definition lawful_values :: "(bytes \<Rightarrow> bool) \<Rightarrow> 'w napi_values \<Rightarrow> bool" where
  "lawful_values utf8 nv \<longleftrightarrow>
     (\<forall>v s. fst (nv_get_double nv v s) = nv_number nv v) \<and>
     (\<forall>n s v s'. nv_create_int32 nv n s = (Some v, s') \<longrightarrow> nv_number nv v = Some (Finite (of_int (sint n)))) \<and>
     (\<forall>n s v s'. nv_create_uint32 nv n s = (Some v, s') \<longrightarrow> nv_number nv v = Some (Finite (of_nat (unat n)))) \<and>
     (\<forall>t s v s'. utf8 t \<longrightarrow> nv_create_string nv t s = (Some v, s') \<longrightarrow> nv_text nv v = Some t) \<and>
     (\<forall>v s. fst (nv_typeof nv v s) = Some NapiString \<longleftrightarrow> nv_text nv v \<noteq> None) \<and>
     (\<forall>v s. fst (nv_typeof nv v s) \<noteq> None) \<and>
     (\<forall>v t s. nv_text nv v = Some t \<longrightarrow> fst (nv_string_size nv v s) = Some (length t)) \<and>
     (\<forall>v t n s. nv_text nv v = Some t \<longrightarrow> 0 < n \<longrightarrow>
        (\<exists>rest. fst (nv_string_copy nv v n s) = Some (min (n - 1) (length t), take (n - 1) t @ [0] @ rest)))"

lemma trunc_rat_eq: "trunc_rat x = x \<longleftrightarrow> (\<exists>n. x = of_int n)"
  by (auto simp: trunc_rat_def intro: exI [of _ "\<lfloor>x\<rfloor>"] exI [of _ "\<lceil>x\<rceil>"])

lemma lawful_valuesD:
  assumes "lawful_values utf8 nv"
  shows "fst (nv_get_double nv v s) = nv_number nv v"
    "nv_create_int32 nv n s = (Some v, s') \<Longrightarrow> nv_number nv v = Some (Finite (of_int (sint n)))"
    "nv_create_uint32 nv m s = (Some v, s') \<Longrightarrow> nv_number nv v = Some (Finite (of_nat (unat m)))"
    "utf8 t \<Longrightarrow> nv_create_string nv t s = (Some v, s') \<Longrightarrow> nv_text nv v = Some t"
    "fst (nv_typeof nv v s) = Some NapiString \<longleftrightarrow> nv_text nv v \<noteq> None"
    "fst (nv_typeof nv v s) \<noteq> None"
    "nv_text nv v = Some t \<Longrightarrow> fst (nv_string_size nv v s) = Some (length t)"
    "nv_text nv v = Some t \<Longrightarrow> 0 < k \<Longrightarrow>
      \<exists>rest. fst (nv_string_copy nv v k s) = Some (min (k - 1) (length t), take (k - 1) t @ [0] @ rest)"
proof -
  note l = assms [unfolded lawful_values_def]
  show "fst (nv_get_double nv v s) = nv_number nv v"
    by (rule l [THEN conjunct1, rule_format])
  show "nv_number nv v = Some (Finite (of_int (sint n)))" if "nv_create_int32 nv n s = (Some v, s')" using that
    by (rule l [THEN conjunct2, THEN conjunct1, rule_format])
  show "nv_number nv v = Some (Finite (of_nat (unat m)))" if "nv_create_uint32 nv m s = (Some v, s')" using that
    by (rule l [THEN conjunct2, THEN conjunct2, THEN conjunct1, rule_format])
  show "nv_text nv v = Some t" if "utf8 t" "nv_create_string nv t s = (Some v, s')" using that
    by (rule l [THEN conjunct2, THEN conjunct2, THEN conjunct2, THEN conjunct1, rule_format])
  show "fst (nv_typeof nv v s) = Some NapiString \<longleftrightarrow> nv_text nv v \<noteq> None"
    by (rule l [THEN conjunct2, THEN conjunct2, THEN conjunct2, THEN conjunct2, THEN conjunct1, rule_format])
  show "fst (nv_typeof nv v s) \<noteq> None"
    by (rule l [THEN conjunct2, THEN conjunct2, THEN conjunct2, THEN conjunct2, THEN conjunct2, THEN conjunct1, rule_format])
  show "fst (nv_string_size nv v s) = Some (length t)" if "nv_text nv v = Some t" using that
    by (rule l [THEN conjunct2, THEN conjunct2, THEN conjunct2, THEN conjunct2, THEN conjunct2, THEN conjunct2, THEN conjunct1, rule_format])
  show "\<exists>rest. fst (nv_string_copy nv v k s) = Some (min (k - 1) (length t), take (k - 1) t @ [0] @ rest)" if "nv_text nv v = Some t" "0 < k" using that
    by (rule l [THEN conjunct2, THEN conjunct2, THEN conjunct2, THEN conjunct2, THEN conjunct2, THEN conjunct2, THEN conjunct2, rule_format])
qed

lemma napi_int_from_eq:
  assumes "lawful_values utf8 nv"
  shows "fst (napi_int_from nv v s) =
    (case nv_number nv v of
       Some (Finite x) \<Rightarrow>
         (if trunc_rat x \<noteq> x \<or> x < of_int int_min \<or> x > of_int int_max then None else Some (word_of_int \<lfloor>x\<rfloor>))
     | _ \<Rightarrow> None)"
  using lawful_valuesD(1) [OF assms, of v s]
  by (cases "nv_get_double nv v s"; cases "fst (nv_get_double nv v s)"; cases "the (fst (nv_get_double nv v s))")
    (auto simp: napi_int_from_def)

lemma napi_unsigned_from_eq:
  assumes "lawful_values utf8 nv"
  shows "fst (napi_unsigned_from nv v s) =
    (case nv_number nv v of
       Some (Finite x) \<Rightarrow>
         (if trunc_rat x \<noteq> x \<or> x < 0 \<or> x > of_nat unsigned_max then None else Some (word_of_int \<lfloor>x\<rfloor>))
     | _ \<Rightarrow> None)"
  using lawful_valuesD(1) [OF assms, of v s]
  by (cases "nv_get_double nv v s"; cases "fst (nv_get_double nv v s)"; cases "the (fst (nv_get_double nv v s))")
    (auto simp: napi_unsigned_from_def)

lemma int_from_rat:
  "(if trunc_rat x \<noteq> x \<or> x < of_int int_min \<or> x > of_int int_max then None else Some (word_of_int \<lfloor>x\<rfloor>)) =
     Some (n :: 32 word) \<longleftrightarrow> x = of_int (sint n)"
proof (cases "\<exists>k. x = of_int k")
  case True
  then obtain k where k: "x = of_int k" by blast
  have "trunc_rat x = x" using k trunc_rat_eq by blast
  moreover have "x = of_int (sint n) \<longleftrightarrow> k = sint n" using k by (simp only: of_int_eq_iff)
  ultimately show ?thesis using int_some_iff [of k n] unfolding k by (auto split: if_splits)
next
  case False
  then have "trunc_rat x \<noteq> x" using trunc_rat_eq by blast
  then show ?thesis using False by (auto simp del: of_int_sint)
qed

lemma unsigned_from_rat:
  "(if trunc_rat x \<noteq> x \<or> x < 0 \<or> x > of_nat unsigned_max then None else Some (word_of_int \<lfloor>x\<rfloor>)) =
     Some (n :: u32) \<longleftrightarrow> x = of_nat (unat n)"
proof (cases "\<exists>k. x = of_int k")
  case True
  then obtain k where k: "x = of_int k" by blast
  have "trunc_rat x = x" using k trunc_rat_eq by blast
  moreover have u: "(of_nat (unat n) :: rat) = of_int (uint n)" "(of_nat unsigned_max :: rat) = of_int (int unsigned_max)"
    by simp_all
  have "x = of_nat (unat n) \<longleftrightarrow> k = uint n" "x > of_nat unsigned_max \<longleftrightarrow> k > int unsigned_max"
    unfolding u k of_int_eq_iff of_int_less_iff by (rule refl)+
  ultimately show ?thesis using unsigned_some_iff [of k n] unfolding k by (auto split: if_splits)
next
  case False
  then have "trunc_rat x \<noteq> x" using trunc_rat_eq by blast
  moreover have "x \<noteq> of_nat m" for m using False by (metis of_int_of_nat_eq)
  ultimately show ?thesis by (auto simp del: of_nat_unat)
qed

lemma napi_string_from_eq:
  assumes "lawful_values utf8 nv" "nv_text nv v = Some t" "length t < size_max"
  shows "fst (napi_string_from nv v s) = Return (Some t)"
proof -
  obtain s1 where 1: "nv_typeof nv v s = (Some NapiString, s1)"
    using lawful_valuesD(5) [OF assms(1), of v s] assms(2) by (cases "nv_typeof nv v s") auto
  obtain s2 where 2: "nv_string_size nv v s1 = (Some (length t), s2)"
    using lawful_valuesD(7) [OF assms(1,2), of s1] by (cases "nv_string_size nv v s1") auto
  obtain s3 rest where 3: "nv_string_copy nv v (length t + 1) s2 = (Some (length t, t @ [0] @ rest), s3)"
    using lawful_valuesD(8) [OF assms(1,2), of "length t + 1" s2] by (cases "nv_string_copy nv v (length t + 1) s2") auto
  show ?thesis
    using assms(3) 1 2 3 by (simp add: napi_string_from_def act_bind_def napi_check_def act_return_def)
qed

lemma napi_string_from_other:
  assumes "lawful_values utf8 nv" "nv_text nv v = None"
  shows "fst (napi_string_from nv v s) = Return None"
proof -
  obtain ty s1 where 1: "nv_typeof nv v s = (Some ty, s1)" "ty \<noteq> NapiString"
    using lawful_valuesD(5,6) [OF assms(1), of v s] assms(2) by (cases "nv_typeof nv v s") auto
  then show ?thesis by (simp add: napi_string_from_def act_bind_def napi_check_def act_return_def)
qed

text \<open>
  JavaScript numbers convert exactly or not at all. A value converts to \<open>int\<close> or \<open>unsigned\<close>
  if and only if it is a finite number with a value of that type, and to that value: fractions,
  infinities, not-a-number and numbers out of range are refused, never rounded or wrapped. An
  integer made from a native one converts back to it.
\<close>

theorem napi_numbers_exact:
  assumes "lawful_values utf8 nv"
  shows "(fst (napi_int_from nv v s) = Some n \<longleftrightarrow> nv_number nv v = Some (Finite (of_int (sint n)))) \<and>
    (fst (napi_unsigned_from nv v s) = Some m \<longleftrightarrow> nv_number nv v = Some (Finite (of_nat (unat m)))) \<and>
    (napi_int_to nv n s = (Return w, s') \<longrightarrow> fst (napi_int_from nv w s') = Some n) \<and>
    (napi_unsigned_to nv m s = (Return w, s') \<longrightarrow> fst (napi_unsigned_from nv w s') = Some m)"
proof -
  have int: "fst (napi_int_from nv v s) = Some n \<longleftrightarrow> nv_number nv v = Some (Finite (of_int (sint n)))" for v s n
    unfolding napi_int_from_eq [OF assms]
    by (cases "nv_number nv v"; cases "the (nv_number nv v)")
      (simp_all only: option.case js_number.case option.sel option.inject js_number.inject int_from_rat
        option.distinct js_number.distinct simp_thms)
  have uns: "fst (napi_unsigned_from nv v s) = Some m \<longleftrightarrow> nv_number nv v = Some (Finite (of_nat (unat m)))" for v s m
    unfolding napi_unsigned_from_eq [OF assms]
    by (cases "nv_number nv v"; cases "the (nv_number nv v)")
      (simp_all only: option.case js_number.case option.sel option.inject js_number.inject unsigned_from_rat
        option.distinct js_number.distinct simp_thms)
  show ?thesis
    using int uns lawful_valuesD(2,3) [OF assms]
    by (auto simp del: of_int_sint of_nat_unat simp: napi_int_to_def napi_unsigned_to_def napi_check_def split: option.splits prod.splits)
qed

text \<open>
  Strings cross to JavaScript and back unchanged, embedded NUL bytes included, and the reader's
  buffer is neither too small nor leaves its terminator in the result; a value that is not a
  string is refused.
\<close>

theorem napi_strings_roundtrip:
  assumes "lawful_values utf8 nv" "utf8 t" "length t < size_max"
  shows "(napi_string_to nv t s = (Return v, s') \<longrightarrow> fst (napi_string_from nv v s') = Return (Some t)) \<and>
    (nv_text nv x = None \<longrightarrow> fst (napi_string_from nv x s) = Return None)"
proof -
  have "nv_text nv v = Some t" if "napi_string_to nv t s = (Return v, s')"
    using that lawful_valuesD(4) [OF assms(1,2)]
    by (auto simp: napi_string_to_def napi_check_def split: option.splits prod.splits)
  then show ?thesis using napi_string_from_eq [OF assms(1) _ assms(3)] napi_string_from_other [OF assms(1)] by blast
qed

text \<open>Values: 0 is -5, 1 the largest unsigned integer, 2 a string with a NUL byte in it, 3 one half.\<close>

definition sample_text :: bytes where
  "sample_text = [104, 0, 105]"

definition sample_values :: "nat napi_values" where
  "sample_values =
     \<lparr>nv_number = (\<lambda>v. if v = 0 then Some (Finite (- 5)) else if v = 1 then Some (Finite 4294967295)
                    else if v = 3 then Some (Finite (1 / 2)) else None),
      nv_text = (\<lambda>v. if v = 2 then Some sample_text else None),
      nv_typeof = (\<lambda>v s. (Some (if v = 2 then NapiString else NapiOther), s)),
      nv_get_double = (\<lambda>v s. (if v = 0 then Some (Finite (- 5)) else if v = 1 then Some (Finite 4294967295)
                    else if v = 3 then Some (Finite (1 / 2)) else None, s)),
      nv_create_int32 = (\<lambda>n s. (if n = - 5 then Some 0 else None, s)),
      nv_create_uint32 = (\<lambda>n s. (if n = 4294967295 then Some 1 else None, s)),
      nv_create_string = (\<lambda>t s. (if t = sample_text then Some 2 else None, s)),
      nv_string_size = (\<lambda>v s. (Some 3, s)),
      nv_string_copy = (\<lambda>v n s. (Some (min (n - 1) 3, take (n - 1) sample_text @ [0]), s))\<rparr>"

lemma sample_values_lawful: "lawful_values (\<lambda>t. True) sample_values"
proof -
  have "(of_int (sint (- 5 :: 32 word)) :: rat) = - 5" "(of_nat (unat (4294967295 :: u32)) :: rat) = 4294967295"
    by simp_all
  then show ?thesis
    by (auto simp: lawful_values_def sample_values_def sample_text_def simp del: of_int_sint of_nat_unat split: if_splits)
qed

theorem napi_numbers_exact_witness:
  "fst (napi_int_from sample_values 0 (sample_env {#})) = Some (- 5) \<and>
   fst (napi_unsigned_from sample_values 1 (sample_env {#})) = Some 4294967295 \<and>
   fst (napi_int_from sample_values 1 (sample_env {#})) = None \<and>
   fst (napi_int_from sample_values 3 (sample_env {#})) \<noteq> Some 0"
proof -
  note n = napi_numbers_exact [OF sample_values_lawful, of _ "sample_env {#}"]
  have i: "(of_int (sint (- 5 :: 32 word)) :: rat) = - 5" "(of_nat (unat (4294967295 :: u32)) :: rat) = 4294967295"
    by simp_all
  have "fst (napi_int_from sample_values 1 (sample_env {#})) = None"
    by (simp add: napi_int_from_def sample_values_def int_max_def)
  then show ?thesis
    using n [of 0 "- 5" 0 0] n [of 1 0 4294967295 0] n [of 3 0 0 0] i
    by (simp add: sample_values_def del: of_int_sint of_nat_unat)
qed

theorem napi_strings_roundtrip_witness:
  "fst (napi_string_from sample_values 2 (sample_env {#})) = Return (Some [104, 0, 105]) \<and>
   fst (napi_string_from sample_values 3 (sample_env {#})) = Return None"
  using napi_strings_roundtrip [OF sample_values_lawful, of sample_text "sample_env {#}" 2 "sample_env {#}" 3]
  by (simp add: napi_string_to_def napi_check_def sample_values_def size_max_def) (simp add: sample_text_def)

end
