(* ===== verification/NapiTags.thy ===== *)
theory NapiTags
  imports NapiClass
begin

section \<open>Type tags: a receiver has the class it is bound as\<close>

text \<open>
  \<open>checked_unwrap_export_object\<close> turns a JavaScript object into a pointer to a native class. It is
  sound when every object that carries the class's type tag wraps a receiver of that class. This
  theory proves that for programs in which only this library wraps objects, and shows what a
  second addon can do (\<open>dynabridge/backends/napi.h\<close>).
\<close>

text \<open>
  What Node-API documents about tags and wraps, read off the engine's state by \<open>tag\<close> and \<open>wrap\<close>:
  an object is tagged once and wrapped once, and a failing or unrelated call changes neither.
\<close>

definition same_view :: "('w napi \<Rightarrow> nat \<Rightarrow> nat option) \<Rightarrow> ('w napi \<Rightarrow> nat \<Rightarrow> nat option) \<Rightarrow> 'w napi \<Rightarrow> 'w napi \<Rightarrow> bool" where
  "same_view tag wrap s t \<longleftrightarrow> tag t = tag s \<and> wrap t = wrap s"

definition tag_laws ::
    "'w napi_api \<Rightarrow> ('w napi \<Rightarrow> nat \<Rightarrow> nat option) \<Rightarrow> ('w napi \<Rightarrow> nat \<Rightarrow> nat option) \<Rightarrow> bool" where
  "tag_laws api tag wrap \<longleftrightarrow>
     (\<forall>env x k s t. api_type_tag api env (Some x) k s = (Some (), t) \<longrightarrow>
        tag s x = None \<and> tag t = (tag s)(x \<mapsto> k) \<and> wrap t = wrap s) \<and>
     (\<forall>env x k s t. api_type_tag api env (Some x) k s = (None, t) \<longrightarrow> same_view tag wrap s t) \<and>
     (\<forall>env x p s t. api_wrap api env (Some x) p s = (Some (), t) \<longrightarrow>
        wrap s x = None \<and> wrap t = (wrap s)(x \<mapsto> p) \<and> tag t = tag s) \<and>
     (\<forall>env x p s t. api_wrap api env (Some x) p s = (None, t) \<longrightarrow> same_view tag wrap s t) \<and>
     (\<forall>env x k s b t. api_check_tag api env x k s = (b, t) \<longrightarrow>
        same_view tag wrap s t \<and> (b = Some True \<longrightarrow> tag s x = Some k)) \<and>
     (\<forall>env x s p t. api_unwrap api env (Some x) s = (Some (Some p), t) \<longrightarrow> wrap s x = Some p) \<and>
     (\<forall>env v s r t. api_create_reference api env v s = (r, t) \<longrightarrow> same_view tag wrap s t) \<and>
     (\<forall>env r s. same_view tag wrap s (api_delete_reference api env r s)) \<and>
     (\<forall>s t. na_world s = na_world t \<longrightarrow> same_view tag wrap s t)"

lemma tag_lawsD:
  assumes "tag_laws api tag wrap"
  shows "api_type_tag api env (Some x) k s = (Some (), t) \<Longrightarrow>
      tag s x = None \<and> tag t = (tag s)(x \<mapsto> k) \<and> wrap t = wrap s"
    "api_type_tag api env (Some x) k s = (None, t) \<Longrightarrow> same_view tag wrap s t"
    "api_wrap api env (Some x) p s = (Some (), t) \<Longrightarrow>
      wrap s x = None \<and> wrap t = (wrap s)(x \<mapsto> p) \<and> tag t = tag s"
    "api_wrap api env (Some x) p s = (None, t) \<Longrightarrow> same_view tag wrap s t"
    "api_check_tag api env x k s = (b, t) \<Longrightarrow> same_view tag wrap s t \<and> (b = Some True \<longrightarrow> tag s x = Some k)"
    "api_unwrap api env (Some x) s = (Some (Some p), t) \<Longrightarrow> wrap s x = Some p"
    "api_create_reference api env v s = (r, t) \<Longrightarrow> same_view tag wrap s t"
    "same_view tag wrap s (api_delete_reference api env q s)"
    "na_world s = na_world t \<Longrightarrow> same_view tag wrap s t"
proof -
  note l = assms [unfolded tag_laws_def]
  show "tag s x = None \<and> tag t = (tag s)(x \<mapsto> k) \<and> wrap t = wrap s" if "api_type_tag api env (Some x) k s = (Some (), t)" using that l [THEN conjunct1] by blast
  show "same_view tag wrap s t" if "api_type_tag api env (Some x) k s = (None, t)" using that l [THEN conjunct2, THEN conjunct1] by blast
  show "wrap s x = None \<and> wrap t = (wrap s)(x \<mapsto> p) \<and> tag t = tag s" if "api_wrap api env (Some x) p s = (Some (), t)" using that l [THEN conjunct2, THEN conjunct2, THEN conjunct1] by blast
  show "same_view tag wrap s t" if "api_wrap api env (Some x) p s = (None, t)" using that l [THEN conjunct2, THEN conjunct2, THEN conjunct2, THEN conjunct1] by blast
  show "same_view tag wrap s t \<and> (b = Some True \<longrightarrow> tag s x = Some k)" if "api_check_tag api env x k s = (b, t)" using that l [THEN conjunct2, THEN conjunct2, THEN conjunct2, THEN conjunct2, THEN conjunct1] by blast
  show "wrap s x = Some p" if "api_unwrap api env (Some x) s = (Some (Some p), t)" using that l [THEN conjunct2, THEN conjunct2, THEN conjunct2, THEN conjunct2, THEN conjunct2, THEN conjunct1] by blast
  show "same_view tag wrap s t" if "api_create_reference api env v s = (r, t)" using that l [THEN conjunct2, THEN conjunct2, THEN conjunct2, THEN conjunct2, THEN conjunct2, THEN conjunct2, THEN conjunct1] by blast
  show "same_view tag wrap s (api_delete_reference api env q s)"
    using l [THEN conjunct2, THEN conjunct2, THEN conjunct2, THEN conjunct2, THEN conjunct2, THEN conjunct2, THEN conjunct2, THEN conjunct1] by blast
  show "same_view tag wrap s t" if "na_world s = na_world t" using that l [THEN conjunct2, THEN conjunct2, THEN conjunct2, THEN conjunct2, THEN conjunct2, THEN conjunct2, THEN conjunct2, THEN conjunct2] by blast
qed

subsection \<open>Objects through their lives\<close>

text \<open>
  What a JavaScript program can do: construct a receiver \<open>p\<close> of a class \<open>k\<close> on any object \<open>x\<close>, also
  on one that exists (\<open>C.call(x)\<close>), with whatever outcome; destroy a handle; run code that
  changes no tag and no wrap; and, when another addon is loaded (\<open>foreign\<close>), have that addon wrap
  an unwrapped object with a pointer of its own. \<open>cls\<close> is the class of a receiver.
\<close>

inductive tag_step ::
    "'w napi_api \<Rightarrow> ('w napi \<Rightarrow> nat \<Rightarrow> nat option) \<Rightarrow> ('w napi \<Rightarrow> nat \<Rightarrow> nat option) \<Rightarrow> (nat \<Rightarrow> nat option) \<Rightarrow> bool \<Rightarrow>
     'w napi \<Rightarrow> 'w napi \<Rightarrow> bool"
  for api tag wrap cls foreign where
  tag_construct: "cls p = Some k \<Longrightarrow>
    tag_step api tag wrap cls foreign s (snd (construct_from_native api env True k (Some x) p s))"
| tag_destroy: "tag_step api tag wrap cls foreign s (object_destroy api ob s)"
| tag_other: "same_view tag wrap s t \<Longrightarrow> tag_step api tag wrap cls foreign s t"
| tag_foreign: "foreign \<Longrightarrow> wrap s x = None \<Longrightarrow> cls q = None \<Longrightarrow> tag t = tag s \<Longrightarrow> wrap t = (wrap s)(x \<mapsto> q) \<Longrightarrow>
    tag_step api tag wrap cls foreign s t"

text \<open>Nothing is wrapped without its tag, and what is wrapped has the class of the tag.\<close>

definition tags_ok ::
    "('w napi \<Rightarrow> nat \<Rightarrow> nat option) \<Rightarrow> ('w napi \<Rightarrow> nat \<Rightarrow> nat option) \<Rightarrow> (nat \<Rightarrow> nat option) \<Rightarrow> 'w napi \<Rightarrow> bool" where
  "tags_ok tag wrap cls s \<longleftrightarrow> (\<forall>x p. wrap s x = Some p \<longrightarrow> tag s x \<noteq> None \<and> cls p = tag s x)"

definition nothing_wrapped :: "('w napi \<Rightarrow> nat \<Rightarrow> nat option) \<Rightarrow> 'w napi \<Rightarrow> bool" where
  "nothing_wrapped wrap s \<longleftrightarrow> wrap s = (\<lambda>x. None)"

lemma same_viewD: "same_view tag wrap s t \<Longrightarrow> tag t = tag s \<and> wrap t = wrap s"
  by (simp add: same_view_def)

lemma destroy_view:
  assumes "tag_laws api tag wrap"
  shows "same_view tag wrap s (object_destroy api ob s)"
proof (cases "ob_ref ob")
  case None
  then show ?thesis by (simp add: object_destroy_def object_reset_def same_view_def)
next
  case (Some r)
  have "same_view tag wrap s (na_give (Reference r) s)"
    by (rule tag_lawsD(9) [OF assms]) (simp add: na_give_def)
  with tag_lawsD(8) [OF assms, of "na_give (Reference r) s" "ob_env ob" r] Some show ?thesis
    by (simp add: object_destroy_def object_reset_def napi_delete_reference_def same_view_def)
qed

lemma give_view: "tag_laws api tag wrap \<Longrightarrow> same_view tag wrap s (na_give x s)"
  by (rule tag_lawsD(9)) (simp_all add: na_give_def)

lemma reset_to_view:
  assumes "tag_laws api tag wrap"
  shows "same_view tag wrap s (snd (object_reset_to api env (Some v) object_empty s))"
proof -
  obtain r t where c: "api_create_reference api env v s = (r, t)" by fastforce
  have t: "same_view tag wrap s t" by (rule tag_lawsD(7) [OF assms c])
  have "same_view tag wrap t (na_own (Reference q) t)" for q
    by (rule tag_lawsD(9) [OF assms]) (simp add: na_own_def)
  then show ?thesis
    using c t by (cases r) (simp_all add: object_reset_to_def object_reset_def object_empty_def act_bind_def
        napi_check_def napi_create_reference_def act_return_def same_view_def)
qed

text \<open>Construction on an object: refused, tagged only, or tagged and wrapped.\<close>

lemma construct_view:
  assumes "tag_laws api tag wrap" "t = snd (construct_from_native api env True k (Some x) p s)"
  shows "same_view tag wrap s t \<or>
    tag s x = None \<and> tag t = (tag s)(x \<mapsto> k) \<and>
      (wrap t = wrap s \<or> wrap s x = None \<and> wrap t = (wrap s)(x \<mapsto> p))"
proof -
  obtain a s1 where a: "api_type_tag api env (Some x) k s = (a, s1)" by fastforce
  show ?thesis
  proof (cases a)
    case None
    then have "same_view tag wrap s s1" using tag_lawsD(2) [OF assms(1)] a by blast
    then show ?thesis
      using a None assms(2) give_view [OF assms(1), of s1 "Receiver p"]
      by (simp add: construct_from_native_def destroy_native_def same_view_def)
  next
    case (Some u)
    then have s1: "tag s x = None" "tag s1 = (tag s)(x \<mapsto> k)" "wrap s1 = wrap s"
      using tag_lawsD(1) [OF assms(1)] a by auto
    obtain b s2 where b: "api_wrap api env (Some x) p s1 = (b, s2)" by fastforce
    show ?thesis
    proof (cases b)
      case None
      then have "same_view tag wrap s1 s2" using tag_lawsD(4) [OF assms(1)] b by blast
      then show ?thesis
        using a b None Some assms(2) s1 give_view [OF assms(1), of s2 "Receiver p"]
        by (simp add: construct_from_native_def wrap_native_def destroy_native_def same_view_def)
    next
      case (Some w)
      then have "wrap s1 x = None" "wrap s2 = (wrap s1)(x \<mapsto> p)" "tag s2 = tag s1"
        using tag_lawsD(3) [OF assms(1)] b by auto
      moreover have "same_view tag wrap s2 (na_give (Receiver p) s2)" by (rule give_view [OF assms(1)])
      moreover have "t = snd (object_reset_to api env (Some x) object_empty (na_give (Receiver p) s2))"
        using a b Some \<open>a = Some u\<close> assms(2) by (simp add: construct_from_native_def wrap_native_def)
      ultimately show ?thesis
        using s1 reset_to_view [OF assms(1), of "na_give (Receiver p) s2" env x] by (simp add: same_view_def)
    qed
  qed
qed

lemma tags_ok_construct:
  assumes "tags_ok tag wrap cls s" "cls p = Some k"
    and "same_view tag wrap s t \<or>
      tag s x = None \<and> tag t = (tag s)(x \<mapsto> k) \<and>
        (wrap t = wrap s \<or> wrap s x = None \<and> wrap t = (wrap s)(x \<mapsto> p))"
  shows "tags_ok tag wrap cls t"
proof -
  have u: "wrap s x = None" if "tag s x = None"
    using assms(1) that unfolding tags_ok_def by (metis not_Some_eq)
  show ?thesis
    unfolding tags_ok_def
  proof (intro allI impI)
    fix y q assume q: "wrap t y = Some q"
    show "tag t y \<noteq> None \<and> cls q = tag t y"
    proof (cases "y = x")
      case True
      then show ?thesis using q assms u by (auto simp: tags_ok_def same_view_def)
    next
      case False
      then show ?thesis using q assms by (auto simp: tags_ok_def same_view_def)
    qed
  qed
qed

lemma tags_ok_step:
  assumes "tag_laws api tag wrap" "tags_ok tag wrap cls s" "tag_step api tag wrap cls False s t"
  shows "tags_ok tag wrap cls t"
  using assms(3)
proof (cases rule: tag_step.cases)
  case (tag_construct p k env x)
  then show ?thesis
    using tags_ok_construct [OF assms(2) tag_construct(2) construct_view [OF assms(1) tag_construct(1)]] by simp
next
  case (tag_destroy ob)
  then show ?thesis using destroy_view [OF assms(1), of s ob] assms(2) by (simp add: tags_ok_def same_view_def)
next
  case tag_other
  then show ?thesis using assms(2) by (simp add: tags_ok_def same_view_def)
qed simp

lemma tags_ok_start: "nothing_wrapped wrap s \<Longrightarrow> tags_ok tag wrap cls s"
  by (simp add: nothing_wrapped_def tags_ok_def)

interpretation library_tags: invariant_machine
    "\<lambda>s. tag_laws api tag wrap \<and> nothing_wrapped wrap s"
    "\<lambda>s t. tag_laws api tag wrap \<and> tag_step api tag wrap cls False s t" "tags_ok tag wrap cls"
  by unfold_locales (blast intro: tags_ok_start tags_ok_step)+


text \<open>An engine with tags and wraps, for examples: they are its whole state.\<close>

type_synonym tag_world = "(nat \<Rightarrow> nat option) \<times> (nat \<Rightarrow> nat option)"

definition engine_tag :: "tag_world napi \<Rightarrow> nat \<Rightarrow> nat option" where
  "engine_tag s = fst (na_world s)"

definition engine_wrap :: "tag_world napi \<Rightarrow> nat \<Rightarrow> nat option" where
  "engine_wrap s = snd (na_world s)"

definition tag_engine :: "tag_world napi_api" where
  "tag_engine =
     \<lparr>api_create_reference = (\<lambda>env v s. (Some 3, s)), api_delete_reference = (\<lambda>env r s. s),
      api_reference_value = (\<lambda>env r s. (Some (Some 9), s)), api_undefined = (\<lambda>env s. (Some 0, s)),
      api_get_property = (\<lambda>env x n s. (Some 9, s)), api_set_property = (\<lambda>env x n v s. (Some (), s)),
      api_typeof = (\<lambda>env v s. (Some NapiOther, s)), api_call_function = (\<lambda>env this f args s. (Some 8, s)),
      api_new_instance = (\<lambda>env f args cb s. (Some 9, s)),
      api_unwrap = (\<lambda>env v s. (map_option Some (Option.bind v (engine_wrap s)), s)),
      api_type_tag = (\<lambda>env v k s. case v of None \<Rightarrow> (None, s) | Some x \<Rightarrow>
        if engine_tag s x \<noteq> None then (None, s)
        else (Some (), s\<lparr>na_world := ((engine_tag s)(x \<mapsto> k), engine_wrap s)\<rparr>)),
      api_check_tag = (\<lambda>env x k s. (Some (engine_tag s x = Some k), s)),
      api_instanceof = (\<lambda>env v f s. (Some True, s)),
      api_wrap = (\<lambda>env v p s. case v of None \<Rightarrow> (None, s) | Some x \<Rightarrow>
        if engine_wrap s x \<noteq> None then (None, s)
        else (Some (), s\<lparr>na_world := (engine_tag s, (engine_wrap s)(x \<mapsto> p))\<rparr>)),
      api_create_external = (\<lambda>env p s. (Some p, s)), api_external_value = (\<lambda>env v s. (None, s)),
      api_create_function = (\<lambda>env n h s. (Some 9, s)), api_define_class = (\<lambda>env n h s. (Some 9, s)),
      api_add_finalizer = (\<lambda>env v h s. (Some (), s)), api_add_cleanup_hook = (\<lambda>env r s. (Some (), s)),
      api_create_object = (\<lambda>env s. (Some 9, s)), api_throw_error = (\<lambda>env m s. s\<lparr>na_pending := True\<rparr>)\<rparr>"

lemma tag_engine_laws: "tag_laws tag_engine engine_tag engine_wrap"
  by (auto simp: tag_laws_def tag_engine_def same_view_def engine_tag_def engine_wrap_def
      split: if_splits option.splits)

definition engine_start :: "(nat \<Rightarrow> nat option) \<Rightarrow> tag_world napi" where
  "engine_start wraps =
     \<lparr>na_held = {#Receiver 20#}, na_pending = False, na_fault = False, na_handoffs = (\<lambda>a. None),
      na_world = (\<lambda>x. None, wraps)\<rparr>"

text \<open>A receiver at address 20 of the class 77, constructed on the object 5.\<close>

definition sample_cls :: "nat \<Rightarrow> nat option" where
  "sample_cls p = (if p = 20 then Some 77 else None)"

definition construct_on_5 :: "(nat \<Rightarrow> nat option) \<Rightarrow> tag_world napi" where
  "construct_on_5 wraps = snd (construct_from_native tag_engine (Some 1) True 77 (Some 5) 20 (engine_start wraps))"

lemmas tag_engine_defs = construct_on_5_def construct_from_native_def wrap_native_def tag_engine_def engine_start_def
  engine_tag_def engine_wrap_def checked_unwrap_def act_bind_def act_return_def object_reset_to_def
  object_reset_def object_empty_def napi_check_def napi_create_reference_def na_own_def na_give_def
  destroy_native_def


text \<open>
  With another addon loaded this fails. An object is tagged before it is wrapped, and when
  \<open>napi_wrap\<close> fails because another addon wrapped the object first, the tag stays. The object then
  passes for one of the exported class, and a member call on it uses the other addon's pointer as
  a pointer to that class.
\<close>

theorem napi_failed_wrap_leaves_tag:
  "\<exists>cls s. tag_laws tag_engine engine_tag engine_wrap \<and>
     (tag_step tag_engine engine_tag engine_wrap cls True)\<^sup>*\<^sup>* (engine_start (\<lambda>x. None)) s \<and>
     fst (checked_unwrap tag_engine (Some 1) True 77 Abort (Some 5) s) = Return (Some 99) \<and> cls 99 = None"
proof -
  let ?w = "(\<lambda>x. None)(5 \<mapsto> 99) :: nat \<Rightarrow> nat option"
  let ?step = "tag_step tag_engine engine_tag engine_wrap sample_cls True"
  have "?step (engine_start (\<lambda>x. None)) (engine_start ?w)"
    by (rule tag_foreign [where x = 5 and q = 99]) (simp_all add: engine_start_def engine_wrap_def engine_tag_def sample_cls_def)
  moreover have "?step (engine_start ?w) (construct_on_5 ?w)"
    unfolding construct_on_5_def by (rule tag_construct) (simp add: sample_cls_def)
  ultimately have "?step\<^sup>*\<^sup>* (engine_start (\<lambda>x. None)) (construct_on_5 ?w)"
    by (rule rtranclp.rtrancl_into_rtrancl [OF r_into_rtranclp])
  moreover have "fst (checked_unwrap tag_engine (Some 1) True 77 Abort (Some 5) (construct_on_5 ?w)) = Return (Some 99)"
    by (simp add: tag_engine_defs)
  ultimately show ?thesis using tag_engine_laws by (intro exI [of _ sample_cls] exI [of _ "construct_on_5 ?w"]) (simp add: sample_cls_def)
qed

end
