(* ===== verification/Schema.thy ===== *)
theory Schema
  imports Prelude
begin

section \<open>Schemas\<close>

text \<open>
  What the library computes from a declaration table while a program is compiled: lists of types
  (\<open>dynabridge/type_list.h\<close>), contracts and their limits (\<open>callable.h\<close>, \<open>traits.h\<close>,
  \<open>async_import.h\<close>) and the methods of interfaces and classes (\<open>interface.h\<close>). A template that
  computes a type or a constant is a function; a failing \<open>static_assert\<close> is an error value.
\<close>

subsection \<open>Type lists\<close>

definition type_list_size :: "'t list \<Rightarrow> nat" where
  "type_list_size ts = length ts"

definition element_at :: "nat \<Rightarrow> 't list \<Rightarrow> 't option" where
  "element_at i ts = (if i < type_list_size ts then Some (ts ! i) else None)"

definition prepend :: "'t \<Rightarrow> 't list \<Rightarrow> 't list" where
  "prepend t ts = t # ts"

text \<open>\<open>concat\<close> joins its first two lists until one is left.\<close>

fun concat_types :: "'t list list \<Rightarrow> 't list" where
  "concat_types [] = []"
| "concat_types [ts] = ts"
| "concat_types (left # right # tail) = concat_types ((left @ right) # tail)"

lemma concat_types_eq [simp]: "concat_types tss = concat tss"
  by (induction tss rule: concat_types.induct) simp_all

subsection \<open>Types and contracts\<close>

text \<open>The C++ types a signature mentions, as far as the library inspects them.\<close>

datatype ctype =
    Named bytes
  | ConstType ctype
  | LvalueRef ctype
  | RvalueRef ctype
  | UnmatchedCallable

fun is_reference :: "ctype \<Rightarrow> bool" where
  "is_reference (LvalueRef t) = True"
| "is_reference (RvalueRef t) = True"
| "is_reference _ = False"

fun is_lvalue_reference :: "ctype \<Rightarrow> bool" where
  "is_lvalue_reference (LvalueRef t) = True"
| "is_lvalue_reference _ = False"

fun remove_reference :: "ctype \<Rightarrow> ctype" where
  "remove_reference (LvalueRef t) = t"
| "remove_reference (RvalueRef t) = t"
| "remove_reference t = t"

fun is_const :: "ctype \<Rightarrow> bool" where
  "is_const (ConstType t) = True"
| "is_const _ = False"

definition is_bad_bridge_param :: "ctype \<Rightarrow> bool" where
  "is_bad_bridge_param t \<longleftrightarrow> is_lvalue_reference t \<and> \<not> is_const (remove_reference t)"

definition are_bridge_params_valid :: "ctype list \<Rightarrow> bool" where
  "are_bridge_params_valid ts \<longleftrightarrow> \<not> list_ex is_bad_bridge_param ts"

text \<open>The check of asynchronous calls is its own recursion.\<close>

fun safe_signature :: "ctype list \<Rightarrow> bool" where
  "safe_signature [] = True"
| "safe_signature (a # rest) =
     ((\<not> is_lvalue_reference a \<or> is_const (remove_reference a)) \<and> safe_signature rest)"

record signature =
  sg_result :: ctype
  sg_params :: "ctype list"

definition unmatched_signature :: signature where
  "unmatched_signature = \<lparr>sg_result = UnmatchedCallable, sg_params = [UnmatchedCallable]\<rparr>"

datatype contract_error = ReferenceResult | WritableReferenceParameter

text \<open>\<open>callable<Receiver, R(Args...)>\<close>, and \<open>contract_result\<close> for an asynchronous call.\<close>

definition callable_errors :: "signature \<Rightarrow> contract_error list" where
  "callable_errors sg =
     (if is_reference (sg_result sg) then [ReferenceResult] else []) @
     (if \<not> are_bridge_params_valid (sg_params sg) then [WritableReferenceParameter] else [])"

definition contract_result :: "signature \<Rightarrow> contract_error list + ctype" where
  "contract_result sg =
     (let errors =
        (if is_reference (sg_result sg) then [ReferenceResult] else []) @
        (if \<not> safe_signature (sg_params sg) then [WritableReferenceParameter] else [])
      in if errors = [] then Inr (sg_result sg) else Inl errors)"

definition signature_arity :: "signature \<Rightarrow> nat" where
  "signature_arity sg = length (sg_params sg)"

fun max_callable_arity :: "signature list \<Rightarrow> nat" where
  "max_callable_arity [] = 0"
| "max_callable_arity (head # tail) =
     (if signature_arity head > max_callable_arity tail then signature_arity head
      else max_callable_arity tail)"

text \<open>
  A group inherits from each of its contracts; a signature is declared when its contract is a
  base.
\<close>

fun is_declared_free_callable :: "signature \<Rightarrow> signature list \<Rightarrow> bool" where
  "is_declared_free_callable sg [] = False"
| "is_declared_free_callable sg (head # tail) = (sg = head \<or> is_declared_free_callable sg tail)"

lemma declared_iff [simp]: "is_declared_free_callable sg sgs \<longleftrightarrow> sg \<in> set sgs"
  by (induction sgs) auto

lemma safe_signature_iff: "safe_signature ts \<longleftrightarrow> are_bridge_params_valid ts"
  by (induction ts) (auto simp: are_bridge_params_valid_def is_bad_bridge_param_def)

lemma max_callable_arity_Max:
  "max_callable_arity sgs = Max (insert 0 (signature_arity ` set sgs))"
proof (induction sgs)
  case (Cons sg sgs)
  have "insert 0 (signature_arity ` set (sg # sgs)) = insert (signature_arity sg) (insert 0 (signature_arity ` set sgs))"
    by auto
  then have "Max (insert 0 (signature_arity ` set (sg # sgs))) = max (signature_arity sg) (max_callable_arity sgs)"
    unfolding Cons using Max_insert [of "insert 0 (signature_arity ` set sgs)" "signature_arity sg"] by simp
  then show ?case by simp
qed simp

lemma signature_arity_le_max: "sg \<in> set sgs \<Longrightarrow> signature_arity sg \<le> max_callable_arity sgs"
  by (simp add: max_callable_arity_Max)

subsection \<open>Methods by declaration index\<close>

text \<open>
  A member of a type list of methods is a symbol with a name, or \<open>void\<close>. A descriptor knows its
  methods by their index, which is the source line the method was declared on.
\<close>

type_synonym method_symbol = "bytes option"

record descriptor =
  begin_index :: u64
  end_index :: u64
  method_name_at :: "u64 \<Rightarrow> method_symbol option"

definition method_at_index :: "descriptor \<Rightarrow> u64 \<Rightarrow> method_symbol list" where
  "method_at_index d i = (case method_name_at d i of None \<Rightarrow> [] | Some m \<Rightarrow> [m])"

lemma middle_bounds:
  fixes b e :: u64
  assumes "b < e" "b + 1 < e"
  shows "b < b + (e - b) div 2" "b + (e - b) div 2 < e"
    "unat (b + (e - b) div 2) = unat b + (unat e - unat b) div 2"
proof -
  have lt: "unat b < unat e" using assms(1) by (simp add: word_less_nat_alt)
  have max: "unat e < 2 ^ 64" using unsigned_less [of e] by simp
  have "unat (b + 1) = unat b + 1"
    using lt max by (simp add: unat_word_ariths)
  then have two: "unat b + 1 < unat e" using assms(2) by (simp add: word_less_nat_alt)
  have d: "unat ((e - b) div 2) = (unat e - unat b) div 2"
    using assms(1) by (simp add: unat_div unat_sub less_imp_le)
  have "unat b + unat ((e - b) div 2) < 2 ^ LENGTH(64)"
    unfolding d using lt max by simp
  from unat_add_lem [THEN iffD1, OF this]
  show u: "unat (b + (e - b) div 2) = unat b + (unat e - unat b) div 2"
    unfolding d .
  show "b < b + (e - b) div 2" "b + (e - b) div 2 < e"
    unfolding word_less_nat_alt u using two by arith+
qed

function names_in_range :: "descriptor \<Rightarrow> u64 \<Rightarrow> u64 \<Rightarrow> method_symbol list" where
  "names_in_range d b e =
     (if b \<ge> e then []
      else if b + 1 \<ge> e then method_at_index d b
      else let middle = b + (e - b) div 2
        in concat_types [names_in_range d b middle, names_in_range d middle e])"
  by pat_completeness auto
termination
proof (relation "measure (\<lambda>(d, b, e). unat e - unat b)", goal_cases)
  case 1
  then show ?case by simp
next
  case (2 d b e m)
  then have "m < e" "b < m" using middle_bounds [of b e] by auto
  then show ?case by (auto simp: word_less_nat_alt)
next
  case (3 d b e m)
  then have "m < e" "b < m" using middle_bounds [of b e] by auto
  then show ?case by (auto simp: word_less_nat_alt)
qed

declare names_in_range.simps [simp del]

definition method_names_in_range :: "descriptor \<Rightarrow> u64 \<Rightarrow> u64 \<Rightarrow> method_symbol list" where
  "method_names_in_range d b e = names_in_range d (b + 1) e"

text \<open>The balanced scan visits every index of the range once, in order.\<close>

definition declared_between :: "descriptor \<Rightarrow> nat \<Rightarrow> nat \<Rightarrow> method_symbol list" where
  "declared_between d b e = List.map_filter (\<lambda>i. method_name_at d (of_nat i)) [b..<e]"

lemma declared_between_split:
  "b \<le> m \<Longrightarrow> m \<le> e \<Longrightarrow> declared_between d b e = declared_between d b m @ declared_between d m e"
  using upt_add_eq_append [of b m "e - m"] by (simp add: declared_between_def map_filter_def)

lemma names_in_range_eq: "names_in_range d b e = declared_between d (unat b) (unat e)"
proof (induction d b e rule: names_in_range.induct)
  case (1 d b e)
  consider (empty) "b \<ge> e" | (single) "b < e" "b + 1 \<ge> e" | (split) "b < e" "b + 1 < e" by fastforce
  then show ?case
  proof cases
    case empty
    then show ?thesis by (simp add: names_in_range.simps [of d b e] declared_between_def word_le_nat_alt map_filter_def)
  next
    case single
    have "unat b < unat e" "unat e < 2 ^ 64" using single(1) unsigned_less [of e] by (simp_all add: word_less_nat_alt)
    moreover from this have "unat (b + 1) = unat b + 1" by (simp add: unat_word_ariths)
    ultimately have "unat e = unat b + 1" using single(2) by (simp add: word_le_nat_alt)
    then show ?thesis using single
      by (auto simp: names_in_range.simps [of d b e] declared_between_def method_at_index_def map_filter_def split: option.split)
  next
    case split
    have "unat b \<le> unat (b + (e - b) div 2)" "unat (b + (e - b) div 2) \<le> unat e"
      using middle_bounds [OF split] by (simp_all add: word_less_nat_alt)
    note declared_between_split [OF this, of d]
    moreover have "\<not> e \<le> b" "\<not> e \<le> b + 1" using split by (simp_all only: not_le)
    ultimately show ?thesis using 1
      by (simp add: names_in_range.simps [of d b e] Let_def)
  qed
qed

subsection \<open>Names\<close>

text \<open>
  \<open>equal_name\<close> walks two C strings; a byte list stands for its bytes with the terminating NUL
  after them.
\<close>

definition char_at :: "bytes \<Rightarrow> byte" where
  "char_at s = (case s of [] \<Rightarrow> 0 | c # _ \<Rightarrow> c)"

function equal_name :: "bytes \<Rightarrow> bytes \<Rightarrow> bool" where
  "equal_name left right =
     (if char_at left = char_at right
      then if char_at left = 0 then True else equal_name (tl left) (tl right) else False)"
  by pat_completeness auto
termination by (relation "measure (\<lambda>(left, right). length left)") (auto simp: char_at_def split: list.splits)

declare equal_name.simps [simp del]

lemma equal_name_iff: "equal_name left right \<longleftrightarrow> c_str left = c_str right"
proof (induction left right rule: equal_name.induct)
  case (1 left right)
  then show ?case
    by (subst equal_name.simps) (cases left; cases right; auto simp: char_at_def c_str_def)
qed

text \<open>\<open>void\<close> entries of a list are skipped.\<close>

fun contains_type :: "'i \<Rightarrow> 'i list \<Rightarrow> bool" where
  "contains_type t [] = False"
| "contains_type t (head # tail) = (if t = head then True else contains_type t tail)"

fun unique_types :: "'i option list \<Rightarrow> bool" where
  "unique_types [] = True"
| "unique_types (None # tail) = unique_types tail"
| "unique_types (Some head # tail) = (\<not> contains_type (Some head) tail \<and> unique_types tail)"

fun contains_name :: "bytes \<Rightarrow> method_symbol list \<Rightarrow> bool" where
  "contains_name n [] = False"
| "contains_name n (None # tail) = contains_name n tail"
| "contains_name n (Some head # tail) = (equal_name n head \<or> contains_name n tail)"

fun unique_names :: "method_symbol list \<Rightarrow> bool" where
  "unique_names [] = True"
| "unique_names (None # tail) = unique_names tail"
| "unique_names (Some head # tail) = (\<not> contains_name head tail \<and> unique_names tail)"

text \<open>What is left of a list without its \<open>void\<close> entries.\<close>

definition somes :: "'i option list \<Rightarrow> 'i list" where
  "somes xs = List.map_filter (\<lambda>x. x) xs"

lemma somes_simps [simp]:
  "somes [] = []" "somes (None # xs) = somes xs" "somes (Some x # xs) = x # somes xs"
  "somes (xs @ ys) = somes xs @ somes ys"
  by (simp_all add: somes_def map_filter_def)

lemma somes_map_Some [simp]: "somes (map (\<lambda>x. Some (f x)) xs) = map f xs"
  by (induction xs) simp_all

lemma set_somes: "x \<in> set (somes xs) \<longleftrightarrow> Some x \<in> set xs"
  by (induction xs rule: unique_types.induct) auto

lemma contains_type_iff: "contains_type t ts \<longleftrightarrow> t \<in> set ts"
  by (induction ts) auto

lemma unique_types_iff: "unique_types ts \<longleftrightarrow> distinct (somes ts)"
  by (induction ts rule: unique_types.induct) (auto simp: contains_type_iff set_somes)

lemma contains_name_iff: "contains_name n ms \<longleftrightarrow> c_str n \<in> c_str ` set (somes ms)"
  by (induction n ms rule: contains_name.induct) (auto simp: equal_name_iff)

lemma unique_names_iff: "unique_names ms \<longleftrightarrow> distinct (map c_str (somes ms))"
  by (induction ms rule: unique_names.induct) (auto simp: contains_name_iff)

subsection \<open>Interfaces and classes\<close>

text \<open>An interface has an identity (its type) and a descriptor; \<open>void\<close> ends the list a class gives.\<close>

record interface_decl =
  if_type :: nat
  if_methods :: descriptor

record class_decl =
  cd_interfaces :: "interface_decl option list"
  cd_methods :: descriptor

definition interface_method_names :: "interface_decl option \<Rightarrow> method_symbol list" where
  "interface_method_names i =
     (case i of
        None \<Rightarrow> []
      | Some j \<Rightarrow> method_names_in_range (if_methods j) (begin_index (if_methods j)) (end_index (if_methods j)))"

definition class_method_names :: "class_decl \<Rightarrow> method_symbol list" where
  "class_method_names c =
     method_names_in_range (cd_methods c) (begin_index (cd_methods c)) (end_index (cd_methods c))"

definition collect_interface_methods :: "interface_decl option list \<Rightarrow> method_symbol list" where
  "collect_interface_methods is = concat_types (map interface_method_names is)"

definition are_interface_types_unique :: "interface_decl option list \<Rightarrow> bool" where
  "are_interface_types_unique is = unique_types (map (map_option if_type) is)"

definition are_interface_method_names_unique ::
    "interface_decl option list \<Rightarrow> method_symbol list \<Rightarrow> bool" where
  "are_interface_method_names_unique is own =
     unique_names (concat_types [collect_interface_methods is, own])"

datatype pack_error = RepeatedInterface | RepeatedName

text \<open>The four specialisations of \<open>checked_interface_pack\<close>: the assertions that fail, or the mixins.\<close>

definition checked_interface_pack ::
    "interface_decl option list \<Rightarrow> method_symbol list \<Rightarrow> pack_error list + interface_decl list" where
  "checked_interface_pack is own =
     (case (are_interface_types_unique is, are_interface_method_names_unique is own) of
        (True, True) \<Rightarrow> Inr (somes is)
      | (False, True) \<Rightarrow> Inl [RepeatedInterface]
      | (True, False) \<Rightarrow> Inl [RepeatedName]
      | (False, False) \<Rightarrow> Inl [RepeatedInterface, RepeatedName])"

definition class_interface_pack :: "class_decl \<Rightarrow> pack_error list + interface_decl list" where
  "class_interface_pack c = checked_interface_pack (cd_interfaces c) (class_method_names c)"

text \<open>
  A block starts before it ends. The members declared in one are those on the lines strictly
  between.
\<close>

definition block :: "descriptor \<Rightarrow> bool" where
  "block d \<longleftrightarrow> begin_index d < end_index d"

definition block_members :: "descriptor \<Rightarrow> bytes list" where
  "block_members d = somes (declared_between d (unat (begin_index d) + 1) (unat (end_index d)))"

lemma method_names_block:
  assumes "block d"
  shows "somes (method_names_in_range d (begin_index d) (end_index d)) = block_members d"
proof -
  have "unat (begin_index d) < unat (end_index d)" "unat (end_index d) < 2 ^ 64"
    using assms unsigned_less [of "end_index d"] by (simp_all add: block_def word_less_nat_alt)
  then have "unat (begin_index d + 1) = unat (begin_index d) + 1" by (simp add: unat_word_ariths)
  then show ?thesis by (simp add: method_names_in_range_def names_in_range_eq block_members_def)
qed

definition class_members :: "class_decl \<Rightarrow> bytes list" where
  "class_members c =
     concat (map (\<lambda>i. block_members (if_methods i)) (somes (cd_interfaces c))) @ block_members (cd_methods c)"

lemma somes_collect:
  "list_all (\<lambda>i. block (if_methods i)) (somes is) \<Longrightarrow>
     somes (collect_interface_methods is) = concat (map (\<lambda>i. block_members (if_methods i)) (somes is))"
  by (induction "is" rule: unique_types.induct)
    (simp_all add: collect_interface_methods_def interface_method_names_def method_names_block)

lemma somes_map_option: "somes (map (map_option f) xs) = map f (somes xs)"
  by (induction xs rule: unique_types.induct) simp_all

lemma class_pack_iff:
  assumes "block (cd_methods c)" "list_all (\<lambda>i. block (if_methods i)) (somes (cd_interfaces c))"
  shows "class_interface_pack c = Inr ifs \<longleftrightarrow>
      ifs = somes (cd_interfaces c) \<and> distinct (map if_type ifs) \<and> distinct (map c_str (class_members c))"
proof -
  have "somes (collect_interface_methods (cd_interfaces c) @ class_method_names c) = class_members c"
    by (simp add: somes_collect [OF assms(2)] class_method_names_def method_names_block [OF assms(1)] class_members_def)
  then have "are_interface_method_names_unique (cd_interfaces c) (class_method_names c) \<longleftrightarrow>
      distinct (map c_str (class_members c))"
    by (simp only: are_interface_method_names_unique_def concat_types_eq unique_names_iff concat.simps append_Nil2)
  moreover have "are_interface_types_unique (cd_interfaces c) \<longleftrightarrow> distinct (map if_type (somes (cd_interfaces c)))"
    by (simp add: are_interface_types_unique_def unique_types_iff somes_map_option)
  ultimately show ?thesis
    by (auto simp: class_interface_pack_def checked_interface_pack_def split: bool.splits)
qed

text \<open>
  C14: a class is accepted exactly when it names no interface twice and no two of the members it
  gets from its interfaces and declares itself have the same name. The members found are all
  that are declared between the first and the last line of each block, in the order of the source,
  however the scan splits the range; and what is inherited are the named interfaces in order.
\<close>

theorem schema_accepts_iff:
  assumes "block (cd_methods c)" "list_all (\<lambda>i. block (if_methods i)) (somes (cd_interfaces c))"
  shows "class_interface_pack c = Inr ifs \<longleftrightarrow>
      ifs = somes (cd_interfaces c) \<and> distinct (map if_type ifs) \<and> distinct (map c_str (class_members c))"
  by (rule class_pack_iff [OF assms])

definition sample_block :: "nat \<Rightarrow> bytes list \<Rightarrow> descriptor" where
  "sample_block line names =
     \<lparr>begin_index = of_nat line, end_index = of_nat (line + length names + 1),
      method_name_at = (\<lambda>i. let k = unat i - line in
        if 1 \<le> k \<and> k \<le> length names then Some (Some (names ! (k - 1))) else None)\<rparr>"

definition sample_class :: class_decl where
  "sample_class =
     \<lparr>cd_interfaces = [Some \<lparr>if_type = 0, if_methods = sample_block 3 [[97], [98]]\<rparr>, None],
      cd_methods = sample_block 10 [[99]]\<rparr>"

lemma schema_sample_members: "class_members sample_class = [[97], [98], [99]]"
  by (simp add: sample_class_def sample_block_def class_members_def block_members_def declared_between_def
      map_filter_def)

lemma schema_sample_blocks:
  "block (cd_methods sample_class)" "list_all (\<lambda>i. block (if_methods i)) (somes (cd_interfaces sample_class))"
  by (simp_all add: sample_class_def sample_block_def block_def)

lemma schema_sample_pack: "class_interface_pack sample_class = Inr (somes (cd_interfaces sample_class))"
  unfolding class_pack_iff [OF schema_sample_blocks] schema_sample_members
  by (simp add: sample_class_def c_str_def)

theorem schema_accepts_iff_witness:
  "class_interface_pack sample_class = Inr (somes (cd_interfaces sample_class))"
  unfolding schema_accepts_iff [OF schema_sample_blocks] schema_sample_members
  by (simp add: sample_class_def c_str_def)

end
