(* ===== verification/ClassRegistration.thy ===== *)
theory ClassRegistration
  imports Schema PyExport Registry
begin

section \<open>Registering a class\<close>

text \<open>
  What \<open>register_all\<close> of an exported class does (\<open>dynabridge/export_core.h\<close> and the registrars that
  \<open>dynabridge/export_generate.h\<close> generates from the declaration table): the class is defined in
  the module, the members of its interfaces and its own constructors and members are defined in
  the class, and the class target is stored in the context.
\<close>

subsection \<open>The registrars\<close>

text \<open>The body of a block of declarations: member groups with their signatures, and constructors.\<close>

type_synonym member_group = "bytes \<times> signature list"

datatype class_item = DeclConstructor "ctype list" | DeclMembers "bytes" "signature list"

text \<open>What a registration does to the class target \<open>'t\<close>.\<close>

record ('t, 'w) registration_ops =
  ro_constructor :: "'t \<Rightarrow> ctype list \<Rightarrow> ('w, unit) action"
  ro_member :: "'t \<Rightarrow> bytes \<Rightarrow> signature \<Rightarrow> ('w, unit) action"

fun act_each :: "('x \<Rightarrow> ('s, unit) action) \<Rightarrow> 'x list \<Rightarrow> ('s, unit) action" where
  "act_each f [] = act_return ()"
| "act_each f (x # xs) = act_bind (f x) (\<lambda>_. act_each f xs)"

definition interface_registration ::
    "('t, 'w) registration_ops \<Rightarrow> 't \<Rightarrow> member_group list \<Rightarrow> ('w, unit) action" where
  "interface_registration ro target groups =
     act_each (\<lambda>(name, sgs). act_each (ro_member ro target name) sgs) groups"

fun export_interface_registrar ::
    "('t, 'w) registration_ops \<Rightarrow> 't \<Rightarrow> member_group list option list \<Rightarrow> ('w, unit) action" where
  "export_interface_registrar ro target [] = act_return ()"
| "export_interface_registrar ro target (None # tail) = export_interface_registrar ro target tail"
| "export_interface_registrar ro target (Some body # tail) =
     act_bind (interface_registration ro target body) (\<lambda>_. export_interface_registrar ro target tail)"

definition register_item :: "('t, 'w) registration_ops \<Rightarrow> 't \<Rightarrow> class_item \<Rightarrow> ('w, unit) action" where
  "register_item ro target item =
     (case item of
        DeclConstructor params \<Rightarrow> ro_constructor ro target params
      | DeclMembers name sgs \<Rightarrow> act_each (ro_member ro target name) sgs)"

definition export_class_registrar ::
    "('t, 'w) registration_ops \<Rightarrow> member_group list option list \<Rightarrow> class_item list \<Rightarrow> 't \<Rightarrow> ('w, unit) action" where
  "export_class_registrar ro interfaces items target =
     act_bind (export_interface_registrar ro target interfaces)
       (\<lambda>_. act_each (register_item ro target) items)"

text \<open>The context's registry is the first part of the state.\<close>

definition class_register_all ::
    "('w, 't) action \<Rightarrow> ('t, 'w) registration_ops \<Rightarrow> nat \<Rightarrow> member_group list option list \<Rightarrow> class_item list \<Rightarrow>
     ('t registry \<times> 'w, unit) action" where
  "class_register_all define ro key interfaces items =
     act_bind (on_snd define) (\<lambda>target.
     act_bind (on_snd (export_class_registrar ro interfaces items target)) (\<lambda>_ st.
       (Return (), (registry_store key target (fst st), snd st))))"

text \<open>
  A class is stored only after everything about it was registered: when anything before raises, the
  context does not know the class.
\<close>

lemma class_registered_last:
  assumes "class_register_all define ro key interfaces items (classes, w) = (r, (classes', w'))"
  shows "if r = Return () then \<exists>target. classes' = registry_store key target classes else classes' = classes"
  using assms
  by (auto simp: class_register_all_def act_bind_def on_snd_def split: prod.splits outcome.splits)

subsection \<open>The attributes of a registered class\<close>

text \<open>
  A backend whose class targets keep members as named attributes: defining one puts it under its
  name, in place of what was there, as setting an attribute does in Python and in JavaScript.
\<close>

definition attribute_backend ::
    "('w \<Rightarrow> bytes \<Rightarrow> signature option) \<Rightarrow> 't \<Rightarrow> ('t, 'w) registration_ops \<Rightarrow> bool" where
  "attribute_backend attributes target ro \<longleftrightarrow>
     (\<forall>name sg w. \<exists>w'. ro_member ro target name sg w = (Return (), w') \<and>
        attributes w' = (attributes w)(c_str name \<mapsto> sg)) \<and>
     (\<forall>params w. \<exists>w'. ro_constructor ro target params w = (Return (), w') \<and> attributes w' = attributes w)"

interpretation attributes: keyed_store "\<lambda>m k. m k" "\<lambda>k v m. m(k \<mapsto> v)" Map.empty "\<lambda>_. True" "\<lambda>_ _. True"
  by unfold_locales auto

definition item_groups :: "class_item list \<Rightarrow> member_group list" where
  "item_groups items = concat (map (\<lambda>i. case i of DeclConstructor ps \<Rightarrow> [] | DeclMembers n sgs \<Rightarrow> [(n, sgs)]) items)"

definition registered_groups :: "member_group list option list \<Rightarrow> class_item list \<Rightarrow> member_group list" where
  "registered_groups interfaces items = concat (somes interfaces) @ item_groups items"

definition group_entries :: "member_group list \<Rightarrow> (bytes \<times> signature) list" where
  "group_entries groups = concat (map (\<lambda>(name, sgs). map (Pair (c_str name)) sgs) groups)"

text \<open>Running a step from any state returns, and puts \<open>entries\<close> into the attributes.\<close>

definition puts :: "('w \<Rightarrow> bytes \<Rightarrow> signature option) \<Rightarrow> ('w, unit) action \<Rightarrow> (bytes \<times> signature) list \<Rightarrow> bool" where
  "puts attributes f entries \<longleftrightarrow> (\<forall>w. \<exists>w'. f w = (Return (), w') \<and>
     attributes w' = attributes.put_all entries (attributes w))"

lemma puts_return: "puts attributes (act_return ()) []"
  by (simp add: puts_def act_return_def attributes.put_all_def)

lemma puts_bind:
  assumes "puts attributes f xs" "puts attributes g ys"
  shows "puts attributes (act_bind f (\<lambda>_. g)) (xs @ ys)"
  unfolding puts_def
proof
  fix w
  obtain w1 where "f w = (Return (), w1)" "attributes w1 = attributes.put_all xs (attributes w)"
    using assms(1) by (auto simp: puts_def)
  moreover obtain w2 where "g w1 = (Return (), w2)" "attributes w2 = attributes.put_all ys (attributes w1)"
    using assms(2) by (auto simp: puts_def)
  ultimately show "\<exists>w'. act_bind f (\<lambda>_. g) w = (Return (), w') \<and> attributes w' = attributes.put_all (xs @ ys) (attributes w)"
    by (simp add: act_bind_def attributes.put_all_def)
qed

lemma puts_each:
  "(\<And>x. x \<in> set xs \<Longrightarrow> puts attributes (f x) (e x)) \<Longrightarrow> puts attributes (act_each f xs) (concat (map e xs))"
  by (induction xs) (auto intro: puts_return puts_bind)

lemma puts_group:
  assumes "attribute_backend attributes target ro"
  shows "puts attributes (act_each (ro_member ro target name) sgs) (map (Pair (c_str name)) sgs)"
proof -
  have "puts attributes (ro_member ro target name sg) [(c_str name, sg)]" for sg
    using assms by (simp add: puts_def attribute_backend_def attributes.put_all_def)
  from puts_each [OF this] show ?thesis by (simp add: concat_map_singleton)
qed

lemma group_entries_items:
  "concat (map (\<lambda>i. group_entries (item_groups [i])) items) = group_entries (item_groups items)"
  by (induction items) (simp_all add: item_groups_def group_entries_def)

lemma puts_registrar:
  assumes "attribute_backend attributes target ro"
  shows "puts attributes (export_class_registrar ro interfaces items target)
    (group_entries (registered_groups interfaces items))"
proof -
  have g: "puts attributes (interface_registration ro target groups) (group_entries groups)" for groups
    unfolding interface_registration_def group_entries_def
    by (rule puts_each) (auto intro: puts_group [OF assms])
  have i: "puts attributes (export_interface_registrar ro target interfaces) (group_entries (concat (somes interfaces)))"
  proof (induction interfaces rule: unique_types.induct)
    case (3 body tail)
    then show ?case using puts_bind [OF g 3] by (simp add: group_entries_def)
  qed (simp_all add: group_entries_def puts_return)
  have "puts attributes (register_item ro target item) (group_entries (item_groups [item]))" for item
  proof (cases item)
    case (DeclConstructor params)
    then show ?thesis using assms
      by (simp add: register_item_def item_groups_def group_entries_def puts_def attribute_backend_def attributes.put_all_def)
  next
    case (DeclMembers name sgs)
    then show ?thesis using puts_group [OF assms, of name sgs]
      by (simp add: register_item_def item_groups_def group_entries_def)
  qed
  from puts_each [where f = "register_item ro target" and e = "\<lambda>i. group_entries (item_groups [i])", OF this]
  have "puts attributes (act_each (register_item ro target) items) (group_entries (item_groups items))"
    by (simp only: group_entries_items)
  from puts_bind [OF i this] show ?thesis
    by (simp add: export_class_registrar_def registered_groups_def group_entries_def)
qed

lemma last_entry:
  assumes "sgs \<noteq> []"
  shows "map_of (rev (map (Pair k) sgs)) k = Some (last sgs)"
  using assms by (cases sgs rule: rev_cases) simp_all

lemma lookup_group:
  assumes "distinct (map (c_str \<circ> fst) groups)" "(name, sgs) \<in> set groups" "sgs \<noteq> []"
  shows "map_of (rev (group_entries groups)) (c_str name) = Some (last sgs)"
  using assms(1,2)
proof (induction groups)
  case (Cons g groups)
  obtain m ss where g: "g = (m, ss)" by fastforce
  have e: "rev (group_entries (g # groups)) = rev (group_entries groups) @ rev (map (Pair (c_str m)) ss)"
    by (simp add: g group_entries_def)
  show ?case
  proof (cases "(name, sgs) \<in> set groups")
    case True
    then have "map_of (rev (group_entries groups)) (c_str name) = Some (last sgs)" using Cons by simp
    then show ?thesis by (simp add: e map_add_def)
  next
    case False
    then have n: "m = name" "ss = sgs" using Cons.prems(2) g by auto
    have "fst ` set (group_entries groups) \<subseteq> (c_str \<circ> fst) ` set groups"
      by (force simp: group_entries_def)
    then have "map_of (rev (group_entries groups)) (c_str name) = None"
      using Cons.prems(1) n by (auto simp: map_of_eq_None_iff g)
    then show ?thesis by (simp add: e n map_add_def last_entry [OF assms(3)])
  qed
qed simp

text \<open>
  Registering a class whose schema is accepted on a backend that keeps attributes completes,
  stores the class in the context, and leaves under each member's name, inherited or its own, a
  signature declared for that member and no other: the unique names the schema check enforces are what keeps
  one member from replacing another.
\<close>

theorem class_registration_complete:
  assumes "attribute_backend attributes target ro" "define w = (Return target, w1)"
    and "block (cd_methods c)" "list_all (\<lambda>i. block (if_methods i)) (somes (cd_interfaces c))"
    and "class_interface_pack c = Inr ifs" "class_members c = map fst (registered_groups interfaces items)"
  shows "\<exists>w'. class_register_all define ro key interfaces items (classes, w) =
      (Return (), registry_store key target classes, w') \<and>
    registry_get ex key (registry_store key target classes) = Return target \<and>
    list_all (\<lambda>(name, sgs). sgs = [] \<or> attributes w' (c_str name) = Some (last sgs))
      (registered_groups interfaces items)"
proof -
  let ?groups = "registered_groups interfaces items"
  have "distinct (map c_str (class_members c))"
    using class_pack_iff [OF assms(3,4), of ifs] assms(5) by simp
  then have d: "distinct (map (c_str \<circ> fst) ?groups)" by (simp add: assms(6))
  obtain w' where w': "export_class_registrar ro interfaces items target w1 = (Return (), w')"
    "attributes w' = attributes.put_all (group_entries ?groups) (attributes w1)"
    using puts_registrar [OF assms(1), of interfaces items] by (auto simp: puts_def)
  have "attributes w' (c_str name) = Some (last sgs)" if "(name, sgs) \<in> set ?groups" "sgs \<noteq> []" for name sgs
    by (simp add: w'(2) attributes.get_put_all lookup_group [OF d that])
  then have "list_all (\<lambda>(name, sgs). sgs = [] \<or> attributes w' (c_str name) = Some (last sgs)) ?groups"
    by (auto simp: list_all_iff)
  moreover have "registry_get ex key (registry_store key target classes) = Return target"
    by (simp add: registry_get_eq map_of_store)
  ultimately show ?thesis
    using w'(1) assms(2) by (auto simp: class_register_all_def act_bind_def on_snd_def)
qed

text \<open>A table of attributes, and a class with an interface of two members and a member of its own.\<close>

definition table_ops :: "(nat, bytes \<Rightarrow> signature option) registration_ops" where
  "table_ops =
     \<lparr>ro_constructor = (\<lambda>target params w. (Return (), w)),
      ro_member = (\<lambda>target name sg w. (Return (), w(c_str name \<mapsto> sg)))\<rparr>"

lemma table_ops_backend: "attribute_backend (\<lambda>w. w) target table_ops"
  by (simp add: attribute_backend_def table_ops_def)

definition int_signature :: "nat \<Rightarrow> signature" where
  "int_signature n = \<lparr>sg_result = Named (ascii ''int''), sg_params = replicate n (Named (ascii ''int''))\<rparr>"

theorem class_registration_complete_witness:
  "\<exists>w'. class_register_all (\<lambda>w. (Return 5, w)) table_ops 7
      [Some [([97], [int_signature 0]), ([98], [int_signature 1])], None]
      [DeclConstructor [], DeclMembers [99] [int_signature 2]] ([], Map.empty) =
      (Return (), registry_store 7 5 [], w') \<and>
    registry_get True 7 (registry_store 7 5 []) = Return (5 :: nat) \<and>
    list_all (\<lambda>(name, sgs). sgs = [] \<or> w' (c_str name) = Some (last sgs))
      (registered_groups [Some [([97], [int_signature 0]), ([98], [int_signature 1])], None]
        [DeclConstructor [], DeclMembers [99] [int_signature 2]])"
proof (rule class_registration_complete [OF table_ops_backend])
  show "class_members sample_class = map fst
      (registered_groups [Some [([97], [int_signature 0]), ([98], [int_signature 1])], None]
        [DeclConstructor [], DeclMembers [99] [int_signature 2]])"
    by (simp add: schema_sample_members registered_groups_def item_groups_def)
qed (simp_all add: schema_sample_blocks schema_sample_pack)

text \<open>
  A member declared with two overloads answers only to the last of them: each declaration of the
  group defines the same attribute again, with a callable that takes one signature. Calling the
  member with the arguments of the first overload is refused as a wrong number of arguments.
\<close>

theorem member_overloads_replaced:
  "\<exists>w'. class_register_all (\<lambda>w. (Return 5, w)) table_ops 7 [None]
       [DeclMembers [99] [int_signature 1, int_signature 2]] ([], Map.empty) = (Return (), [(7, 5)], w') \<and>
     w' [99] = Some (int_signature 2) \<and>
     typed_call_vector_signature api (signature_arity (the (w' [99])) + 1) False callee [self, x] None =
       py_refuse api ''dynabridge Python callback received wrong arity''"
  by (simp add: class_register_all_def export_class_registrar_def register_item_def table_ops_def act_bind_def
      on_snd_def act_return_def c_str_def int_signature_def signature_arity_def typed_call_vector_signature_def
      keywords_given_def)

end
