(* ===== verification/OverloadSets.thy ===== *)
theory OverloadSets
  imports Schema ExportDispatch NapiExport
begin

section \<open>Overload sets\<close>

text \<open>
  How the overloads of a declared group are bound one signature at a time
  (\<open>export_callable_builder\<close> and \<open>export_free_callable_group_builder\<close> of
  \<open>dynabridge/export_callable.h\<close>), and how the finished set becomes the candidates that the
  dispatch tries.
\<close>

subsection \<open>Builders\<close>

text \<open>A slot holds the callable that was bound to one contract.\<close>

record ('n, 'w) bound_slot =
  bs_contract :: signature
  bs_callable :: "'n list \<Rightarrow> ('w, 'n) action"

definition slot_call :: "('n, 'w) bound_slot \<Rightarrow> 'n list \<Rightarrow> ('w, 'n) action" where
  "slot_call slot args = bs_callable slot args"

fun has_bound_export_overload_slot :: "signature \<Rightarrow> ('n, 'w) bound_slot list \<Rightarrow> bool" where
  "has_bound_export_overload_slot sg [] = False"
| "has_bound_export_overload_slot sg (slot # tail) =
     (if bs_contract slot = sg then True else has_bound_export_overload_slot sg tail)"

definition is_unmatched_free_callable :: "signature \<Rightarrow> bool" where
  "is_unmatched_free_callable sg \<longleftrightarrow> sg = unmatched_signature"

fun is_export_overload_builder_complete :: "signature list \<Rightarrow> ('n, 'w) bound_slot list \<Rightarrow> bool" where
  "is_export_overload_builder_complete [] slots = True"
| "is_export_overload_builder_complete (head # tail) slots =
     ((is_unmatched_free_callable head \<or> has_bound_export_overload_slot head slots) \<and>
      is_export_overload_builder_complete tail slots)"

datatype builder_error = NotDeclared | AlreadyBound | NotBindable | Incomplete

text \<open>
  \<open>bind\<close> adds a slot at the end; the group builder also checks that the callable fits, which
  \<open>bindable\<close> decides (a set built on its own is checked later: \<open>bindable\<close> is then always true).
\<close>

definition builder_bind ::
    "(signature \<Rightarrow> bool) \<Rightarrow> signature list \<Rightarrow> ('n, 'w) bound_slot list \<Rightarrow> signature \<Rightarrow>
     ('n list \<Rightarrow> ('w, 'n) action) \<Rightarrow> builder_error + ('n, 'w) bound_slot list" where
  "builder_bind bindable sgs slots sg callable =
     (if \<not> is_declared_free_callable sg sgs then Inl NotDeclared
      else if has_bound_export_overload_slot sg slots then Inl AlreadyBound
      else if \<not> bindable sg then Inl NotBindable
      else Inr (slots @ [\<lparr>bs_contract = sg, bs_callable = callable\<rparr>]))"

definition builder_build ::
    "signature list \<Rightarrow> ('n, 'w) bound_slot list \<Rightarrow> builder_error + ('n, 'w) bound_slot list" where
  "builder_build sgs slots =
     (if \<not> is_export_overload_builder_complete sgs slots then Inl Incomplete else Inr slots)"

text \<open>A program's chain of \<open>bind\<close> calls, ended by \<open>build\<close> or \<open>commit\<close>.\<close>

fun builder_run ::
    "(signature \<Rightarrow> bool) \<Rightarrow> signature list \<Rightarrow> ('n, 'w) bound_slot list \<Rightarrow>
     (signature \<times> ('n list \<Rightarrow> ('w, 'n) action)) list \<Rightarrow> builder_error + ('n, 'w) bound_slot list" where
  "builder_run bindable sgs slots [] = builder_build sgs slots"
| "builder_run bindable sgs slots ((sg, callable) # binds) =
     (case builder_bind bindable sgs slots sg callable of
        Inl e \<Rightarrow> Inl e
      | Inr slots' \<Rightarrow> builder_run bindable sgs slots' binds)"

definition slot_of :: "signature \<times> ('n list \<Rightarrow> ('w, 'n) action) \<Rightarrow> ('n, 'w) bound_slot" where
  "slot_of b = \<lparr>bs_contract = fst b, bs_callable = snd b\<rparr>"

lemma has_slot_iff: "has_bound_export_overload_slot sg slots \<longleftrightarrow> sg \<in> bs_contract ` set slots"
  by (induction slots) auto

lemma complete_iff:
  "is_export_overload_builder_complete sgs slots \<longleftrightarrow> set sgs - {unmatched_signature} \<subseteq> bs_contract ` set slots"
  by (induction sgs) (auto simp: has_slot_iff is_unmatched_free_callable_def)

lemma builder_run_iff:
  "builder_run bindable sgs slots binds = Inr result \<longleftrightarrow>
     result = slots @ map slot_of binds \<and> distinct (map fst binds) \<and>
     set (map fst binds) \<inter> bs_contract ` set slots = {} \<and> set (map fst binds) \<subseteq> set sgs \<and>
     list_all bindable (map fst binds) \<and>
     set sgs - {unmatched_signature} \<subseteq> bs_contract ` set slots \<union> set (map fst binds)"
proof (induction bindable sgs slots binds rule: builder_run.induct)
  case (1 bindable sgs slots)
  then show ?case by (auto simp: builder_build_def complete_iff)
next
  case (2 bindable sgs slots sg callable binds)
  show ?case
  proof (cases "sg \<in> set sgs \<and> sg \<notin> bs_contract ` set slots \<and> bindable sg")
    case True
    then have b: "builder_bind bindable sgs slots sg callable = Inr (slots @ [slot_of (sg, callable)])"
      by (simp add: builder_bind_def has_slot_iff slot_of_def)
    show ?thesis using 2 [OF b] True by (auto simp: b slot_of_def)
  next
    case False
    then show ?thesis by (auto simp: builder_bind_def has_slot_iff)
  qed
qed

text \<open>
  A chain of \<open>bind\<close> calls compiles to a finished set exactly when it binds only declared
  signatures, each once, each to a callable that fits, and leaves no declared overload out; the
  set then holds precisely what was bound, in the order of the calls.
\<close>

theorem overload_builder_complete:
  "builder_run bindable sgs [] binds = Inr slots \<longleftrightarrow>
     slots = map slot_of binds \<and> distinct (map fst binds) \<and> set (map fst binds) \<subseteq> set sgs \<and>
     list_all bindable (map fst binds) \<and> set sgs - {unmatched_signature} \<subseteq> set (map fst binds)"
  by (simp add: builder_run_iff)

subsection \<open>The finished set as candidates\<close>

text \<open>
  \<open>export_bound_overload_set\<close> inherits the call operators of its slots; called with the arguments
  of a contract, the compiler picks the operator of that contract.
\<close>

fun overload_set_call :: "('n, 'w) bound_slot list \<Rightarrow> signature \<Rightarrow> ('n list \<Rightarrow> ('w, 'n) action) option" where
  "overload_set_call [] sg = None"
| "overload_set_call (slot # tail) sg =
     (if bs_contract slot = sg then Some (slot_call slot) else overload_set_call tail sg)"

text \<open>What a backend knows about types: \<open>export_argument\<close> of a parameter, the conversion of a result.\<close>

record ('d, 'n, 'w) type_env =
  te_argument :: "ctype \<Rightarrow> ('d, 'n, 'w) export_arg"
  te_result :: "ctype \<Rightarrow> ('n \<Rightarrow> ('w, 'd) action) option"

text \<open>
  The binder made of a group's contracts and the finished set: one candidate per contract, in the
  order of the declaration. The placeholder has no operator and is never called.
\<close>

definition overload_candidate ::
    "('d, 'n, 'w) type_env \<Rightarrow> ('n, 'w) bound_slot list \<Rightarrow> signature \<Rightarrow> ('d, 'n, 'w) overload" where
  "overload_candidate env slots sg =
     \<lparr>ov_unmatched = is_unmatched_free_callable sg,
      ov_args = map (te_argument env) (sg_params sg),
      ov_callable = (case overload_set_call slots sg of Some f \<Rightarrow> f | None \<Rightarrow> (\<lambda>args w. (Abort, w))),
      ov_result = te_result env (sg_result sg)\<rparr>"

definition create_export_overload_binder ::
    "('d, 'n, 'w) type_env \<Rightarrow> signature list \<Rightarrow> ('n, 'w) bound_slot list \<Rightarrow> ('d, 'n, 'w) overload list" where
  "create_export_overload_binder env sgs slots = map (overload_candidate env slots) sgs"

lemma overload_set_call_map_of: "overload_set_call (map slot_of binds) sg = map_of binds sg"
  by (induction binds) (auto simp: slot_of_def slot_call_def fun_eq_iff)

lemma candidate_simps [simp]:
  "ov_args (overload_candidate env slots sg) = map (te_argument env) (sg_params sg)"
  "callable_arity (overload_candidate env slots sg) = signature_arity sg"
  by (simp_all add: overload_candidate_def callable_arity_def signature_arity_def)

text \<open>
  The order of the \<open>bind\<close> calls does not matter. If one order compiles, every other does, and
  the binders the two sets give are the same: the candidates come in the order of the declaration,
  each calling what was bound to its signature.
\<close>

theorem binding_order_irrelevant:
  assumes "builder_run bindable sgs [] binds = Inr slots" "mset binds' = mset binds"
  shows "\<exists>slots'. builder_run bindable sgs [] binds' = Inr slots' \<and>
    create_export_overload_binder env sgs slots' = create_export_overload_binder env sgs slots"
proof -
  have b: "slots = map slot_of binds" "distinct (map fst binds)"
    using assms(1) by (simp_all add: builder_run_iff)
  have s: "set binds' = set binds" using assms(2) by (metis mset_eq_setD)
  have "mset (map fst binds') = mset (map fst binds)" using assms(2) by simp
  then have d: "distinct (map fst binds')" using b(2) by (metis mset_eq_imp_distinct_iff)
  have "builder_run bindable sgs [] binds' = Inr (map slot_of binds')"
    using assms(1) d s by (simp add: builder_run_iff list_all_iff)
  moreover have "map_of binds' = map_of binds"
    using map_of_inject_set [OF d b(2)] s by simp
  ultimately show ?thesis
    by (auto simp: b(1) create_export_overload_binder_def overload_candidate_def overload_set_call_map_of)
qed

definition sample_signature :: "nat \<Rightarrow> signature" where
  "sample_signature n = \<lparr>sg_result = Named [], sg_params = replicate n (Named [])\<rparr>"

definition sample_type_env :: "(nat, nat, nat) type_env" where
  "sample_type_env = \<lparr>te_argument = (\<lambda>t. scalar_arg \<lparr>cv_probe = (\<lambda>d. True), cv_to = id, cv_from = Some, cv_take = (\<lambda>d. (Some d, d))\<rparr>),
    te_result = (\<lambda>t. Some act_return)\<rparr>"

definition sample_binds :: "(signature \<times> (nat list \<Rightarrow> (nat, nat) action)) list" where
  "sample_binds =
     [(sample_signature 2, \<lambda>args. act_return (sum_list args)), (sample_signature 1, \<lambda>args. act_return (hd args))]"

lemma sample_binds_run:
  "builder_run (\<lambda>sg. True) [sample_signature 1, sample_signature 2, unmatched_signature] [] sample_binds
     = Inr (map slot_of sample_binds)"
  unfolding builder_run_iff
  by (auto simp: sample_binds_def sample_signature_def unmatched_signature_def numeral_2_eq_2)

theorem binding_order_irrelevant_witness:
  "\<exists>slots'. builder_run (\<lambda>sg. True) [sample_signature 1, sample_signature 2, unmatched_signature] [] (rev sample_binds)
       = Inr slots' \<and>
     create_export_overload_binder sample_type_env [sample_signature 1, sample_signature 2] slots' =
     create_export_overload_binder sample_type_env [sample_signature 1, sample_signature 2] (map slot_of sample_binds)"
proof -
  have "mset (rev sample_binds) = mset sample_binds" by simp
  from binding_order_irrelevant [OF sample_binds_run this, of sample_type_env]
  show ?thesis by (auto simp: create_export_overload_binder_def)
qed

subsection \<open>Candidates behind the argument buffer\<close>

text \<open>
  \<open>argv_accessor\<close> of the Node-API overload callback reads the fixed buffer that \<open>overload_argv\<close>
  describes. Code that only reads slots, and of them only the first \<open>n\<close>, runs the same over any
  slots that agree there, and leaves them as they are.
\<close>

definition argv_accessor :: "nat \<Rightarrow> accessor" where
  "argv_accessor max_arity = \<lparr>ac_mutable = False, ac_static_arity = Some max_arity\<rparr>"

definition reads_first :: "nat \<Rightarrow> ('d list \<times> 'w, 'a) action \<Rightarrow> bool" where
  "reads_first n f \<longleftrightarrow> (\<forall>ds ds' w. take n ds = take n ds' \<longrightarrow> n \<le> length ds \<longrightarrow> n \<le> length ds' \<longrightarrow>
     (\<exists>r w'. f (ds, w) = (r, (ds, w')) \<and> f (ds', w) = (r, (ds', w'))))"

lemma reads_firstI:
  "(\<And>ds ds' w. take n ds = take n ds' \<Longrightarrow> n \<le> length ds \<Longrightarrow> n \<le> length ds' \<Longrightarrow>
     \<exists>r w'. f (ds, w) = (r, (ds, w')) \<and> f (ds', w) = (r, (ds', w'))) \<Longrightarrow> reads_first n f"
  by (simp add: reads_first_def)

lemma reads_firstE:
  assumes "reads_first n f" "take n ds = take n ds'" "n \<le> length ds" "n \<le> length ds'"
  obtains r w' where "f (ds, w) = (r, (ds, w'))" "f (ds', w) = (r, (ds', w'))"
  using assms by (fastforce simp: reads_first_def)

lemma reads_first_simple [simp]:
  "reads_first n (act_return x)" "reads_first n (act_raise ex e)" "reads_first n (on_snd m)"
  by (auto simp: reads_first_def act_return_def act_raise_def on_snd_def split: prod.splits)

lemma reads_first_bind:
  assumes "reads_first n f" "\<And>x. reads_first n (g x)"
  shows "reads_first n (act_bind f g)"
proof (rule reads_firstI)
  fix ds ds' :: "'a list" and w
  assume ds: "take n ds = take n ds'" "n \<le> length ds" "n \<le> length ds'"
  obtain r w' where f: "f (ds, w) = (r, (ds, w'))" "f (ds', w) = (r, (ds', w'))"
    using reads_firstE [OF assms(1) ds] by metis
  show "\<exists>r w'. act_bind f g (ds, w) = (r, (ds, w')) \<and> act_bind f g (ds', w) = (r, (ds', w'))"
  proof (cases r)
    case (Return x)
    then show ?thesis using f reads_firstE [OF assms(2) ds, of x w'] by (auto simp: act_bind_def) metis
  qed (use f in \<open>auto simp: act_bind_def\<close>)
qed

lemma reads_first_slots:
  assumes "\<And>ds. reads_first n (F ds)"
    and "\<And>ds ds'. take n ds = take n ds' \<Longrightarrow> n \<le> length ds \<Longrightarrow> n \<le> length ds' \<Longrightarrow> F ds = F ds'"
  shows "reads_first n (\<lambda>s. F (fst s) s)"
proof (rule reads_firstI)
  fix ds ds' :: "'a list" and w
  assume ds: "take n ds = take n ds'" "n \<le> length ds" "n \<le> length ds'"
  show "\<exists>r w'. F (fst (ds, w)) (ds, w) = (r, (ds, w')) \<and> F (fst (ds', w)) (ds', w) = (r, (ds', w'))"
    using assms(2) [OF ds] reads_firstE [OF assms(1) ds, of ds' w] by (metis fst_conv)
qed

lemma reads_first_act_at:
  "(\<And>i. i \<in> set is \<Longrightarrow> reads_first n (f i)) \<Longrightarrow> reads_first n (act_at is f res)"
  by (induction "is" arbitrary: res) (auto intro: reads_first_bind)

lemma zip_take_slots: "zip xs ds = zip xs (take (length xs) ds)"
proof (induction xs arbitrary: ds)
  case (Cons x xs)
  show ?case using Cons.IH [of "tl ds"] by (cases ds) simp_all
qed simp

lemma probe_args_take: "probe_args as ds ps = probe_args as (take (length as) ds) ps"
proof (induction as arbitrary: ds ps)
  case (Cons a as)
  show ?case using Cons.IH [of "tl ds" "tl ps"] by (cases ds; cases ps) (simp_all cong: if_cong)
qed simp

lemma reads_first_convert:
  assumes "evaluation_order order" "\<not> ac_mutable acc" "length as = n"
  shows "reads_first n (convert_arguments order acc as ps)"
proof -
  have "reads_first n (plan_convert acc (as ! i) (ps ! i) i)" if i: "i < n" for i
  proof (cases "ps ! i")
    case PTrue
    have "reads_first n (\<lambda>s. on_snd (ea_try_const (as ! i) (fst s ! i)) s)"
      by (rule reads_first_slots [where F = "\<lambda>ds. on_snd (ea_try_const (as ! i) (ds ! i))"])
        (use i in \<open>auto dest: arg_cong [where f = "\<lambda>xs. xs ! i"]\<close>)
    then show ?thesis using assms(2) by (simp add: plan_convert_def PTrue try_slot_def [abs_def])
  qed (simp add: plan_convert_def)
  then show ?thesis using assms(1,3)
    by (auto simp: convert_arguments_def evaluation_order_def intro!: reads_first_act_at)
qed

lemma reads_first_candidate:
  assumes "evaluation_order order" "\<not> ac_mutable acc"
  shows "reads_first (callable_arity ov) (candidate_call_optional ex opted order undef acc ov)"
proof -
  let ?as = "ov_args ov"
  define F where "F ds = act_bind (on_snd (plan_prepare opted ?as ds)) (\<lambda>ps.
     act_bind (on_snd (plan_probe opted ?as ds ps)) (\<lambda>ok.
       if \<not> ok then act_return None else candidate_call_impl ex opted order undef acc ov ps))" for ds
  have "reads_first (callable_arity ov) (candidate_call_impl ex opted order undef acc ov ps)" for ps
    using reads_first_convert [OF assms, of ?as "callable_arity ov" ps]
    by (auto simp: candidate_call_impl_def callable_arity_def accepted_export_arguments_def
        intro!: reads_first_bind)
  then have "reads_first (callable_arity ov) (F ds)" for ds
    by (auto simp: F_def intro!: reads_first_bind)
  moreover have "F ds = F ds'" if "take (callable_arity ov) ds = take (callable_arity ov) ds'" for ds ds'
    using that zip_take_slots [of ?as ds] zip_take_slots [of ?as ds']
      probe_args_take [of ?as ds] probe_args_take [of ?as ds']
    by (simp add: F_def plan_prepare_def plan_probe_def callable_arity_def)
  ultimately have "reads_first (callable_arity ov) (\<lambda>s. F (fst s) s)" by (rule reads_first_slots)
  then show ?thesis by (simp add: candidate_call_optional_def [abs_def] F_def)
qed

lemma reads_first_dispatch:
  assumes "evaluation_order order" "\<not> ac_mutable acc"
  shows "reads_first argc (export_overload_dispatch ex opted order undef acc ovs argc)"
  by (induction ovs) (auto intro!: reads_first_bind reads_first_candidate assms)

lemma dispatch_no_arity:
  "argc \<notin> callable_arity ` set ovs \<Longrightarrow>
     export_overload_dispatch ex opted order undef acc ovs argc = act_return None"
  by (induction ovs) auto

lemma candidate_accessor:
  fixes ov :: "('d, 'n, 'w) overload"
  assumes "ac_mutable acc = ac_mutable acc'"
  shows "candidate_call_optional ex opted order undef acc ov = candidate_call_optional ex opted order undef acc' ov"
proof -
  have "plan_convert acc a p i = plan_convert acc' a p i" for a :: "('d, 'n, 'w) export_arg" and p i
    using assms by (auto simp: fun_eq_iff plan_convert_def try_slot_def split: prepared.split)
  then have "convert_arguments order acc (ov_args ov) ps = convert_arguments order acc' (ov_args ov) ps" for ps
    unfolding convert_arguments_def by (simp only:)
  then have "candidate_call_impl ex opted order undef acc ov ps = candidate_call_impl ex opted order undef acc' ov ps" for ps
    unfolding candidate_call_impl_def by (simp only:)
  then show ?thesis unfolding candidate_call_optional_def by (simp only:)
qed

lemma dispatch_accessor:
  assumes "ac_mutable acc = ac_mutable acc'" "list_all (can_access acc) ovs" "list_all (can_access acc') ovs"
  shows "export_overload_dispatch ex opted order undef acc ovs argc = export_overload_dispatch ex opted order undef acc' ovs argc"
  using assms(2,3)
proof (induction ovs)
  case (Cons ov ovs)
  then have "export_overload_dispatch ex opted order undef acc ovs argc = export_overload_dispatch ex opted order undef acc' ovs argc"
    by simp
  then show ?case using Cons.prems by (simp only: export_overload_dispatch.simps candidate_accessor [OF assms(1)] list.pred_inject)
qed simp

text \<open>
  C13: behind Node-API's fixed argument buffer an overload group answers exactly as it does over the
  caller's own argument list, however many arguments the caller passes: the same result or
  error and the same effects. The buffer, sized by the longest contract, never cuts off an argument a
  candidate reads, and its padding is never read.
\<close>

theorem argv_dispatch_exact:
  assumes "evaluation_order order"
  shows "let dispatch = (\<lambda>acc ds. export_overload_dispatch ex opted order undef acc
        (create_export_overload_binder env sgs slots) (length args) (ds, w));
      buffered = dispatch (argv_accessor (max_callable_arity sgs)) (overload_argv fill (max_callable_arity sgs) args);
      direct = dispatch vector_accessor args
    in fst buffered = fst direct \<and> snd (snd buffered) = snd (snd direct)"
proof -
  let ?n = "max_callable_arity sgs" and ?ovs = "create_export_overload_binder env sgs slots"
  let ?buffer = "overload_argv fill ?n args"
  let ?run = "\<lambda>acc. export_overload_dispatch ex opted order undef acc ?ovs (length args)"
  have "list_all (can_access (argv_accessor ?n)) ?ovs" "list_all (can_access vector_accessor) ?ovs"
    by (simp_all add: list_all_iff create_export_overload_binder_def can_access_def argv_accessor_def
        vector_accessor_def signature_arity_le_max)
  then have acc: "?run (argv_accessor ?n) = ?run vector_accessor"
    by (intro dispatch_accessor) (simp_all add: argv_accessor_def vector_accessor_def)
  show ?thesis
  proof (cases "length args \<le> ?n")
    case True
    have "reads_first (length args) (?run vector_accessor)"
      by (rule reads_first_dispatch [OF assms]) (simp add: vector_accessor_def)
    moreover have "take (length args) ?buffer = take (length args) args" "length args \<le> length ?buffer"
      using True by (simp_all add: overload_argv_def)
    ultimately obtain r w' where "?run vector_accessor (?buffer, w) = (r, (?buffer, w'))"
        "?run vector_accessor (args, w) = (r, (args, w'))"
      by (metis reads_firstE order_refl)
    then show ?thesis by (simp add: acc Let_def)
  next
    case False
    have "length args \<notin> callable_arity ` set ?ovs"
      using False signature_arity_le_max by (fastforce simp: create_export_overload_binder_def)
    then show ?thesis by (simp add: dispatch_no_arity Let_def act_return_def)
  qed
qed

theorem argv_dispatch_exact_witness:
  "let dispatch = (\<lambda>acc ds. export_overload_dispatch True False (\<lambda>n. rev [0..<n]) 0 acc
        (create_export_overload_binder sample_type_env [sample_signature 1, sample_signature 2] (map slot_of sample_binds))
        (length [4, 5 :: nat]) (ds, 0));
      buffered = dispatch (argv_accessor (max_callable_arity [sample_signature 1, sample_signature 2]))
        (overload_argv 9 (max_callable_arity [sample_signature 1, sample_signature 2]) [4, 5]);
      direct = dispatch vector_accessor [4, 5]
    in fst buffered = fst direct \<and> snd (snd buffered) = snd (snd direct)"
  by (rule argv_dispatch_exact) simp

end
