(* ===== verification/ImportCall.thy ===== *)
theory ImportCall
  imports PyExport NapiClass
begin

section \<open>Calling imported contracts\<close>

text \<open>
  How the arguments of an imported function or member are lowered to the dynamic side
  (\<open>dynabridge/bridge_arg.h\<close>, and \<open>import_contract_backend_invoker\<close> of
  \<open>dynabridge/backend_base.h\<close>), put together with the calls of the two owning backends. A declared
  parameter is a value, an imported object or a C++ callable to export; each actual argument
  is one of these.
\<close>

datatype ('v, 'o, 'c) import_actual = ValueActual 'v | ObjectActual 'o | CallableActual 'c

text \<open>
  \<open>import_argument::lower\<close> in its three forms: \<open>to_cast\<close>, \<open>to_dynamic_object\<close> on the delegate's
  object, and \<open>make_export_group_callable\<close>.
\<close>

definition import_argument_lower ::
    "('v \<Rightarrow> ('s, 'd) action) \<Rightarrow> ('o \<Rightarrow> ('s, 'd) action) \<Rightarrow> ('c \<Rightarrow> ('s, 'd) action) \<Rightarrow>
     ('v, 'o, 'c) import_actual \<Rightarrow> ('s, 'd) action" where
  "import_argument_lower to_cast to_object to_callable actual =
     (case actual of
        ValueActual v \<Rightarrow> to_cast v
      | ObjectActual ob \<Rightarrow> to_object ob
      | CallableActual c \<Rightarrow> to_callable c)"

text \<open>
  The arguments of \<open>invoke_impl\<close> by position: for a member call the receiver's object comes first. All
  of them are evaluated in the order the compiler chose.
\<close>

definition contract_arguments :: "'o option \<Rightarrow> ('v, 'o, 'c) import_actual list \<Rightarrow> ('v, 'o, 'c) import_actual list" where
  "contract_arguments receiver actuals =
     (case receiver of None \<Rightarrow> actuals | Some ob \<Rightarrow> ObjectActual ob # actuals)"

subsection \<open>Python\<close>

definition py_lower ::
    "'w py_api \<Rightarrow> ('v \<Rightarrow> ('w py, nat option) action) \<Rightarrow> ('v, nat option, nat option) import_actual \<Rightarrow>
     ('w py, nat option) action" where
  "py_lower api to_cast = import_argument_lower to_cast to_dynamic_object (make_callable api)"

definition py_invoke_contract ::
    "'w py_api \<Rightarrow> bool \<Rightarrow> (nat \<Rightarrow> nat list) \<Rightarrow> string \<Rightarrow> ('v \<Rightarrow> ('w py, nat option) action) \<Rightarrow>
     (nat \<Rightarrow> ('w py, 'n) action) \<Rightarrow> nat option \<Rightarrow> nat option option \<Rightarrow>
     ('v, nat option, nat option) import_actual list \<Rightarrow> ('w py, 'n) action" where
  "py_invoke_contract api vector order msg to_cast convert callable receiver actuals =
     (let args = contract_arguments receiver actuals in
      py_invoke api vector order msg convert callable (\<lambda>i. py_lower api to_cast (args ! i)) (length args))"

text \<open>
  What makes an argument sound: a converter that returns an owned object or throws, a delegate
  that has an object, a callable object that can be made.
\<close>

definition py_actual_ok ::
    "'w py_api \<Rightarrow> ('v \<Rightarrow> ('w py, nat option) action) \<Rightarrow> ('v, nat option, nat option) import_actual \<Rightarrow> bool" where
  "py_actual_ok api to_cast actual \<longleftrightarrow>
     (case actual of
        ValueActual v \<Rightarrow> lowers (to_cast v)
      | ObjectActual ob \<Rightarrow> ob \<noteq> None
      | CallableActual ty \<Rightarrow> (\<forall>s s'. make_callable api ty s \<noteq> (Return None, s')))"

lemma lowers_object: "lowers (to_dynamic_object (Some x))"
proof -
  have "owns {#} (to_dynamic_object (Some x)) opt_mset"
  proof (rule ownsI)
    fix s r s' assume s: "py_ok s" and "to_dynamic_object (Some x) s = (r, s')"
    then have "r = Return (Some x)" "s' = py_xincref (Some x) s" by (simp_all add: to_dynamic_object_def)
    then show "py_ok s' \<and> py_held s' = py_held s - {#} + outcome_refs opt_mset r"
      using bump_ok(1,2) [OF s, of "Some x"] by simp
  qed
  then show ?thesis by (simp add: lowers_def to_dynamic_object_def)
qed

lemma py_lower_ok:
  assumes "lawful_api api" "py_actual_ok api to_cast actual"
  shows "lowers (py_lower api to_cast actual)"
proof (cases actual)
  case (ObjectActual ob)
  then show ?thesis using assms lowers_object
    by (auto simp: py_lower_def import_argument_lower_def py_actual_ok_def)
qed (use assms owns_make_callable [OF assms(1)] in
  \<open>auto simp: py_lower_def import_argument_lower_def py_actual_ok_def lowers_def\<close>)

text \<open>
  Calling an imported Python function or member, with values, objects and callables as arguments
  evaluated in any order, conserves references: whatever converts, throws or fails on the way,
  native code owns afterwards exactly what it owned before, and the interpreter's state is sound.
\<close>

theorem python_contract_call_conserves:
  assumes "lawful_api api" "evaluation_order order" "\<forall>x. owns {#} (convert x) (\<lambda>_. {#})"
    and "list_all (py_actual_ok api to_cast) (contract_arguments receiver actuals)"
    and "py_ok s" "py_invoke_contract api vector order msg to_cast convert callable receiver actuals s = (r, s')"
  shows "py_ok s' \<and> py_held s' = py_held s + outcome_refs (\<lambda>_. {#}) r"
proof -
  have "\<forall>i < length (contract_arguments receiver actuals). lowers (py_lower api to_cast (contract_arguments receiver actuals ! i))"
    using py_lower_ok [OF assms(1)] assms(4) by (auto simp: list_all_length)
  from ownsD [OF owns_py_invoke [OF assms(1,2) this] assms(5) _ assms(6) [unfolded py_invoke_contract_def Let_def]]
  show ?thesis using assms(3) by simp
qed

definition sample_actuals :: "(nat, nat option, nat option) import_actual list" where
  "sample_actuals = [ValueActual 3, ObjectActual (Some 4)]"

theorem python_contract_call_conserves_witness:
  "case py_invoke_contract sample_api True (\<lambda>n. rev [0..<n]) ''call'' sample_arg (\<lambda>x. act_return (1 :: nat)) (Some 5)
      (Some (Some 8)) sample_actuals (sample_py {#}) of
    (r, s') \<Rightarrow> py_ok s' \<and> py_held s' = py_held (sample_py {#}) + outcome_refs (\<lambda>_. {#}) r"
proof -
  obtain r s' where i: "py_invoke_contract sample_api True (\<lambda>n. rev [0..<n]) ''call'' sample_arg
      (\<lambda>x. act_return (1 :: nat)) (Some 5) (Some (Some 8)) sample_actuals (sample_py {#}) = (r, s')"
    by fastforce
  have "list_all (py_actual_ok sample_api sample_arg) (contract_arguments (Some (Some 8)) sample_actuals)"
    by (simp add: contract_arguments_def sample_actuals_def py_actual_ok_def sample_arg_lowers)
  then have "py_ok s' \<and> py_held s' = py_held (sample_py {#}) + outcome_refs (\<lambda>_. {#}) r"
    by (intro python_contract_call_conserves [OF sample_lawful evaluation_order_rev _ _ sample_py_ok i])
      (simp_all add: owns_pure)
  then show ?thesis by (simp only: i prod.case)
qed

text \<open>
  A callable argument that cannot be made is passed on all the same. When the interpreter cannot
  allocate the callable object, lowering it yields a null argument without an exception, and the
  vectorcall gets a null entry in its argument array, which the C API does not allow.
\<close>

theorem python_null_callable_argument:
  "lower_args api [0] (\<lambda>i. py_lower api to_cast ([CallableActual None] ! i)) [GuardArg None] s
     = (Return [GuardArg None], s) \<and>
   call_vector api (Some c) [GuardArg None] s =
     (case api_vectorcall api c [None] s of
        (None, s1) \<Rightarrow> py_throw api ''Python callable returned null'' s1
      | (Some x, s1) \<Rightarrow> (Return (Some x), py_own (Some x) s1))"
  by (simp add: py_lower_def import_argument_lower_def make_callable_def make_callable_object_def own_import_value_def
      call_vector_def decref_args_def drop_guards_def object_ref_destroy_def py_xdecref_def split: option.split prod.split)

subsection \<open>Node-API\<close>

text \<open>A callable argument has a name and a holder; values need no guard, the handle scope keeps them.\<close>

definition napi_lower ::
    "'w napi_api \<Rightarrow> nat option \<Rightarrow> ('v \<Rightarrow> ('w napi, nat option) action) \<Rightarrow>
     ('v, na_object, string \<times> nat) import_actual \<Rightarrow> ('w napi, nat option) action" where
  "napi_lower api env to_cast =
     import_argument_lower to_cast (napi_to_dynamic_object api)
       (\<lambda>(name, h). act_bind (napi_make_export_callable api env name h) (\<lambda>f. act_return (Some f)))"

definition napi_invoke_contract ::
    "'w napi_api \<Rightarrow> (nat \<Rightarrow> nat list) \<Rightarrow> ('v \<Rightarrow> ('w napi, nat option) action) \<Rightarrow>
     (nat \<Rightarrow> ('w napi, 'n) action) \<Rightarrow> na_context \<Rightarrow> na_object option \<Rightarrow>
     ('v, na_object, string \<times> nat) import_actual list \<Rightarrow> 'w napi \<Rightarrow> 'n outcome \<times> na_context \<times> 'w napi" where
  "napi_invoke_contract api order to_cast convert ctx receiver actuals =
     (let args = contract_arguments receiver actuals in
      napi_invoke api order convert ctx None (\<lambda>i. napi_lower api (cx_env ctx) to_cast (args ! i)) (length args))"

lemma napi_lower_keeps:
  assumes "lawful_napi api" "\<And>v. keeps {#} (to_cast v) (\<lambda>_. {#})"
  shows "keeps {#} (napi_lower api env to_cast actual) (\<lambda>_. {#})"
proof (cases actual)
  case (ValueActual v)
  then show ?thesis using assms(2) by (simp add: napi_lower_def import_argument_lower_def)
next
  case (ObjectActual ob)
  have "keeps {#} (\<lambda>s. case object_get api ob s of (v, s') \<Rightarrow> act_return v s') (\<lambda>_. {#})"
    by (rule keeps_after_quiet [OF object_get_quiet [OF assms(1)]]) (rule keeps_return)
  then show ?thesis
    by (simp add: ObjectActual napi_lower_def import_argument_lower_def napi_to_dynamic_object_def [abs_def] act_return_def)
next
  case (CallableActual c)
  have "keeps {#} (act_bind (napi_make_export_callable api env name h) (\<lambda>f. act_return (Some f))) (\<lambda>_. {#})" for name h
    unfolding napi_make_export_callable_def
    by (rule keeps_bind [OF keeps_make_function(1) [OF assms(1)]]) (rule keeps_return)
  then show ?thesis
    by (cases c) (simp add: CallableActual napi_lower_def import_argument_lower_def)
qed

text \<open>
  C25: calling an imported JavaScript function or member, with any mix of values, objects and callables
  evaluated in any order, leaves native code with exactly the resources it had, and the context with the
  callable it had, whether the call returns or throws, and wherever it fails.
\<close>

theorem napi_contract_call_conserves:
  assumes "lawful_napi api" "\<And>v. keeps {#} (to_cast v) (\<lambda>_. {#})" "\<And>x. keeps {#} (convert x) (\<lambda>_. {#})"
    and "\<not> na_fault s" "napi_invoke_contract api order to_cast convert ctx receiver actuals s = (r, ctx', s')"
  shows "\<not> na_fault s' \<and> na_held s' = na_held s \<and> context_held ctx' = context_held ctx \<and> cx_env ctx' = cx_env ctx"
proof -
  have "keeps_ctx ctx {#} (napi_invoke_contract api order to_cast convert ctx receiver actuals) (\<lambda>_. {#})"
    unfolding napi_invoke_contract_def Let_def
    by (intro napi_invoke_keeps napi_lower_keeps assms(1-3))
  then have k: "keeps {#} (\<lambda>s. case napi_invoke_contract api order to_cast convert ctx receiver actuals s of
        (r, ctx', s') \<Rightarrow> (r, s')) (\<lambda>_. {#})"
    and c: "context_held ctx' = context_held ctx" "cx_env ctx' = cx_env ctx"
    unfolding keeps_ctx_def using assms(5) by (simp, metis fst_conv snd_conv, metis fst_conv snd_conv)
  have "\<not> na_fault s' \<and> na_held s' = na_held s + outcome_held (\<lambda>_. {#}) r"
    by (rule keepsD [OF k assms(4), of "na_held s"]) (simp_all add: assms(5))
  then show ?thesis using c by (cases r) simp_all
qed

definition sample_context :: na_context where
  "sample_context =
     \<lparr>cx_env = Some 1, cx_callable = \<lparr>ob_env = Some 1, ob_ref = Some 3\<rparr>, cx_callable_cache = None, cx_this_cache = None\<rparr>"

theorem napi_contract_call_conserves_witness:
  "case napi_invoke_contract sample_napi (\<lambda>n. rev [0..<n]) (\<lambda>v. act_return (Some v)) (\<lambda>x. act_return x)
      sample_context (Some \<lparr>ob_env = Some 1, ob_ref = None\<rparr>) [ValueActual 3, CallableActual (''f'', 7)] (sample_env {#}) of
    (r, ctx', s') \<Rightarrow> \<not> na_fault s' \<and> na_held s' = {#} \<and> r = Return 8"
proof -
  let ?call = "napi_invoke_contract sample_napi (\<lambda>n. rev [0..<n]) (\<lambda>v. act_return (Some v)) (\<lambda>x. act_return x)
      sample_context (Some \<lparr>ob_env = Some 1, ob_ref = None\<rparr>) [ValueActual 3, CallableActual (''f'', 7)] (sample_env {#})"
  obtain r ctx' s' where c: "?call = (r, ctx', s')" by (metis prod_cases3)
  have "\<not> na_fault s' \<and> na_held s' = na_held (sample_env {#}) \<and>
      context_held ctx' = context_held sample_context \<and> cx_env ctx' = cx_env sample_context"
    by (rule napi_contract_call_conserves [OF sample_napi_lawful _ _ _ c]) (simp_all add: sample_env_def keeps_return)
  moreover have "fst ?call = Return 8" by code_simp
  ultimately show ?thesis unfolding c prod.case fst_conv by (simp add: sample_env_def)
qed

end
