(* ===== verification/ImportSelect.thy ===== *)
theory ImportSelect
  imports Schema ImportCall "HOL-Library.Multiset"
begin

section \<open>Overloads of imported functions\<close>

text \<open>
  How a call of an imported function, member or constructor picks its contract
  (\<open>dynabridge/import_callable.h\<close>, \<open>bridge_arg.h\<close>). The library declares
  one function \<open>select\<close> per contract of the group and lets the compiler resolve the
  call; the contract selected then lowers the arguments.
\<close>

subsection \<open>Declared parameters\<close>

text \<open>A parameter is a value of a type, an imported object or a C++ callable to export.\<close>

datatype bridge_param =
    ValueParam ctype
  | ObjectParam bytes
  | CallableParam bytes

datatype import_contract = UnmatchedContract | Contract ctype "bridge_param list"

text \<open>
  \<open>import_parameter_t\<close>: the type \<open>select\<close> declares for a parameter.
\<close>

datatype import_parameter = ByType ctype | DelegateRef bytes | AnyCallable bytes

definition import_parameter_of :: "bridge_param \<Rightarrow> import_parameter" where
  "import_parameter_of p =
     (case p of ValueParam t \<Rightarrow> ByType t | ObjectParam k \<Rightarrow> DelegateRef k | CallableParam g \<Rightarrow> AnyCallable g)"

text \<open>
  What the language says of an actual argument: whether it converts implicitly to a parameter's
  type, and which of two conversions is the better one. The constructor template of
  \<open>import_callable_argument\<close> takes anything.
\<close>

record 'a conversions =
  cv_converts :: "'a \<Rightarrow> import_parameter \<Rightarrow> bool"
  cv_better :: "'a \<Rightarrow> import_parameter \<Rightarrow> import_parameter \<Rightarrow> bool"

definition argument_converts :: "'a conversions \<Rightarrow> 'a \<Rightarrow> import_parameter \<Rightarrow> bool" where
  "argument_converts conv a p = (case p of AnyCallable g \<Rightarrow> True | _ \<Rightarrow> cv_converts conv a p)"

text \<open>Of two conversions of an argument at most one is better.\<close>

definition strict_conversions :: "'a conversions \<Rightarrow> bool" where
  "strict_conversions conv \<longleftrightarrow> (\<forall>a p q. cv_better conv a p q \<longrightarrow> \<not> cv_better conv a q p)"

subsection \<open>Selection\<close>

text \<open>
  The functions \<open>select\<close> that \<open>import_contract_selector_group\<close> brings into
  scope: one for each contract, deleted for the placeholder that ends a generated group. Before
  C++17 the group is a chain of bases, which ends in a deleted function of two parameters.
\<close>

datatype candidate = Selects ctype "bridge_param list" | DeletedFunction "import_parameter list"

definition contract_selector :: "import_contract \<Rightarrow> candidate" where
  "contract_selector c =
     (case c of
        UnmatchedContract \<Rightarrow> DeletedFunction [ByType UnmatchedCallable]
      | Contract r ps \<Rightarrow> Selects r ps)"

fun selector_group :: "bool \<Rightarrow> import_contract list \<Rightarrow> candidate list" where
  "selector_group cpp17 [] = (if cpp17 then [] else [DeletedFunction [ByType UnmatchedCallable, ByType UnmatchedCallable]])"
| "selector_group cpp17 (head # tail) = contract_selector head # selector_group cpp17 tail"

definition candidate_params :: "candidate \<Rightarrow> import_parameter list" where
  "candidate_params f = (case f of Selects r ps \<Rightarrow> map import_parameter_of ps | DeletedFunction qs \<Rightarrow> qs)"

text \<open>
  Overload resolution: a candidate is viable when the counts agree and every argument converts; it
  is better than another when no argument converts worse and some argument converts better; the call
  is of the candidate that is better than all others.
\<close>

definition viable :: "'a conversions \<Rightarrow> 'a list \<Rightarrow> candidate \<Rightarrow> bool" where
  "viable conv actuals f \<longleftrightarrow> list_all2 (argument_converts conv) actuals (candidate_params f)"

fun no_worse :: "'a conversions \<Rightarrow> 'a list \<Rightarrow> import_parameter list \<Rightarrow> import_parameter list \<Rightarrow> bool" where
  "no_worse conv (a # as) (p # ps) (q # qs) = (\<not> cv_better conv a q p \<and> no_worse conv as ps qs)"
| "no_worse conv _ _ _ = True"

fun some_better :: "'a conversions \<Rightarrow> 'a list \<Rightarrow> import_parameter list \<Rightarrow> import_parameter list \<Rightarrow> bool" where
  "some_better conv (a # as) (p # ps) (q # qs) = (cv_better conv a p q \<or> some_better conv as ps qs)"
| "some_better conv _ _ _ = False"

definition better_candidate :: "'a conversions \<Rightarrow> 'a list \<Rightarrow> candidate \<Rightarrow> candidate \<Rightarrow> bool" where
  "better_candidate conv actuals f g \<longleftrightarrow>
     no_worse conv actuals (candidate_params f) (candidate_params g) \<and>
     some_better conv actuals (candidate_params f) (candidate_params g)"

datatype selection = Selected ctype "bridge_param list" | NoMatch | Ambiguous | UseOfDeleted

definition best_of :: "'a conversions \<Rightarrow> 'a list \<Rightarrow> candidate list \<Rightarrow> candidate list" where
  "best_of conv actuals fs = filter (\<lambda>f. list_all (better_candidate conv actuals f) (remove1 f fs)) fs"

definition import_select :: "bool \<Rightarrow> 'a conversions \<Rightarrow> import_contract list \<Rightarrow> 'a list \<Rightarrow> selection" where
  "import_select cpp17 conv contracts actuals =
     (let fs = filter (viable conv actuals) (selector_group cpp17 contracts) in
      case best_of conv actuals fs of
        [] \<Rightarrow> if fs = [] then NoMatch else Ambiguous
      | f # _ \<Rightarrow> (case f of Selects r ps \<Rightarrow> Selected r ps | DeletedFunction qs \<Rightarrow> UseOfDeleted))"

lemma better_asym:
  assumes "strict_conversions conv" "no_worse conv as ps qs" "some_better conv as ps qs"
  shows "\<not> no_worse conv as qs ps"
  using assms(2,3) by (induction conv as ps qs rule: no_worse.induct) auto

lemma better_candidate_asym:
  "strict_conversions conv \<Longrightarrow> better_candidate conv actuals f g \<Longrightarrow> \<not> better_candidate conv actuals g f"
  using better_asym by (auto simp: better_candidate_def)

definition beats :: "'a conversions \<Rightarrow> 'a list \<Rightarrow> candidate multiset \<Rightarrow> candidate \<Rightarrow> bool" where
  "beats conv actuals M f \<longleftrightarrow> (\<forall>g \<in># M. better_candidate conv actuals f g)"

lemma mset_best_of:
  "mset (best_of conv actuals fs) = filter_mset (\<lambda>f. beats conv actuals (mset fs - {#f#}) f) (mset fs)"
  by (simp add: best_of_def beats_def list_all_iff flip: mset_remove1 set_mset_mset)

lemma filter_beats:
  assumes "strict_conversions conv" "f \<in># M" "beats conv actuals (M - {#f#}) f"
  shows "filter_mset (\<lambda>g. beats conv actuals (M - {#g#}) g) M = {#f#}"
proof -
  obtain N where M: "M = add_mset f N" using assms(2) by (metis insert_DiffM)
  have f: "better_candidate conv actuals f g" if "g \<in># N" for g using assms(3) that by (simp add: M beats_def)
  have "\<not> beats conv actuals (M - {#g#}) g" if "g \<in># N" for g
  proof
    assume b: "beats conv actuals (M - {#g#}) g"
    have "f \<noteq> g" using f [OF that] better_candidate_asym [OF assms(1)] by blast
    then have "f \<in># M - {#g#}" by (simp add: M)
    with b have "better_candidate conv actuals g f" by (simp add: beats_def)
    with f [OF that] better_candidate_asym [OF assms(1)] show False by blast
  qed
  then have "filter_mset (\<lambda>g. beats conv actuals (M - {#g#}) g) N = filter_mset (\<lambda>_. False) N"
    by (intro filter_mset_cong) auto
  then show ?thesis using assms(3) by (simp add: M)
qed

lemma best_of_eq:
  assumes "strict_conversions conv"
  shows "f \<in># mset fs \<Longrightarrow> beats conv actuals (mset fs - {#f#}) f \<Longrightarrow> best_of conv actuals fs = [f]"
    and "f \<in> set (best_of conv actuals fs) \<Longrightarrow> f \<in># mset fs \<and> beats conv actuals (mset fs - {#f#}) f"
proof -
  assume "f \<in># mset fs" "beats conv actuals (mset fs - {#f#}) f"
  then have "mset (best_of conv actuals fs) = {#f#}" by (simp add: mset_best_of filter_beats [OF assms])
  then show "best_of conv actuals fs = [f]" by (metis mset_single_iff)
next
  assume "f \<in> set (best_of conv actuals fs)"
  then have "f \<in># mset (best_of conv actuals fs)" by simp
  then show "f \<in># mset fs \<and> beats conv actuals (mset fs - {#f#}) f" unfolding mset_best_of by simp
qed

text \<open>The candidates that can be called, without regard to their order.\<close>

definition viable_set :: "bool \<Rightarrow> 'a conversions \<Rightarrow> import_contract list \<Rightarrow> 'a list \<Rightarrow> candidate multiset" where
  "viable_set cpp17 conv contracts actuals = filter_mset (viable conv actuals) (mset (selector_group cpp17 contracts))"

lemma mset_selector_group:
  "mset (selector_group cpp17 contracts) = image_mset contract_selector (mset contracts) +
     (if cpp17 then {#} else {#DeletedFunction [ByType UnmatchedCallable, ByType UnmatchedCallable]#})"
  by (induction contracts) auto

lemma import_select_eq:
  assumes "strict_conversions conv"
  shows "f \<in># viable_set cpp17 conv contracts actuals \<Longrightarrow>
      beats conv actuals (viable_set cpp17 conv contracts actuals - {#f#}) f \<Longrightarrow>
      import_select cpp17 conv contracts actuals = (case f of Selects r ps \<Rightarrow> Selected r ps | DeletedFunction qs \<Rightarrow> UseOfDeleted)"
    and "(\<And>f. f \<in># viable_set cpp17 conv contracts actuals \<Longrightarrow>
        \<not> beats conv actuals (viable_set cpp17 conv contracts actuals - {#f#}) f) \<Longrightarrow>
      import_select cpp17 conv contracts actuals =
        (if viable_set cpp17 conv contracts actuals = {#} then NoMatch else Ambiguous)"
proof -
  let ?fs = "filter (viable conv actuals) (selector_group cpp17 contracts)"
  have v: "mset ?fs = viable_set cpp17 conv contracts actuals" by (simp add: viable_set_def)
  then have e: "?fs = [] \<longleftrightarrow> viable_set cpp17 conv contracts actuals = {#}" by (metis mset_zero_iff)
  show "import_select cpp17 conv contracts actuals = (case f of Selects r ps \<Rightarrow> Selected r ps | DeletedFunction qs \<Rightarrow> UseOfDeleted)"
    if "f \<in># viable_set cpp17 conv contracts actuals" "beats conv actuals (viable_set cpp17 conv contracts actuals - {#f#}) f"
    using best_of_eq(1) [OF assms, of f ?fs actuals] that unfolding v by (simp add: import_select_def Let_def)
  assume n: "\<And>f. f \<in># viable_set cpp17 conv contracts actuals \<Longrightarrow>
        \<not> beats conv actuals (viable_set cpp17 conv contracts actuals - {#f#}) f"
  have "f \<notin> set (best_of conv actuals ?fs)" for f
    using best_of_eq(2) [OF assms, of f actuals ?fs, unfolded v] n by blast
  then have "best_of conv actuals ?fs = []" by (metis list.set_intros(1) neq_Nil_conv)
  then show "import_select cpp17 conv contracts actuals =
        (if viable_set cpp17 conv contracts actuals = {#} then NoMatch else Ambiguous)"
    using e by (simp add: import_select_def Let_def)
qed

lemma import_select_cong:
  assumes "strict_conversions conv" "viable_set a conv cs actuals = viable_set b conv cs' actuals"
  shows "import_select a conv cs actuals = import_select b conv cs' actuals"
proof (cases "\<exists>f. f \<in># viable_set b conv cs' actuals \<and> beats conv actuals (viable_set b conv cs' actuals - {#f#}) f")
  case True
  then obtain f where "f \<in># viable_set b conv cs' actuals" "beats conv actuals (viable_set b conv cs' actuals - {#f#}) f"
    by blast
  then show ?thesis
    using import_select_eq(1) [OF assms(1), of f a cs actuals] import_select_eq(1) [OF assms(1), of f b cs' actuals] assms(2)
    by simp
next
  case False
  then show ?thesis
    using import_select_eq(2) [OF assms(1), of a cs actuals] import_select_eq(2) [OF assms(1), of b cs' actuals] assms(2)
    by auto
qed

text \<open>The placeholder type has no values but its own, which no program passes.\<close>

definition no_placeholder :: "'a conversions \<Rightarrow> 'a list \<Rightarrow> bool" where
  "no_placeholder conv actuals \<longleftrightarrow> list_all (\<lambda>a. \<not> cv_converts conv a (ByType UnmatchedCallable)) actuals"

lemma placeholder_not_viable:
  "no_placeholder conv actuals \<Longrightarrow> qs \<noteq> [] \<Longrightarrow> set qs = {ByType UnmatchedCallable} \<Longrightarrow>
     \<not> viable conv actuals (DeletedFunction qs)"
  by (cases qs; cases actuals) (auto simp: viable_def candidate_params_def no_placeholder_def argument_converts_def)

lemma viable_set_contracts:
  assumes "no_placeholder conv actuals"
  shows "viable_set cpp17 conv contracts actuals =
     filter_mset (viable conv actuals) (image_mset contract_selector (filter_mset (\<lambda>c. c \<noteq> UnmatchedContract) (mset contracts)))"
proof -
  have "\<not> viable conv actuals (DeletedFunction [ByType UnmatchedCallable])"
    "\<not> viable conv actuals (DeletedFunction [ByType UnmatchedCallable, ByType UnmatchedCallable])"
    by (simp_all add: placeholder_not_viable [OF assms])
  then show ?thesis
    unfolding viable_set_def mset_selector_group
    by (induction contracts) (auto simp: contract_selector_def)
qed

lemma import_select_Selected:
  assumes "strict_conversions conv"
  shows "import_select cpp17 conv contracts actuals = Selected r ps \<longleftrightarrow>
    Selects r ps \<in># viable_set cpp17 conv contracts actuals \<and>
    beats conv actuals (viable_set cpp17 conv contracts actuals - {#Selects r ps#}) (Selects r ps)"
proof
  assume sel: "import_select cpp17 conv contracts actuals = Selected r ps"
  then obtain f where f: "f \<in># viable_set cpp17 conv contracts actuals"
    "beats conv actuals (viable_set cpp17 conv contracts actuals - {#f#}) f"
    using import_select_eq(2) [OF assms, of cpp17 contracts actuals] by (metis selection.distinct(1,3))
  with import_select_eq(1) [OF assms f] sel have "f = Selects r ps" by (cases f) simp_all
  with f show "Selects r ps \<in># viable_set cpp17 conv contracts actuals \<and>
    beats conv actuals (viable_set cpp17 conv contracts actuals - {#Selects r ps#}) (Selects r ps)" by simp
qed (use import_select_eq(1) [OF assms] in fastforce)

text \<open>Whether a contract can take the arguments, and whether it takes them better than another.\<close>

definition contract_matches :: "'a conversions \<Rightarrow> 'a list \<Rightarrow> import_contract \<Rightarrow> bool" where
  "contract_matches conv actuals c =
     (case c of
        UnmatchedContract \<Rightarrow> False
      | Contract r ps \<Rightarrow> list_all2 (argument_converts conv) actuals (map import_parameter_of ps))"

definition better_contract :: "'a conversions \<Rightarrow> 'a list \<Rightarrow> import_contract \<Rightarrow> import_contract \<Rightarrow> bool" where
  "better_contract conv actuals c d = better_candidate conv actuals (contract_selector c) (contract_selector d)"

lemma viable_set_matching:
  assumes "no_placeholder conv actuals"
  shows "viable_set cpp17 conv contracts actuals =
     image_mset contract_selector (filter_mset (contract_matches conv actuals) (mset contracts))"
proof -
  have "c \<noteq> UnmatchedContract \<and> viable conv actuals (contract_selector c) \<longleftrightarrow> contract_matches conv actuals c" for c
    by (cases c) (simp_all add: contract_matches_def viable_def contract_selector_def candidate_params_def)
  then show ?thesis unfolding viable_set_contracts [OF assms]
    by (simp add: filter_mset_image_mset multiset.map_comp filter_filter_mset conj_commute)
qed

lemma import_select_iff:
  assumes "strict_conversions conv" "no_placeholder conv actuals"
  shows "import_select cpp17 conv contracts actuals = Selected r ps \<longleftrightarrow>
    Contract r ps \<in> set contracts \<and> contract_matches conv actuals (Contract r ps) \<and>
    (\<forall>d \<in># mset contracts - {#Contract r ps#}.
       contract_matches conv actuals d \<longrightarrow> better_contract conv actuals (Contract r ps) d)"
proof -
  let ?M = "filter_mset (contract_matches conv actuals) (mset contracts)"
  have sel: "contract_selector d = Selects r ps \<longleftrightarrow> d = Contract r ps" for d
    by (cases d) (simp_all add: contract_selector_def)
  have mem: "Selects r ps \<in># image_mset contract_selector ?M \<longleftrightarrow> Contract r ps \<in># ?M"
    using sel by (metis (no_types, lifting) image_iff set_image_mset)
  have rest: "image_mset contract_selector ?M - {#Selects r ps#} = image_mset contract_selector (?M - {#Contract r ps#})"
    if "Contract r ps \<in># ?M"
  proof -
    from that obtain N where "?M = add_mset (Contract r ps) N" by (metis insert_DiffM)
    then show ?thesis using sel [of "Contract r ps"] by simp
  qed
  have others: "(\<forall>d \<in># ?M - {#Contract r ps#}. P d) \<longleftrightarrow>
      (\<forall>d \<in># mset contracts - {#Contract r ps#}. contract_matches conv actuals d \<longrightarrow> P d)"
    if "contract_matches conv actuals (Contract r ps)" for P
  proof -
    have "?M - {#Contract r ps#} = filter_mset (contract_matches conv actuals) (mset contracts - {#Contract r ps#})"
      using that by simp
    then show ?thesis by (metis (lifting) mem_Collect_eq set_mset_filter)
  qed
  have beats: "beats conv actuals (image_mset contract_selector (?M - {#Contract r ps#})) (Selects r ps) \<longleftrightarrow>
      (\<forall>d \<in># ?M - {#Contract r ps#}. better_contract conv actuals (Contract r ps) d)"
    using sel [of "Contract r ps"] by (simp add: beats_def better_contract_def)
  note sides = import_select_Selected [OF assms(1)] viable_set_matching [OF assms(2)] mem
  show ?thesis
  proof (cases "Contract r ps \<in># ?M")
    case True
    then have m: "Contract r ps \<in> set contracts" "contract_matches conv actuals (Contract r ps)" by simp_all
    show ?thesis
      unfolding sides rest [OF True] beats others [OF m(2)] by (simp only: True m simp_thms)
  next
    case False
    then have "\<not> (Contract r ps \<in> set contracts \<and> contract_matches conv actuals (Contract r ps))" by simp
    with False show ?thesis unfolding sides by blast
  qed
qed

text \<open>
  The call of an overloaded import picks the right contract. A contract is selected exactly
  when it is declared (once), takes the number of arguments given, each of which converts to its
  parameter, and is a better match than every other contract that does; the placeholder that ends
  each group is never selected.
\<close>

theorem import_selection_exact:
  assumes "strict_conversions conv" "no_placeholder conv actuals"
  shows "import_select cpp17 conv contracts actuals = Selected r ps \<longleftrightarrow>
    Contract r ps \<in> set contracts \<and> contract_matches conv actuals (Contract r ps) \<and>
    (\<forall>d \<in># mset contracts - {#Contract r ps#}.
       contract_matches conv actuals d \<longrightarrow> better_contract conv actuals (Contract r ps) d)"
  by (rule import_select_iff [OF assms])

text \<open>
  Which contract is called does not depend on the language standard, although the library builds the
  candidates in two ways, nor on the order in which a group declares its contracts.
\<close>

theorem import_selection_stable:
  assumes "strict_conversions conv" "no_placeholder conv actuals" "mset contracts = mset contracts'"
  shows "import_select cpp17 conv contracts actuals = import_select cpp17' conv contracts' actuals"
  by (rule import_select_cong [OF assms(1)]) (simp add: viable_set_matching [OF assms(2)] assms(3))

text \<open>
  An example: an overload for integers and one for floating-point numbers, called with an integer
  (0) or a floating-point number (1), each of which also converts to the other type.
\<close>

definition int_type :: ctype where "int_type = Named (ascii ''int'')"
definition double_type :: ctype where "double_type = Named (ascii ''double'')"

definition sample_conversions :: "nat conversions" where
  "sample_conversions =
     \<lparr>cv_converts = (\<lambda>a p. p = ByType int_type \<or> p = ByType double_type),
      cv_better = (\<lambda>a p q. if a = 0 then p = ByType int_type \<and> q = ByType double_type
        else p = ByType double_type \<and> q = ByType int_type)\<rparr>"

definition sample_group :: "import_contract list" where
  "sample_group = [Contract int_type [ValueParam int_type], Contract double_type [ValueParam double_type], UnmatchedContract]"

lemma sample_types: "int_type \<noteq> double_type" "int_type \<noteq> UnmatchedCallable" "double_type \<noteq> UnmatchedCallable"
  by (auto simp: int_type_def double_type_def dest: arg_cong [where f = length])

lemma sample_strict: "strict_conversions sample_conversions"
  using sample_types by (auto simp: strict_conversions_def sample_conversions_def)

lemma sample_no_placeholder: "no_placeholder sample_conversions actuals"
  using sample_types by (auto simp: no_placeholder_def sample_conversions_def list_all_iff)

theorem import_selection_exact_witness:
  "import_select True sample_conversions sample_group [1] = Selected double_type [ValueParam double_type]"
  by (rule import_selection_exact [THEN iffD2, OF sample_strict sample_no_placeholder])
    (use sample_types in \<open>auto simp: sample_group_def contract_matches_def sample_conversions_def argument_converts_def
        import_parameter_of_def better_contract_def better_candidate_def contract_selector_def candidate_params_def\<close>)

theorem import_selection_stable_witness:
  "import_select True sample_conversions sample_group [0] = import_select False sample_conversions (rev sample_group) [0]"
  by (rule import_selection_stable [OF sample_strict sample_no_placeholder]) (simp add: sample_group_def)

subsection \<open>Dispatch\<close>

text \<open>
  \<open>import_overload_dispatch\<close> and \<open>import_constructor_overload_dispatch\<close>:
  the contract selected is invoked, once the assertion on the number of arguments holds.
  \<open>None\<close> is a program the compiler rejects.
\<close>

definition import_overload_dispatch ::
    "bool \<Rightarrow> 'a conversions \<Rightarrow> import_contract list \<Rightarrow> 'a list \<Rightarrow> (ctype \<Rightarrow> bridge_param list \<Rightarrow> 'r) \<Rightarrow> 'r option" where
  "import_overload_dispatch cpp17 conv contracts actuals invoke =
     (case import_select cpp17 conv contracts actuals of
        Selected r ps \<Rightarrow> if length ps = length actuals then Some (invoke r ps) else None
      | _ \<Rightarrow> None)"

lemma selected_viable:
  assumes "import_select cpp17 conv contracts actuals = Selected r ps"
  shows "viable conv actuals (Selects r ps)"
proof -
  let ?fs = "filter (viable conv actuals) (selector_group cpp17 contracts)"
  obtain f fs where b: "best_of conv actuals ?fs = f # fs"
    using assms by (cases "best_of conv actuals ?fs") (auto simp: import_select_def Let_def split: if_splits)
  then have "f = Selects r ps" using assms by (cases f) (simp_all add: import_select_def Let_def)
  moreover have "f \<in> set (best_of conv actuals ?fs)" using b by simp
  then have "f \<in> set ?fs" by (simp add: best_of_def)
  ultimately show ?thesis by simp
qed

lemma dispatch_iff:
  "import_overload_dispatch cpp17 conv contracts actuals invoke = Some m \<longleftrightarrow>
     (\<exists>r ps. import_select cpp17 conv contracts actuals = Selected r ps \<and> length ps = length actuals \<and> m = invoke r ps)"
  using selected_viable [of cpp17 conv contracts actuals]
  by (auto simp: import_overload_dispatch_def viable_def candidate_params_def dest!: list_all2_lengthD split: selection.split)

text \<open>
  Each argument is lowered as the selected contract declares it; a value is converted to the
  declared type.
\<close>

definition import_actual_of ::
    "('a \<Rightarrow> 'o) \<Rightarrow> ('a \<Rightarrow> 'c) \<Rightarrow> bridge_param \<Rightarrow> 'a \<Rightarrow> (ctype \<times> 'a, 'o, 'c) import_actual" where
  "import_actual_of object_of callable_of p a =
     (case p of
        ValueParam t \<Rightarrow> ValueActual (t, a)
      | ObjectParam k \<Rightarrow> ObjectActual (object_of a)
      | CallableParam g \<Rightarrow> CallableActual (callable_of a))"

definition py_overloaded_call ::
    "'w py_api \<Rightarrow> bool \<Rightarrow> (nat \<Rightarrow> nat list) \<Rightarrow> string \<Rightarrow> bool \<Rightarrow> 'a conversions \<Rightarrow> import_contract list \<Rightarrow>
     (ctype \<times> 'a \<Rightarrow> ('w py, nat option) action) \<Rightarrow> (ctype \<Rightarrow> nat \<Rightarrow> ('w py, 'n) action) \<Rightarrow> ('a \<Rightarrow> nat option) \<Rightarrow>
     ('a \<Rightarrow> nat option) \<Rightarrow> nat option \<Rightarrow> nat option option \<Rightarrow> 'a list \<Rightarrow> ('w py, 'n) action option" where
  "py_overloaded_call api vector order msg cpp17 conv contracts to_cast from_result object_of callable_of callable receiver actuals =
     import_overload_dispatch cpp17 conv contracts actuals (\<lambda>r ps.
       py_invoke_contract api vector order msg to_cast (from_result r) callable receiver
         (map2 (import_actual_of object_of callable_of) ps actuals))"

text \<open>
  \<open>import_constructor_contract_invoker\<close>: the arguments are lowered, then the imported
  class is called and its object kept by the new receiver.
\<close>

definition py_import_construct ::
    "'w py_api \<Rightarrow> bool \<Rightarrow> (nat \<Rightarrow> nat list) \<Rightarrow> ('v \<Rightarrow> ('w py, nat option) action) \<Rightarrow> nat option \<Rightarrow>
     ('v, nat option, nat option) import_actual list \<Rightarrow> ('w py, nat option) action" where
  "py_import_construct api vector order to_cast callable actuals =
     act_bind (lower_args api (order (length actuals)) (\<lambda>i. py_lower api to_cast (actuals ! i))
         (replicate (length actuals) (GuardArg None)))
       (construct_import_object api vector callable)"

definition py_overloaded_construct ::
    "'w py_api \<Rightarrow> bool \<Rightarrow> (nat \<Rightarrow> nat list) \<Rightarrow> bool \<Rightarrow> 'a conversions \<Rightarrow> import_contract list \<Rightarrow>
     (ctype \<times> 'a \<Rightarrow> ('w py, nat option) action) \<Rightarrow> ('a \<Rightarrow> nat option) \<Rightarrow>
     ('a \<Rightarrow> nat option) \<Rightarrow> nat option \<Rightarrow> 'a list \<Rightarrow> ('w py, nat option) action option" where
  "py_overloaded_construct api vector order cpp17 conv contracts to_cast object_of callable_of callable actuals =
     import_overload_dispatch cpp17 conv contracts actuals (\<lambda>r ps.
       py_import_construct api vector order to_cast callable (map2 (import_actual_of object_of callable_of) ps actuals))"

lemma actuals_lowered:
  assumes "lawful_api api" "list_all (py_actual_ok api to_cast) actuals"
  shows "\<forall>i < length actuals. lowers (py_lower api to_cast (actuals ! i))"
  using assms py_lower_ok by (auto simp: list_all_length)

lemma owns_py_import_construct:
  assumes "lawful_api api" "evaluation_order order" "list_all (py_actual_ok api to_cast) actuals"
  shows "owns {#} (py_import_construct api vector order to_cast callable actuals) opt_mset"
  unfolding py_import_construct_def
  by (intro owns_lowered assms(1,2) actuals_lowered [OF assms(1,3)] owns_construct_import_object)



end
