(* ===== verification/AsyncImport.thy ===== *)
theory AsyncImport
  imports ImportSelect AsyncOp
begin

section \<open>Asynchronous imports\<close>

text \<open>
  The asynchronous view of an imported object (\<open>dynabridge/async_import.h\<close>): who keeps
  the context and the receiver alive while calls are under way, and how a call is prepared.
\<close>

subsection \<open>The receiver and its context\<close>

text \<open>
  A context under shared ownership and the boxes (\<open>owned_receiver\<close>) that hold a pointer
  to it and a receiver built on it. A storage and each call prepared from it share their box. The
  context has a count of pointers, each box one of its own. Ghosts: the pointers outside the boxes,
  whether the context is alive, and whether a receiver met a dead context or a pointer was released
  that does not exist.
\<close>

record async_world =
  aw_uses :: nat
  aw_owners :: nat
  aw_context :: bool
  aw_boxes :: "nat \<rightharpoonup> nat"
  aw_fault :: bool

definition context_owned_once :: async_world where
  "context_owned_once = \<lparr>aw_uses = 1, aw_owners = 1, aw_context = True, aw_boxes = Map.empty, aw_fault = False\<rparr>"

definition context_release :: "async_world \<Rightarrow> async_world" where
  "context_release w =
     w\<lparr>aw_uses := aw_uses w - 1, aw_context := aw_context w \<and> aw_uses w > 1, aw_fault := aw_fault w \<or> aw_uses w = 0\<rparr>"

text \<open>The receiver's constructor and destructor use the context.\<close>

definition receiver_uses_context :: "async_world \<Rightarrow> async_world" where
  "receiver_uses_context w = w\<lparr>aw_fault := aw_fault w \<or> \<not> aw_context w\<rparr>"

text \<open>
  The constructor of \<open>receiver_storage\<close> gets a copy of an owner, or a null pointer,
  which is an assertion failure. The box may fail to be built (\<open>built\<close>): no memory, or
  the receiver throws; then the pointer it was given is released.
\<close>

definition receiver_storage_make :: "bool \<Rightarrow> bool \<Rightarrow> nat \<Rightarrow> async_world \<Rightarrow> unit outcome \<times> async_world" where
  "receiver_storage_make owner built box w =
     (case require owner of
        Return _ \<Rightarrow>
          let w1 = receiver_uses_context (w\<lparr>aw_uses := aw_uses w + 1\<rparr>) in
          if built then (Return (), w1\<lparr>aw_boxes := (aw_boxes w1)(box \<mapsto> 1)\<rparr>)
          else (Throw UnknownException, context_release w1)
      | Throw e \<Rightarrow> (Throw e, w)
      | Abort \<Rightarrow> (Abort, w))"

text \<open>
  The members of a box are destroyed in reverse order: first the receiver, then the pointer to the
  context.
\<close>

definition owned_receiver_destroy :: "nat \<Rightarrow> async_world \<Rightarrow> async_world" where
  "owned_receiver_destroy box w = context_release (receiver_uses_context (w\<lparr>aw_boxes := (aw_boxes w)(box := None)\<rparr>))"

text \<open>
  A prepared call shares the receiver (\<open>receiver_\<close> aliases the box); storages and calls
  end in any order.
\<close>

definition receiver_share :: "nat \<Rightarrow> async_world \<Rightarrow> async_world" where
  "receiver_share box w =
     (case aw_boxes w box of None \<Rightarrow> w\<lparr>aw_fault := True\<rparr> | Some n \<Rightarrow> w\<lparr>aw_boxes := (aw_boxes w)(box \<mapsto> n + 1)\<rparr>)"

definition receiver_drop :: "nat \<Rightarrow> async_world \<Rightarrow> async_world" where
  "receiver_drop box w =
     (case aw_boxes w box of
        None \<Rightarrow> w\<lparr>aw_fault := True\<rparr>
      | Some n \<Rightarrow> if n \<le> 1 then owned_receiver_destroy box w else w\<lparr>aw_boxes := (aw_boxes w)(box \<mapsto> n - 1)\<rparr>)"

inductive async_step :: "async_world \<Rightarrow> async_world \<Rightarrow> bool" where
  async_own: "0 < aw_owners w \<Longrightarrow> async_step w (w\<lparr>aw_owners := aw_owners w + 1, aw_uses := aw_uses w + 1\<rparr>)"
| async_disown: "0 < aw_owners w \<Longrightarrow> async_step w (context_release (w\<lparr>aw_owners := aw_owners w - 1\<rparr>))"
| async_bind: "box \<notin> dom (aw_boxes w) \<Longrightarrow> async_step w (snd (receiver_storage_make (0 < aw_owners w) built box w))"
| async_share: "box \<in> dom (aw_boxes w) \<Longrightarrow> async_step w (receiver_share box w)"
| async_drop: "box \<in> dom (aw_boxes w) \<Longrightarrow> async_step w (receiver_drop box w)"

definition async_ok :: "async_world \<Rightarrow> bool" where
  "async_ok w \<longleftrightarrow> \<not> aw_fault w \<and> finite (dom (aw_boxes w)) \<and> aw_uses w = aw_owners w + card (dom (aw_boxes w)) \<and>
     aw_context w = (0 < aw_uses w)"

lemma async_ok_step:
  assumes "async_ok w" "async_step w w'"
  shows "async_ok w'"
  using assms(2)
proof cases
  case async_own
  with assms(1) show ?thesis by (simp add: async_ok_def)
next
  case async_disown
  with assms(1) show ?thesis by (auto simp: async_ok_def context_release_def)
next
  case (async_bind box built)
  then have "card (insert box (dom (aw_boxes w))) = card (dom (aw_boxes w)) + 1"
    using assms(1) by (simp add: async_ok_def)
  with async_bind assms(1) show ?thesis
    by (auto simp: async_ok_def receiver_storage_make_def require_def Let_def receiver_uses_context_def context_release_def
        split: if_splits)
next
  case (async_share box)
  then have "insert box (dom (aw_boxes w)) = dom (aw_boxes w)" by blast
  with async_share assms(1) show ?thesis by (auto simp: async_ok_def receiver_share_def)
next
  case (async_drop box)
  then have d: "insert box (dom (aw_boxes w)) = dom (aw_boxes w)" by blast
  obtain n where n: "aw_boxes w box = Some n" using async_drop(2) by blast
  have fin: "finite (dom (aw_boxes w))" using assms(1) by (simp add: async_ok_def)
  then have c: "Suc (card (dom (aw_boxes w) - {box})) = card (dom (aw_boxes w))"
    using async_drop(2) by (rule card_Suc_Diff1)
  have w: "\<not> aw_fault w" "aw_uses w = aw_owners w + Suc (card (dom (aw_boxes w) - {box}))" "aw_context w"
    using assms(1) unfolding async_ok_def c by (auto simp flip: c)
  show ?thesis
  proof (cases "n \<le> 1")
    case True
    have "dom ((aw_boxes w)(box := None)) = dom (aw_boxes w) - {box}" by simp
    with True w fin show ?thesis
      by (simp add: async_drop(1) receiver_drop_def n owned_receiver_destroy_def async_ok_def context_release_def
          receiver_uses_context_def del: card_Diff_insert)
  next
    case False
    with assms(1) n d show ?thesis by (simp add: async_drop(1) receiver_drop_def async_ok_def)
  qed
qed

interpretation async_receivers: invariant_machine "\<lambda>w. w = context_owned_once" async_step async_ok
proof
  show "w = context_owned_once \<Longrightarrow> async_ok w" for w by (simp add: async_ok_def context_owned_once_def)
qed (rule async_ok_step)

text \<open>
  C7: a receiver never outlives its context. Whatever owners come and go, however many objects are
  bound, shared by calls and dropped, and in whatever order, no receiver is built on or destroyed
  after a dead context: as long as one box is left its context is alive, even when no owner is; and
  the context is destroyed once there are neither owners nor boxes.
\<close>

theorem async_context_outlives_receivers:
  assumes "reaches (\<lambda>w. w = context_owned_once) async_step w"
  shows "\<not> aw_fault w \<and> (aw_context w \<longleftrightarrow> 0 < aw_owners w \<or> dom (aw_boxes w) \<noteq> {})"
  using async_receivers.reaches_inv [OF assms] by (auto simp: async_ok_def card_gt_0_iff)

text \<open>
  An object is bound, a call shares it, the owner and the storage go: the call keeps the context.
\<close>

theorem async_context_outlives_receivers_witness:
  "\<not> aw_fault (receiver_drop 0 (context_release (receiver_share 0
      (snd (receiver_storage_make True True 0 context_owned_once))\<lparr>aw_owners := 0\<rparr>)))"
proof -
  let ?reach = "reaches (\<lambda>w. w = context_owned_once) async_step"
  let ?w1 = "snd (receiver_storage_make True True 0 context_owned_once)"
  note unfold = context_owned_once_def receiver_storage_make_def require_def receiver_share_def context_release_def
    receiver_uses_context_def Let_def
  have "?reach context_owned_once" by (rule reaches_start) (rule refl)
  moreover have "async_step context_owned_once ?w1"
    using async_bind [of 0 context_owned_once True] by (simp add: context_owned_once_def)
  ultimately have "?reach ?w1" by (rule reaches_step)
  then have "?reach (receiver_share 0 ?w1)" by (rule reaches_step) (rule async_share, simp add: unfold)
  moreover have "async_step (receiver_share 0 ?w1) (context_release ((receiver_share 0 ?w1)\<lparr>aw_owners := 0\<rparr>))"
    using async_disown [of "receiver_share 0 ?w1"] by (simp add: unfold)
  ultimately have "?reach (context_release ((receiver_share 0 ?w1)\<lparr>aw_owners := 0\<rparr>))" by (rule reaches_step)
  then have "?reach (receiver_drop 0 (context_release ((receiver_share 0 ?w1)\<lparr>aw_owners := 0\<rparr>)))"
    by (rule reaches_step) (rule async_drop, simp add: unfold)
  from async_context_outlives_receivers [OF this] show ?thesis by blast
qed

subsection \<open>Preparing a call\<close>

text \<open>
  \<open>prepare\<close>, and the functions of \<open>async_functions\<close>: the contract is
  selected for the actual expressions, and only then are they captured into owned values
  (\<open>async_capture\<close>), whose types may convert differently. \<open>None\<close> is a
  program the compiler rejects.
\<close>

definition declared_type :: "bridge_param \<Rightarrow> ctype" where
  "declared_type p = (case p of ValueParam t \<Rightarrow> t | ObjectParam k \<Rightarrow> Named k | CallableParam g \<Rightarrow> Named g)"

definition async_prepare ::
    "bool \<Rightarrow> 'a conversions \<Rightarrow> import_contract list \<Rightarrow> ('a \<Rightarrow> 'o) \<Rightarrow> 'a list \<Rightarrow> (ctype \<times> bridge_param list \<times> 'o list) option" where
  "async_prepare cpp17 conv contracts capture actuals =
     (case import_select cpp17 conv contracts actuals of
        Selected r ps \<Rightarrow>
          (case contract_result \<lparr>sg_result = r, sg_params = map declared_type ps\<rparr> of
             Inr t \<Rightarrow> Some (t, ps, map capture actuals)
           | Inl errors \<Rightarrow> None)
      | _ \<Rightarrow> None)"

text \<open>
  The asynchronous form of a method calls the same overload as its synchronous form on the same
  expressions, on captured copies of the arguments; beyond what the synchronous call needs to
  compile it asks only that the result is no reference and no parameter a writable reference.
\<close>

theorem async_prepare_same_overload:
  "async_prepare cpp17 conv contracts capture actuals = Some (t, ps, owned) \<longleftrightarrow>
     import_overload_dispatch cpp17 conv contracts actuals (\<lambda>r ps. (r, ps)) = Some (t, ps) \<and>
     owned = map capture actuals \<and> length owned = length ps \<and>
     callable_errors \<lparr>sg_result = t, sg_params = map declared_type ps\<rparr> = []"
  unfolding dispatch_iff
  by (auto simp: async_prepare_def contract_result_def callable_errors_def safe_signature_iff Let_def
      dest!: list_all2_lengthD [OF selected_viable [unfolded viable_def]] split: selection.split if_splits
      simp: candidate_params_def)

text \<open>
  The asynchronous form of a function (\<open>async_functions\<close> of \<open>async_generate.h\<close>):
  it needs an owner of the context, without which the program ends, and prepares the call as a method does.
\<close>

definition async_function ::
    "bool \<Rightarrow> 'a conversions \<Rightarrow> import_contract list \<Rightarrow> ('a \<Rightarrow> 'o) \<Rightarrow> bool \<Rightarrow> 'a list \<Rightarrow>
     (ctype \<times> bridge_param list \<times> 'o list) outcome option" where
  "async_function cpp17 conv contracts capture owner actuals =
     map_option (\<lambda>call. if owner then Return call else Abort) (async_prepare cpp17 conv contracts capture actuals)"

lemma async_function_needs_owner:
  "async_function cpp17 conv contracts capture owner actuals = Some (Return call) \<longleftrightarrow>
     owner \<and> async_prepare cpp17 conv contracts capture actuals = Some call"
  by (cases "async_prepare cpp17 conv contracts capture actuals") (auto simp: async_function_def)

end
