(* ===== verification/Bindable.thy ===== *)
theory Bindable
  imports Schema
begin

section \<open>Which callables can be bound\<close>

text \<open>
  The checks the library makes while a program is compiled, before it binds a C++ callable to a
  declared signature, and those that decide whether a bound callable takes a list of dynamic values
  (\<open>dynabridge/export_callable.h\<close>). A template that probes whether an expression is
  well formed is a function of what the language and the backend say of the types in it.
\<close>

subsection \<open>Types of expressions\<close>

text \<open>
  The dynamic type of the backend, if it has one; whether \<open>export_argument::try_make\<close>
  takes a dynamic value for a declared type, and the type of the C++ argument it makes; the type of
  calling a callable, or a pointer to member on a receiver; the type \<open>native()
\<close>
  of a proxy returns; implicit conversions; the types with \<open>converter::to\<close>; the classes and types of
  \<open>bind_export_object\<close>; and the types that are descriptors of objects or callables.
\<close>

record backend_types =
  bt_dynamic :: "ctype option"
  bt_try_make :: "ctype \<Rightarrow> ctype \<Rightarrow> bool"
  bt_cpp :: "ctype \<Rightarrow> ctype"
  bt_call :: "ctype \<Rightarrow> ctype list \<Rightarrow> ctype option"
  bt_member_pointer :: "ctype \<Rightarrow> bool"
  bt_member_call :: "ctype \<Rightarrow> ctype \<Rightarrow> ctype list \<Rightarrow> ctype option"
  bt_native :: "ctype \<Rightarrow> ctype option"
  bt_converts :: "ctype \<Rightarrow> ctype \<Rightarrow> bool"
  bt_to_cast :: "ctype \<Rightarrow> bool"
  bt_bind_object :: "ctype \<Rightarrow> ctype \<Rightarrow> bool"
  bt_descriptor :: "ctype \<Rightarrow> bool"

definition void_type :: ctype where "void_type = Named (ascii ''void'')"

fun remove_const :: "ctype \<Rightarrow> ctype" where
  "remove_const (ConstType t) = t"
| "remove_const t = t"

definition decay :: "ctype \<Rightarrow> ctype" where "decay t = remove_const (remove_reference t)"

definition is_bridge_descriptor :: "backend_types \<Rightarrow> ctype \<Rightarrow> bool" where
  "is_bridge_descriptor bt t = bt_descriptor bt (decay t)"

text \<open>
  \<open>to_export_result\<close>: one overload for a result of the declared type, one for a result
  that converts to it.
\<close>

definition to_export_result :: "backend_types \<Rightarrow> ctype \<Rightarrow> ctype \<Rightarrow> bool" where
  "to_export_result bt r v \<longleftrightarrow>
     \<not> is_reference r \<and> bt_to_cast bt (decay r) \<and> (decay r = v \<or> bt_converts bt v (decay r))"

subsection \<open>Binding\<close>

text \<open>A backend without a dynamic type skips the check of the arguments.\<close>

definition are_export_arguments_convertible :: "backend_types \<Rightarrow> ctype list \<Rightarrow> bool" where
  "are_export_arguments_convertible bt params =
     (case bt_dynamic bt of None \<Rightarrow> True | Some d \<Rightarrow> list_all (\<lambda>p. bt_try_make bt p d) params)"

definition is_export_member_receiver_convertible :: "backend_types \<Rightarrow> ctype \<Rightarrow> ctype list \<Rightarrow> bool" where
  "is_export_member_receiver_convertible bt class params =
     (case bt_dynamic bt of None \<Rightarrow> True
      | Some d \<Rightarrow> bt_bind_object bt class d \<and> list_all (\<lambda>p. bt_try_make bt p d) params)"

text \<open>
  \<open>invoke_export_member_callable\<close>: a callable takes the receiver first. A pointer to
  member is applied to the receiver or to its native object, by two overloads: when both are well
  formed the call is ambiguous.
\<close>

definition invoke_export_member_callable :: "backend_types \<Rightarrow> ctype \<Rightarrow> ctype \<Rightarrow> ctype list \<Rightarrow> ctype option" where
  "invoke_export_member_callable bt callable receiver args =
     (if bt_member_pointer bt (decay callable)
      then (case (bt_member_call bt callable receiver args,
                  case bt_native bt receiver of None \<Rightarrow> None | Some n \<Rightarrow> bt_member_call bt callable n args) of
          (Some v, None) \<Rightarrow> Some v
        | (None, Some v) \<Rightarrow> Some v
        | _ \<Rightarrow> None)
      else bt_call bt callable (LvalueRef receiver # args))"

definition result_probe :: "backend_types \<Rightarrow> ctype \<Rightarrow> ctype option \<Rightarrow> bool" where
  "result_probe bt r call =
     (case call of None \<Rightarrow> False | Some v \<Rightarrow> r = void_type \<or> to_export_result bt r v)"

definition is_export_callable_bindable :: "backend_types \<Rightarrow> signature \<Rightarrow> ctype \<Rightarrow> bool" where
  "is_export_callable_bindable bt sg callable \<longleftrightarrow>
     are_bridge_params_valid (sg_params sg) \<and>
     (sg_result sg = void_type \<or> \<not> is_bridge_descriptor bt (sg_result sg)) \<and>
     are_export_arguments_convertible bt (sg_params sg) \<and>
     result_probe bt (sg_result sg) (bt_call bt callable (map (bt_cpp bt) (sg_params sg)))"

definition is_export_member_callable_bindable :: "backend_types \<Rightarrow> ctype \<Rightarrow> signature \<Rightarrow> ctype \<Rightarrow> bool" where
  "is_export_member_callable_bindable bt class sg callable \<longleftrightarrow>
     are_bridge_params_valid (sg_params sg) \<and>
     is_export_member_receiver_convertible bt class (sg_params sg) \<and>
     result_probe bt (sg_result sg)
       (invoke_export_member_callable bt callable class (map (bt_cpp bt) (sg_params sg)))"

text \<open>A group: each contract but the placeholder must be bindable.\<close>

definition is_unmatched_free_callable :: "signature \<Rightarrow> bool" where
  "is_unmatched_free_callable sg \<longleftrightarrow> sg = unmatched_signature"

definition is_export_overload_contract_bindable :: "backend_types \<Rightarrow> signature \<Rightarrow> ctype \<Rightarrow> bool" where
  "is_export_overload_contract_bindable bt sg callable =
     (if is_unmatched_free_callable sg then True else is_export_callable_bindable bt sg (decay callable))"

fun are_export_overloads_bindable :: "backend_types \<Rightarrow> signature list \<Rightarrow> ctype \<Rightarrow> bool" where
  "are_export_overloads_bindable bt [] callable = True"
| "are_export_overloads_bindable bt (sg # sgs) callable =
     (is_export_overload_contract_bindable bt sg callable \<and> are_export_overloads_bindable bt sgs callable)"

subsection \<open>Calling with dynamic values\<close>

definition are_export_dynamic_arguments_convertible :: "backend_types \<Rightarrow> ctype list \<Rightarrow> ctype list \<Rightarrow> bool" where
  "are_export_dynamic_arguments_convertible bt dynamics params =
     (if length dynamics = length params then list_all2 (bt_try_make bt) params dynamics else False)"

definition is_export_invocable :: "backend_types \<Rightarrow> ctype \<Rightarrow> ctype \<Rightarrow> ctype list \<Rightarrow> ctype list \<Rightarrow> bool" where
  "is_export_invocable bt callable r dynamics params \<longleftrightarrow>
     (if length dynamics = length params
      then (case bt_call bt callable (map (bt_cpp bt) params) of None \<Rightarrow> False | Some v \<Rightarrow> to_export_result bt r v) \<and>
        are_export_dynamic_arguments_convertible bt dynamics params
      else False)"

definition is_void_export_invocable :: "backend_types \<Rightarrow> ctype \<Rightarrow> ctype list \<Rightarrow> ctype list \<Rightarrow> bool" where
  "is_void_export_invocable bt callable dynamics params \<longleftrightarrow>
     (if length dynamics = length params
      then bt_call bt callable (map (bt_cpp bt) params) \<noteq> None \<and>
        are_export_dynamic_arguments_convertible bt dynamics params
      else False)"

definition is_export_member_invocable ::
    "backend_types \<Rightarrow> ctype \<Rightarrow> ctype \<Rightarrow> ctype \<Rightarrow> ctype \<Rightarrow> ctype list \<Rightarrow> ctype list \<Rightarrow> bool" where
  "is_export_member_invocable bt class callable r receiver dynamics params \<longleftrightarrow>
     (if length dynamics = length params
      then bt_bind_object bt class receiver \<and>
        (case invoke_export_member_callable bt callable class (map (bt_cpp bt) params) of None \<Rightarrow> False
         | Some v \<Rightarrow> to_export_result bt r v) \<and>
        are_export_dynamic_arguments_convertible bt dynamics params
      else False)"

definition is_void_export_member_invocable ::
    "backend_types \<Rightarrow> ctype \<Rightarrow> ctype \<Rightarrow> ctype \<Rightarrow> ctype list \<Rightarrow> ctype list \<Rightarrow> bool" where
  "is_void_export_member_invocable bt class callable receiver dynamics params \<longleftrightarrow>
     (if length dynamics = length params
      then bt_bind_object bt class receiver \<and>
        invoke_export_member_callable bt callable class (map (bt_cpp bt) params) \<noteq> None \<and>
        are_export_dynamic_arguments_convertible bt dynamics params
      else False)"

text \<open>
  Whether a contract can be called with \<open>n\<close> values of the backend's dynamic type.
\<close>

definition takes_values :: "backend_types \<Rightarrow> signature \<Rightarrow> ctype \<Rightarrow> ctype \<Rightarrow> nat \<Rightarrow> bool" where
  "takes_values bt sg callable d n =
     (if sg_result sg = void_type then is_void_export_invocable bt callable (replicate n d) (sg_params sg)
      else is_export_invocable bt callable (sg_result sg) (replicate n d) (sg_params sg))"

definition member_takes_values :: "backend_types \<Rightarrow> ctype \<Rightarrow> signature \<Rightarrow> ctype \<Rightarrow> ctype \<Rightarrow> nat \<Rightarrow> bool" where
  "member_takes_values bt class sg callable d n =
     (if sg_result sg = void_type then is_void_export_member_invocable bt class callable d (replicate n d) (sg_params sg)
      else is_export_member_invocable bt class callable (sg_result sg) d (replicate n d) (sg_params sg))"

lemma list_all2_replicate: "length xs = n \<Longrightarrow> list_all2 P xs (replicate n d) \<longleftrightarrow> list_all (\<lambda>x. P x d) xs"
  by (auto simp: list_all2_conv_all_nth list_all_length)

lemma bindable_takes_values:
  assumes "bt_dynamic bt = Some d" "is_export_callable_bindable bt sg callable"
  shows "takes_values bt sg callable d n \<longleftrightarrow> n = signature_arity sg"
proof (cases "n = length (sg_params sg)")
  case True
  with assms list_all2_replicate [of "sg_params sg" n "bt_try_make bt" d] show ?thesis
    by (auto simp: takes_values_def is_export_callable_bindable_def result_probe_def are_export_arguments_convertible_def
        is_export_invocable_def is_void_export_invocable_def are_export_dynamic_arguments_convertible_def signature_arity_def
        split: option.splits)
next
  case False
  then show ?thesis by (simp add: takes_values_def is_export_invocable_def is_void_export_invocable_def signature_arity_def)
qed

lemma overloads_bindable_iff:
  "are_export_overloads_bindable bt sgs callable \<longleftrightarrow>
     list_all (\<lambda>sg. is_export_overload_contract_bindable bt sg callable) sgs"
  by (induction sgs) simp_all

text \<open>
  C16: what binds can be called. Once a callable has passed the checks that bind it to a group of
  overloads, each contract of the group but the placeholder takes a list of dynamic values exactly
  when there are as many as it has parameters: no call can then fail to compile for a missing
  conversion of an argument or of the result.
\<close>

theorem bound_overloads_take_values:
  assumes "bt_dynamic bt = Some d" "are_export_overloads_bindable bt sgs callable"
    and "sg \<in> set sgs" "sg \<noteq> unmatched_signature"
  shows "takes_values bt sg (decay callable) d n \<longleftrightarrow> n = signature_arity sg"
proof (rule bindable_takes_values [OF assms(1)])
  have "is_export_overload_contract_bindable bt sg callable"
    using assms(2,3) by (auto simp: overloads_bindable_iff list_all_iff)
  with assms(4) show "is_export_callable_bindable bt sg (decay callable)"
    by (simp add: is_export_overload_contract_bindable_def is_unmatched_free_callable_def)
qed

text \<open>
  The same holds for members. A callable or pointer to member that binds as a member of a class
  takes a receiver and a list of dynamic values exactly when there are as many as parameters; and a
  pointer to member that applies both to the proxy and to its native object is never bindable.
\<close>

theorem bound_members_take_values:
  assumes "bt_dynamic bt = Some d" "is_export_member_callable_bindable bt class sg callable"
  shows "(member_takes_values bt class sg callable d n \<longleftrightarrow> n = signature_arity sg) \<and>
    (bt_member_pointer bt (decay callable) = False \<or> bt_native bt class = None \<or>
     bt_member_call bt callable class (map (bt_cpp bt) (sg_params sg)) = None \<or>
     bt_member_call bt callable (the (bt_native bt class)) (map (bt_cpp bt) (sg_params sg)) = None)"
proof
  show "member_takes_values bt class sg callable d n \<longleftrightarrow> n = signature_arity sg"
  proof (cases "n = length (sg_params sg)")
    case True
    with assms list_all2_replicate [of "sg_params sg" n "bt_try_make bt" d] show ?thesis
      by (auto simp: member_takes_values_def is_export_member_callable_bindable_def result_probe_def
          is_export_member_receiver_convertible_def is_export_member_invocable_def is_void_export_member_invocable_def
          are_export_dynamic_arguments_convertible_def signature_arity_def split: option.splits)
  next
    case False
    then show ?thesis
      by (simp add: member_takes_values_def is_export_member_invocable_def is_void_export_member_invocable_def signature_arity_def)
  qed
  have "invoke_export_member_callable bt callable class (map (bt_cpp bt) (sg_params sg)) \<noteq> None"
    using assms(2) by (auto simp: is_export_member_callable_bindable_def result_probe_def split: option.splits)
  then show "bt_member_pointer bt (decay callable) = False \<or> bt_native bt class = None \<or>
     bt_member_call bt callable class (map (bt_cpp bt) (sg_params sg)) = None \<or>
     bt_member_call bt callable (the (bt_native bt class)) (map (bt_cpp bt) (sg_params sg)) = None"
    by (auto simp: invoke_export_member_callable_def split: option.splits if_splits)
qed

text \<open>
  A backend whose dynamic values convert to everything, and a callable that returns its argument.
\<close>

definition sample_types :: backend_types where
  "sample_types =
     \<lparr>bt_dynamic = Some (Named [1]), bt_try_make = (\<lambda>p d. d = Named [1]), bt_cpp = (\<lambda>p. p),
      bt_call = (\<lambda>c args. case args of [] \<Rightarrow> None | a # _ \<Rightarrow> Some a),
      bt_member_pointer = (\<lambda>c. c = Named [9]),
      bt_member_call = (\<lambda>c receiver args. if receiver = Named [8] then Some (Named [3]) else None),
      bt_native = (\<lambda>receiver. if receiver = Named [7] then Some (Named [8]) else None),
      bt_converts = (\<lambda>v r. False), bt_to_cast = (\<lambda>r. True), bt_bind_object = (\<lambda>class d. d = Named [1]),
      bt_descriptor = (\<lambda>t. False)\<rparr>"

definition sample_signature :: signature where
  "sample_signature = \<lparr>sg_result = Named [3], sg_params = [Named [3], Named [4]]\<rparr>"

lemma void_not_sample: "Named [3] \<noteq> void_type"
  by (auto simp: void_type_def dest: arg_cong [where f = length])

theorem bound_overloads_take_values_witness:
  "takes_values sample_types sample_signature (decay (Named [5])) (Named [1]) 3 \<longleftrightarrow> (3 :: nat) = signature_arity sample_signature"
proof (rule bound_overloads_take_values)
  show "bt_dynamic sample_types = Some (Named [1])" by (simp add: sample_types_def)
  show "are_export_overloads_bindable sample_types [sample_signature, unmatched_signature] (Named [5])"
    using void_not_sample
    by (simp add: is_export_overload_contract_bindable_def is_unmatched_free_callable_def is_export_callable_bindable_def
        sample_signature_def unmatched_signature_def sample_types_def are_bridge_params_valid_def is_bad_bridge_param_def
        is_bridge_descriptor_def are_export_arguments_convertible_def result_probe_def to_export_result_def decay_def)
qed (simp_all add: sample_signature_def unmatched_signature_def)

theorem bound_members_take_values_witness:
  "member_takes_values sample_types (Named [7]) sample_signature (Named [9]) (Named [1]) 2 \<and>
   bt_member_call sample_types (Named [9]) (Named [7]) [] = None"
proof -
  have "bt_dynamic sample_types = Some (Named [1])" by (simp add: sample_types_def)
  moreover have "is_export_member_callable_bindable sample_types (Named [7]) sample_signature (Named [9])"
    by (simp add: is_export_member_callable_bindable_def is_export_member_receiver_convertible_def
        invoke_export_member_callable_def sample_signature_def sample_types_def are_bridge_params_valid_def
        is_bad_bridge_param_def result_probe_def to_export_result_def decay_def)
  ultimately have "member_takes_values sample_types (Named [7]) sample_signature (Named [9]) (Named [1]) 2 \<longleftrightarrow>
      (2 :: nat) = signature_arity sample_signature"
    using bound_members_take_values by blast
  then show ?thesis by (simp add: signature_arity_def sample_signature_def sample_types_def)
qed

end
