(* ===== verification/Scopes.thy ===== *)
theory Scopes
  imports Prelude
begin

section \<open>Members of generated classes\<close>

text \<open>
  The declaration tables generate classes that inherit one mixin per interface
  (\<open>dynabridge/import_generate.h\<close>, \<open>export_generate.h\<close>, \<open>async_generate.h\<close>), and
  generated code names their members. This theory says what the language finds then: a class has the
  members it declares, its own name among them, and its direct bases; a name is looked up in the
  class and, where the class does not declare it, in its bases, where it may be found in one only.
\<close>

datatype 'd scope = Scope "(bytes \<times> 'd) list" "'d scope list"

datatype 'd found = Absent | Found "'d list" | AmbiguousBases

fun merge_found :: "'d found \<Rightarrow> 'd found \<Rightarrow> 'd found" where
  "merge_found Absent y = y"
| "merge_found x Absent = x"
| "merge_found x y = AmbiguousBases"

definition declared_as :: "bytes \<Rightarrow> (bytes \<times> 'd) list \<Rightarrow> 'd list" where
  "declared_as n ds = map snd (filter (\<lambda>d. fst d = n) ds)"

fun member_lookup :: "bytes \<Rightarrow> 'd scope \<Rightarrow> 'd found" where
  "member_lookup n (Scope ds bs) =
     (if declared_as n ds \<noteq> [] then Found (declared_as n ds)
      else foldr merge_found (map (member_lookup n) bs) Absent)"

lemma declared_as_simps [simp]:
  "declared_as n [] = []"
  "declared_as n (d # ds) = (if fst d = n then snd d # declared_as n ds else declared_as n ds)"
  "declared_as n (ds @ es) = declared_as n ds @ declared_as n es"
  by (simp_all add: declared_as_def)

lemma declared_as_Nil [simp]: "declared_as n ds = [] \<longleftrightarrow> n \<notin> fst ` set ds"
  by (induction ds) auto

lemma merge_Absent [simp]: "merge_found x Absent = x"
  by (cases x) simp_all

text \<open>
  A scope offers a list of declarations when, for every name outside of \<open>R\<close>, lookup finds
  those of the list with that name. A class offers what it declares and what its bases offer as long
  as no two of them have a name in common.
\<close>

definition offers :: "bytes set \<Rightarrow> 'd scope \<Rightarrow> (bytes \<times> 'd) list \<Rightarrow> bool" where
  "offers R s ds \<longleftrightarrow> (\<forall>n. n \<notin> R \<longrightarrow>
     member_lookup n s = (if declared_as n ds = [] then Absent else Found (declared_as n ds)))"

definition apart :: "(bytes \<times> 'd) list list \<Rightarrow> bool" where
  "apart dss \<longleftrightarrow> sorted_wrt (\<lambda>ds es. fst ` set ds \<inter> fst ` set es = {}) dss"

lemma apart_simps [simp]:
  "apart []" "apart (ds # dss) \<longleftrightarrow> (\<forall>es \<in> set dss. fst ` set ds \<inter> fst ` set es = {}) \<and> apart dss"
  by (simp_all add: apart_def)

lemma apart_Nil_snoc [simp]: "apart (dss @ [[]]) \<longleftrightarrow> apart dss"
  by (auto simp: apart_def sorted_wrt_append)

lemma apart_distinct: "distinct (map fst (concat dss)) \<Longrightarrow> apart dss"
proof (induction dss)
  case (Cons ds dss)
  have "set (map fst ds) \<inter> set (map fst (concat dss)) = {}" "distinct (map fst (concat dss))"
    using Cons.prems by (simp_all only: concat.simps map_append distinct_append)
  moreover have "fst ` set es \<subseteq> set (map fst (concat dss))" if "es \<in> set dss" for es using that by auto
  ultimately show ?case unfolding apart_simps set_map using Cons.IH by blast
qed simp

lemma offers_merged:
  assumes "list_all2 (offers R) bs dss" "apart dss" "n \<notin> R"
  shows "foldr merge_found (map (member_lookup n) bs) Absent =
      (if declared_as n (concat dss) = [] then Absent else Found (declared_as n (concat dss)))"
  using assms(1,2)
proof (induction rule: list_all2_induct)
  case (Cons b bs ds dss)
  have b: "member_lookup n b = (if declared_as n ds = [] then Absent else Found (declared_as n ds))"
    using Cons.hyps(1) assms(3) unfolding offers_def by blast
  show ?case
  proof (cases "n \<in> fst ` set ds")
    case True
    then have "n \<notin> fst ` set (concat dss)" using Cons.prems by auto
    then have "declared_as n (concat dss) = []" by (simp only: declared_as_Nil not_False_eq_True)
    then show ?thesis using Cons b True by simp
  next
    case False
    then have "declared_as n ds = []" by simp
    then show ?thesis using Cons b by simp
  qed
qed simp

lemma offers_scope:
  assumes "fst ` set fixed \<subseteq> R" "list_all2 (offers R) bs dss" "apart (ds # dss)"
  shows "offers R (Scope (fixed @ ds) bs) (ds @ concat dss)"
  unfolding offers_def
proof (intro allI impI)
  fix n assume n: "n \<notin> R"
  then have f: "declared_as n fixed = []" using assms(1) by auto
  show "member_lookup n (Scope (fixed @ ds) bs) =
      (if declared_as n (ds @ concat dss) = [] then Absent else Found (declared_as n (ds @ concat dss)))"
  proof (cases "n \<in> fst ` set ds")
    case True
    then have "n \<notin> fst ` set (concat dss)" using assms(3) by auto
    then have "declared_as n (concat dss) = []" by (simp only: declared_as_Nil not_False_eq_True)
    with True show ?thesis by (simp add: f del: declared_as_Nil) auto
  next
    case False
    then have d: "declared_as n ds = []" by simp
    have "apart dss" using assms(3) by simp
    from offers_merged [OF assms(2) this n] show ?thesis using f d by simp
  qed
qed

lemma offers_leaf: "fst ` set fixed \<subseteq> R \<Longrightarrow> offers R (Scope (fixed @ ds) []) ds"
  using offers_scope [of fixed R "[]" "[]" ds] by simp

lemma offers_wrapper:
  "fst ` set fixed \<subseteq> R \<Longrightarrow> list_all2 (offers R) bs dss \<Longrightarrow> apart dss \<Longrightarrow> offers R (Scope fixed bs) (concat dss)"
  using offers_scope [of fixed R bs dss "[]"] by simp

text \<open>Each mixin is the base of a wrapper; one more wrapper ends the list.\<close>

lemma offers_mixins:
  assumes "\<And>i. i \<in> set is \<Longrightarrow> offers R (B i) (G i)" "fst ` set fixed \<subseteq> R"
  shows "list_all2 (offers R) (map (\<lambda>i. Scope fixed [B i]) is @ [Scope fixed []]) (map G is @ [[]])"
proof -
  have "offers R (Scope fixed [B i]) (concat [G i])" if "i \<in> set is" for i
    using assms that by (intro offers_wrapper) simp_all
  then have "list_all2 (offers R) (map (\<lambda>i. Scope fixed [B i]) is) (map G is)"
    by (simp add: list_all2_conv_all_nth)
  moreover have "offers R (Scope fixed []) (concat [])" using assms(2) by (intro offers_wrapper) simp_all
  ultimately show ?thesis by (simp add: list_all2_appendI)
qed

text \<open>Where no two of the declarations have the same name, lookup finds the one with the name.\<close>

lemma find_distinct_iff:
  assumes "distinct (map key gs)"
  shows "find (\<lambda>g. key g = n) gs = Some g \<longleftrightarrow> g \<in> set gs \<and> key g = n"
  using assms by (induction gs) auto

lemma declared_as_keys:
  "distinct (map key gs) \<Longrightarrow>
     declared_as n (map (\<lambda>g. (key g, F g)) gs) = (case find (\<lambda>g. key g = n) gs of None \<Rightarrow> [] | Some g \<Rightarrow> [F g])"
  by (induction gs) (auto split: option.splits simp: find_None_iff dest!: find_Some_iff [THEN iffD1])

lemma offers_keys:
  assumes "offers R s (map (\<lambda>g. (key g, F g)) gs)" "distinct (map key gs)" "n \<notin> R"
  shows "member_lookup n s = (case find (\<lambda>g. key g = n) gs of None \<Rightarrow> Absent | Some g \<Rightarrow> Found [F g])"
  using assms(1,3) unfolding offers_def declared_as_keys [OF assms(2)] by (simp split: option.split)

end
