(* ===== verification/Delegates.thy ===== *)
theory Delegates
  imports Scopes ImportSelect
begin

section \<open>Delegates of imported classes\<close>

text \<open>
  What the declaration table generates for an imported class: the symbols that carry the contracts
  of its members (\<open>import_symbols\<close> and \<open>interface_descriptors\<close> of
  \<open>dynabridge/import_generate.h\<close>), the delegate whose methods make the calls, and the
  asynchronous delegate (\<open>async_generate.h\<close>). Interfaces are mixed into all three.
\<close>

subsection \<open>The declaration table\<close>

text \<open>
  A group of members stands on a source line between those that begin and end its class or
  interface. The list of its contracts ends in a placeholder (\<open>END_MEMBER_CALLABLE_GROUP\<close>).
\<close>

record import_group =
  ig_line :: u64
  ig_name :: bytes
  ig_contracts :: "import_contract list"

record import_block =
  ib_begin :: u64
  ib_end :: u64
  ib_groups :: "import_group list"

record import_interface =
  ii_type :: nat
  ii_name :: bytes
  ii_block :: import_block

record import_class =
  ic_name :: bytes
  ic_interfaces :: "import_interface list"
  ic_block :: import_block

definition overloads_of :: "import_group \<Rightarrow> import_contract list" where
  "overloads_of g = ig_contracts g @ [UnmatchedContract]"

text \<open>
  Each group declares a function \<open>method_name_at\<close> for the index of its line, whose result
  names the group.
\<close>

definition block_descriptor :: "import_block \<Rightarrow> descriptor" where
  "block_descriptor b =
     \<lparr>begin_index = ib_begin b, end_index = ib_end b,
      method_name_at = (\<lambda>i. map_option (\<lambda>g. Some (ig_name g)) (find (\<lambda>g. ig_line g = i) (ib_groups b)))\<rparr>"

text \<open>The list of interfaces a class names ends in \<open>void\<close>.\<close>

definition import_class_decl :: "import_class \<Rightarrow> class_decl" where
  "import_class_decl c =
     \<lparr>cd_interfaces = map (\<lambda>i. Some \<lparr>if_type = ii_type i, if_methods = block_descriptor (ii_block i)\<rparr>) (ic_interfaces c) @ [None],
      cd_methods = block_descriptor (ic_block c)\<rparr>"

text \<open>A block as it stands in a file: one group after the other, on lines of their own.\<close>

definition laid_out :: "import_block \<Rightarrow> bool" where
  "laid_out b \<longleftrightarrow> ib_begin b < ib_end b \<and> sorted_wrt (<) (map ig_line (ib_groups b)) \<and>
     list_all (\<lambda>g. ib_begin b < ig_line g \<and> ig_line g < ib_end b) (ib_groups b)"

definition class_laid_out :: "import_class \<Rightarrow> bool" where
  "class_laid_out c \<longleftrightarrow> laid_out (ic_block c) \<and> list_all (\<lambda>i. laid_out (ii_block i)) (ic_interfaces c)"

text \<open>All groups a class has, those of its interfaces after its own.\<close>

definition class_groups :: "import_class \<Rightarrow> import_group list" where
  "class_groups c = ib_groups (ic_block c) @ concat (map (\<lambda>i. ib_groups (ii_block i)) (ic_interfaces c))"

lemma map_filter_eq: "(\<And>x. x \<in> set xs \<Longrightarrow> f x = g x) \<Longrightarrow> List.map_filter f xs = List.map_filter g xs"
  by (induction xs) (simp_all add: map_filter_simps split: option.splits)

lemma declared_between_groups:
  assumes "sorted_wrt (<) (map ig_line gs)" "list_all (\<lambda>g. lo \<le> unat (ig_line g) \<and> ig_line g < e) gs"
  shows "somes (List.map_filter (\<lambda>i. map_option (\<lambda>g. Some (ig_name g)) (find (\<lambda>g. ig_line g = of_nat i) gs)) [lo..<unat e]) =
      map ig_name gs"
  using assms
proof (induction gs arbitrary: lo)
  case Nil
  then show ?case by (simp add: map_filter_def)
next
  case (Cons g gs)
  let ?f = "\<lambda>gs i. map_option (\<lambda>g. Some (ig_name g)) (find (\<lambda>g. ig_line g = of_nat i) gs)"
  let ?l = "unat (ig_line g)"
  have le: "lo \<le> ?l" and lt: "?l < unat e" using Cons.prems(2) by (auto simp: word_less_nat_alt)
  have "unat e < 2 ^ 64" using unsigned_less [of e] by simp
  then have small: "unat (of_nat i :: u64) = i" if "i < unat e" for i
    using that by (simp add: unat_of_nat)
  have later: "\<forall>h \<in> set gs. ?l < unat (ig_line h)" using Cons.prems(1) by (auto simp: word_less_nat_alt)
  have before: "?f (g # gs) i = None" if "i < ?l" for i
  proof -
    have "\<forall>h \<in> set (g # gs). ig_line h \<noteq> of_nat i"
      using small [of i] that lt later by (metis less_trans list.set_cases not_less_iff_gr_or_eq set_ConsD)
    then have "find (\<lambda>h. ig_line h = of_nat i) (g # gs) = None" by (simp add: find_None_iff)
    then show ?thesis by simp
  qed
  have after: "?f (g # gs) i = ?f gs i" if "?l < i" "i < unat e" for i
    using small [of i] that by auto
  have "[lo..<unat e] = [lo..<?l] @ ?l # [Suc ?l..<unat e]"
    using le lt by (metis le_add_diff_inverse less_imp_le upt_add_eq_append upt_conv_Cons)
  moreover have "List.map_filter (?f (g # gs)) [lo..<?l] = []"
    using before by (simp add: map_filter_def filter_empty_conv)
  moreover have "List.map_filter (?f (g # gs)) [Suc ?l..<unat e] = List.map_filter (?f gs) [Suc ?l..<unat e]"
    using after by (intro map_filter_eq) simp
  moreover have "somes (List.map_filter (?f gs) [Suc ?l..<unat e]) = map ig_name gs"
    using Cons.prems later by (intro Cons.IH) (auto simp: list_all_iff)
  moreover have "?f (g # gs) ?l = Some (Some (ig_name g))" by simp
  ultimately show ?case by (simp add: map_filter_def)
qed

lemma block_members_descriptor:
  assumes "laid_out b"
  shows "block_members (block_descriptor b) = map ig_name (ib_groups b)"
proof -
  have "list_all (\<lambda>g. unat (ib_begin b) + 1 \<le> unat (ig_line g) \<and> ig_line g < ib_end b) (ib_groups b)"
    using assms by (auto simp: laid_out_def list_all_iff word_less_nat_alt)
  then show ?thesis using assms
    by (simp add: block_members_def declared_between_def block_descriptor_def laid_out_def declared_between_groups)
qed

lemma class_pack_groups:
  assumes "class_laid_out c"
  shows "class_interface_pack (import_class_decl c) = Inr ifs \<longleftrightarrow>
      ifs = somes (cd_interfaces (import_class_decl c)) \<and> distinct (map ii_type (ic_interfaces c)) \<and>
      distinct (map (\<lambda>g. c_str (ig_name g)) (class_groups c))"
proof -
  have b: "block (cd_methods (import_class_decl c))"
    "list_all (\<lambda>i. block (if_methods i)) (somes (cd_interfaces (import_class_decl c)))"
    using assms by (auto simp: class_laid_out_def laid_out_def import_class_decl_def block_def block_descriptor_def list_all_iff)
  have "map (\<lambda>i. block_members (block_descriptor (ii_block i))) (ic_interfaces c) =
      map (\<lambda>i. map ig_name (ib_groups (ii_block i))) (ic_interfaces c)"
    using assms by (auto simp: class_laid_out_def list_all_iff block_members_descriptor)
  then have "concat (map (\<lambda>i. block_members (block_descriptor (ii_block i))) (ic_interfaces c)) =
      concat (map (\<lambda>i. map ig_name (ib_groups (ii_block i))) (ic_interfaces c))" by (simp only:)
  then have "class_members (import_class_decl c) =
      concat (map (\<lambda>i. map ig_name (ib_groups (ii_block i))) (ic_interfaces c)) @ map ig_name (ib_groups (ic_block c))"
    using assms
    by (simp add: class_members_def import_class_decl_def class_laid_out_def block_members_descriptor comp_def del: map_eq_conv)
  then have "mset (map c_str (class_members (import_class_decl c))) = mset (map (\<lambda>g. c_str (ig_name g)) (class_groups c))"
    by (simp add: class_groups_def map_concat comp_def)
  then have "distinct (map c_str (class_members (import_class_decl c))) \<longleftrightarrow> distinct (map (\<lambda>g. c_str (ig_name g)) (class_groups c))"
    by (rule mset_eq_imp_distinct_iff)
  moreover have "map if_type (somes (cd_interfaces (import_class_decl c))) = map ii_type (ic_interfaces c)"
    by (simp add: import_class_decl_def comp_def)
  ultimately show ?thesis unfolding class_pack_iff [OF b] by metis
qed

subsection \<open>Symbols\<close>

text \<open>
  The symbol of a group carries its overloads and the class it belongs to, unless it was named
  through the interface alone (\<open>interface_receiver_metadata\<close>).
\<close>

record member_symbol =
  ms_receiver :: "bytes option"
  ms_name :: bytes
  ms_overloads :: "import_contract list"

definition group_symbol :: "bytes option \<Rightarrow> import_group \<Rightarrow> member_symbol" where
  "group_symbol receiver g = \<lparr>ms_receiver = receiver, ms_name = ig_name g, ms_overloads = overloads_of g\<rparr>"

datatype symbol_decl = OtherName | Symbol member_symbol

definition symbol_names :: "import_block \<Rightarrow> (bytes \<times> symbol_decl) list" where
  "symbol_names b = map (\<lambda>g. (ascii ''method_name_at'', OtherName)) (ib_groups b)"

definition symbol_decls :: "bytes option \<Rightarrow> import_block \<Rightarrow> (bytes \<times> symbol_decl) list" where
  "symbol_decls receiver b = map (\<lambda>g. (ig_name g, Symbol (group_symbol receiver g))) (ib_groups b)"

definition interface_symbols :: "bytes option \<Rightarrow> import_interface \<Rightarrow> symbol_decl scope" where
  "interface_symbols receiver i =
     Scope ((map (\<lambda>n. (ascii n, OtherName)) [''symbols'', ''begin_index'', ''end_index''] @ symbol_names (ii_block i)) @
        symbol_decls receiver (ii_block i)) []"

text \<open>\<open>interface_symbol_pack\<close>: one base for each interface, and one for \<open>void\<close>.\<close>

definition interface_symbol_pack :: "bytes \<Rightarrow> import_interface list \<Rightarrow> symbol_decl scope" where
  "interface_symbol_pack receiver is =
     Scope [(ascii ''interface_symbol_pack'', OtherName)]
       (map (\<lambda>i. Scope [(ascii ''interface_symbol_base'', OtherName)] [interface_symbols (Some receiver) i]) is @
        [Scope [(ascii ''interface_symbol_base'', OtherName)] []])"

definition class_symbols :: "import_class \<Rightarrow> symbol_decl scope" where
  "class_symbols c =
     Scope (((ic_name c, OtherName) #
         map (\<lambda>n. (ascii n, OtherName)) [''begin_index'', ''self_symbol_t'', ''delegate_t'', ''symbol_name'', ''end_index''] @
         symbol_names (ic_block c)) @ symbol_decls (Some (ic_name c)) (ic_block c))
       [interface_symbol_pack (ic_name c) (ic_interfaces c)]"

text \<open>\<open>typename X::name\<close>, where the name must be that of a symbol.\<close>

definition named_symbol :: "symbol_decl scope \<Rightarrow> bytes \<Rightarrow> member_symbol option" where
  "named_symbol s n = (case member_lookup n s of Found [Symbol m] \<Rightarrow> Some m | _ \<Rightarrow> None)"

subsection \<open>Delegates\<close>

text \<open>
  A delegate has its own functions, which take no arguments, and a function template for each group,
  whose body names a symbol; a name that is none there does not compile.
\<close>

datatype delegate_decl = OtherMember | Accessor | Forwards "member_symbol option"

definition forwarders :: "symbol_decl scope \<Rightarrow> import_block \<Rightarrow> (bytes \<times> delegate_decl) list" where
  "forwarders symbols b = map (\<lambda>g. (ig_name g, Forwards (named_symbol symbols (ig_name g)))) (ib_groups b)"

definition other_members :: "string list \<Rightarrow> (bytes \<times> delegate_decl) list" where
  "other_members ns = map (\<lambda>n. (ascii n, OtherMember)) ns"

definition accessors :: "string list \<Rightarrow> (bytes \<times> delegate_decl) list" where
  "accessors ns = map (\<lambda>n. (ascii n, Accessor)) ns"

text \<open>In a mixin the symbols are those of its interface for the receiver of its host.\<close>

definition interface_mixin :: "import_class \<Rightarrow> import_interface \<Rightarrow> delegate_decl scope" where
  "interface_mixin c i =
     Scope (((ii_name i, OtherMember) #
         other_members [''receiver_t'', ''receiver_symbol_t'', ''descriptor_t'', ''bridge_symbol_t''] @
         accessors [''context'', ''receiver'']) @
       forwarders (interface_symbols (Some (ic_name c)) i) (ii_block i)) []"

definition interface_pack_scope :: "import_class \<Rightarrow> delegate_decl scope" where
  "interface_pack_scope c =
     Scope (other_members [''checked_interface_pack'']) [Scope (other_members [''unchecked_interface_pack''])
       (map (\<lambda>i. Scope (other_members [''interface_base'']) [interface_mixin c i]) (ic_interfaces c) @
        [Scope (other_members [''interface_base'']) []])]"

definition delegate_class :: "import_class \<Rightarrow> delegate_decl scope" where
  "delegate_class c =
     Scope (((ic_name c, OtherMember) #
         other_members [''context_t'', ''receiver_t'', ''bridge_class_t'', ''bridge_symbol_t'', ''bridge_direction'', ''object_t''] @
         accessors [''context'', ''receiver'', ''object''] @ other_members [''ctx_'', ''object_'']) @
       forwarders (class_symbols c) (ic_block c)) [interface_pack_scope c]"

definition import_delegate :: "import_class \<Rightarrow> pack_error list + delegate_decl scope" where
  "import_delegate c =
     (case class_interface_pack (import_class_decl c) of
        Inl errors \<Rightarrow> Inl errors
      | Inr ifs \<Rightarrow> Inr (delegate_class c))"

text \<open>
  \<open>delegate.name(args...)\<close>: of the functions found, one that is no template is preferred
  when its parameters fit as well.
\<close>

datatype delegate_target = CallsAccessor | CallsMember member_symbol

definition delegate_call :: "delegate_decl scope \<Rightarrow> bytes \<Rightarrow> nat \<Rightarrow> delegate_target option" where
  "delegate_call d n args =
     (case member_lookup n d of
        Found ms \<Rightarrow>
          if OtherMember \<in> set ms then None
          else if args = 0 \<and> Accessor \<in> set ms then Some CallsAccessor
          else (case filter (\<lambda>m. m \<noteq> Accessor) ms of [Forwards (Some s)] \<Rightarrow> Some (CallsMember s) | _ \<Rightarrow> None)
      | _ \<Rightarrow> None)"

subsection \<open>Asynchronous delegates\<close>

text \<open>Here a mixin takes the symbols of its host, whose interfaces are found as bases.\<close>

definition async_mixin :: "import_class \<Rightarrow> import_interface \<Rightarrow> delegate_decl scope" where
  "async_mixin c i = Scope ([(ii_name i, OtherMember)] @ forwarders (class_symbols c) (ii_block i)) []"

definition async_interfaces :: "import_class \<Rightarrow> delegate_decl scope" where
  "async_interfaces c =
     Scope (other_members [''interfaces''])
       (map (\<lambda>i. Scope (other_members [''mixin'']) [async_mixin c i]) (ic_interfaces c) @ [Scope (other_members [''mixin'']) []])"

definition async_delegate :: "import_class \<Rightarrow> delegate_decl scope" where
  "async_delegate c =
     Scope (((ic_name c, OtherMember) # other_members [''Base'', ''bridge_symbol_t'']) @ forwarders (class_symbols c) (ic_block c))
       [Scope (other_members [''receiver_storage'', ''receiver_'', ''Context'', ''prepare'']) [], async_interfaces c]"

text \<open>\<open>prepare\<close> accepts the symbols of its receiver's class.\<close>

definition async_delegate_call :: "import_class \<Rightarrow> bytes \<Rightarrow> nat \<Rightarrow> member_symbol option" where
  "async_delegate_call c n args =
     (case delegate_call (async_delegate c) n args of
        Some (CallsMember s) \<Rightarrow> if ms_receiver s = Some (ic_name c) then Some s else None
      | _ \<Rightarrow> None)"

text \<open>
  The names generated code takes for itself: those of the class and of its interfaces, and a fixed
  list. The check of unique names does not know them.
\<close>

definition generated_names :: "string list" where
  "generated_names =
     [''symbols'', ''begin_index'', ''end_index'', ''method_name_at'', ''self_symbol_t'', ''delegate_t'', ''symbol_name'',
      ''interface_symbol_pack'', ''interface_symbol_base'', ''receiver_t'', ''receiver_symbol_t'', ''descriptor_t'',
      ''bridge_symbol_t'', ''context'', ''receiver'', ''object'', ''checked_interface_pack'', ''unchecked_interface_pack'',
      ''interface_base'', ''context_t'', ''bridge_class_t'', ''bridge_direction'', ''object_t'', ''ctx_'', ''object_'',
      ''receiver_storage'', ''receiver_'', ''Context'', ''prepare'', ''interfaces'', ''mixin'', ''Base'']"

definition reserved :: "import_class \<Rightarrow> bytes set" where
  "reserved c = set (ic_name c # map ii_name (ic_interfaces c) @ map ascii generated_names)"

subsection \<open>What lookup finds\<close>

text \<open>Classes whose members keep clear of the generated names.\<close>

definition well_named :: "import_class \<Rightarrow> bool" where
  "well_named c \<longleftrightarrow> list_all (\<lambda>g. 0 \<notin> set (ig_name g) \<and> ig_name g \<notin> reserved c) (class_groups c)"

lemmas scope_defs = other_members_def accessors_def symbol_names_def reserved_def generated_names_def

lemma group_decls:
  "map fst (forwarders symbols b) = map ig_name (ib_groups b)"
  "map fst (symbol_decls receiver b) = map ig_name (ib_groups b)"
  by (simp_all add: forwarders_def symbol_decls_def)

lemma group_decls_apart:
  assumes "distinct (map ig_name (class_groups c))" "\<And>b. map fst (F b) = map ig_name (ib_groups b)"
    "\<And>i. map fst (G i) = map ig_name (ib_groups (ii_block i))"
  shows "apart (F (ic_block c) # map G (ic_interfaces c))" "apart [F (ic_block c), concat (map G (ic_interfaces c))]"
    "apart (map G (ic_interfaces c))"
proof -
  have "map fst (concat (F (ic_block c) # map G (ic_interfaces c))) = map ig_name (class_groups c)"
    by (simp add: class_groups_def map_concat comp_def assms(2,3))
  with assms(1) have d: "distinct (map fst (concat (F (ic_block c) # map G (ic_interfaces c))))" by simp
  then show a: "apart (F (ic_block c) # map G (ic_interfaces c))" by (rule apart_distinct)
  from d show "apart [F (ic_block c), concat (map G (ic_interfaces c))]" by (intro apart_distinct) simp
  from a show "apart (map G (ic_interfaces c))" by simp
qed

lemma interface_symbols_offer: "offers (reserved c) (interface_symbols receiver i) (symbol_decls receiver (ii_block i))"
  unfolding interface_symbols_def by (rule offers_leaf) (auto simp: scope_defs)

lemma class_symbols_offer:
  assumes "distinct (map ig_name (class_groups c))"
  shows "offers (reserved c) (class_symbols c) (map (\<lambda>g. (ig_name g, Symbol (group_symbol (Some (ic_name c)) g))) (class_groups c))"
proof -
  let ?d = "symbol_decls (Some (ic_name c))"
  have "offers (reserved c) (interface_symbol_pack (ic_name c) (ic_interfaces c))
      (concat (map (\<lambda>i. ?d (ii_block i)) (ic_interfaces c) @ [[]]))"
    unfolding interface_symbol_pack_def
    using group_decls_apart(3) [OF assms, of ?d "\<lambda>i. ?d (ii_block i)"]
    by (intro offers_wrapper offers_mixins interface_symbols_offer) (auto simp: scope_defs group_decls)
  then have "offers (reserved c) (class_symbols c)
      (?d (ic_block c) @ concat [concat (map (\<lambda>i. ?d (ii_block i)) (ic_interfaces c) @ [[]])])"
    unfolding class_symbols_def
    using group_decls_apart(2) [OF assms, of ?d "\<lambda>i. ?d (ii_block i)"]
    by (intro offers_scope) (auto simp: scope_defs group_decls)
  then show ?thesis by (simp add: class_groups_def symbol_decls_def map_concat comp_def)
qed

lemma class_symbol_find:
  assumes "distinct (map ig_name (class_groups c))" "n \<notin> reserved c"
  shows "named_symbol (class_symbols c) n =
      map_option (group_symbol (Some (ic_name c))) (find (\<lambda>g. ig_name g = n) (class_groups c))"
  using offers_keys [OF class_symbols_offer [OF assms(1)] assms] by (simp add: named_symbol_def split: option.split)

lemma class_symbol_iff:
  assumes "distinct (map ig_name (class_groups c))" "n \<notin> reserved c"
  shows "named_symbol (class_symbols c) n = Some s \<longleftrightarrow>
      (\<exists>g \<in> set (class_groups c). ig_name g = n \<and> s = group_symbol (Some (ic_name c)) g)"
  using find_distinct_iff [OF assms(1), of n] unfolding class_symbol_find [OF assms] by auto

lemma interface_symbol_of:
  assumes "distinct (map ig_name (ib_groups (ii_block i)))" "g \<in> set (ib_groups (ii_block i))" "ig_name g \<notin> reserved c"
  shows "named_symbol (interface_symbols receiver i) (ig_name g) = Some (group_symbol receiver g)"
proof -
  have "find (\<lambda>h. ig_name h = ig_name g) (ib_groups (ii_block i)) = Some g"
    using find_distinct_iff [OF assms(1)] assms(2) by blast
  then show ?thesis
    using offers_keys [OF interface_symbols_offer [unfolded symbol_decls_def] assms(1,3)]
    by (simp add: named_symbol_def)
qed

text \<open>The bodies of the forwarders of both kinds of delegate name the same symbols.\<close>

definition class_forwarders :: "import_class \<Rightarrow> (bytes \<times> delegate_decl) list" where
  "class_forwarders c = map (\<lambda>g. (ig_name g, Forwards (Some (group_symbol (Some (ic_name c)) g)))) (class_groups c)"

lemma forwarders_class:
  assumes "distinct (map ig_name (class_groups c))" "well_named c"
  shows "forwarders (class_symbols c) (ic_block c) @
      concat (map (\<lambda>i. forwarders (class_symbols c) (ii_block i)) (ic_interfaces c)) = class_forwarders c"
    "forwarders (class_symbols c) (ic_block c) @
      concat (map (\<lambda>i. forwarders (interface_symbols (Some (ic_name c)) i) (ii_block i)) (ic_interfaces c)) = class_forwarders c"
proof -
  let ?S = "\<lambda>g. group_symbol (Some (ic_name c)) g"
  have unreserved: "ig_name g \<notin> reserved c" if "g \<in> set (class_groups c)" for g
    using assms(2) that by (simp add: well_named_def list_all_iff)
  have own: "named_symbol (class_symbols c) (ig_name g) = Some (?S g)" if "g \<in> set (class_groups c)" for g
    using class_symbol_iff [OF assms(1) unreserved [OF that]] that by blast
  have inherited: "named_symbol (interface_symbols (Some (ic_name c)) i) (ig_name g) = Some (?S g)"
    if "i \<in> set (ic_interfaces c)" "g \<in> set (ib_groups (ii_block i))" for i g
  proof (rule interface_symbol_of)
    have "g \<in> set (class_groups c)" using that by (auto simp: class_groups_def)
    then show "ig_name g \<notin> reserved c" by (rule unreserved)
    show "distinct (map ig_name (ib_groups (ii_block i)))"
      using assms(1) that(1) by (auto simp: class_groups_def map_concat comp_def distinct_concat_iff)
  qed (rule that(2))
  have a: "forwarders (class_symbols c) (ic_block c) = map (\<lambda>g. (ig_name g, Forwards (Some (?S g)))) (ib_groups (ic_block c))"
    using own by (simp add: forwarders_def class_groups_def)
  have b: "map (\<lambda>i. forwarders (class_symbols c) (ii_block i)) (ic_interfaces c) =
      map (\<lambda>i. map (\<lambda>g. (ig_name g, Forwards (Some (?S g)))) (ib_groups (ii_block i))) (ic_interfaces c)"
    using own by (auto simp: forwarders_def class_groups_def)
  have d: "map (\<lambda>i. forwarders (interface_symbols (Some (ic_name c)) i) (ii_block i)) (ic_interfaces c) =
      map (\<lambda>i. map (\<lambda>g. (ig_name g, Forwards (Some (?S g)))) (ib_groups (ii_block i))) (ic_interfaces c)"
    using inherited by (simp add: forwarders_def)
  show "forwarders (class_symbols c) (ic_block c) @
      concat (map (\<lambda>i. forwarders (class_symbols c) (ii_block i)) (ic_interfaces c)) = class_forwarders c"
    unfolding a b by (simp add: class_forwarders_def class_groups_def map_concat comp_def)
  show "forwarders (class_symbols c) (ic_block c) @
      concat (map (\<lambda>i. forwarders (interface_symbols (Some (ic_name c)) i) (ii_block i)) (ic_interfaces c)) = class_forwarders c"
    unfolding a d by (simp add: class_forwarders_def class_groups_def map_concat comp_def)
qed

lemma async_delegate_offers:
  assumes "distinct (map ig_name (class_groups c))" "well_named c"
  shows "offers (reserved c) (async_delegate c) (class_forwarders c)"
proof -
  let ?d = "forwarders (class_symbols c)"
  have m: "offers (reserved c) (async_mixin c i) (?d (ii_block i))" if "i \<in> set (ic_interfaces c)" for i
    unfolding async_mixin_def using that by (intro offers_leaf) (auto simp: scope_defs)
  have "offers (reserved c) (async_interfaces c) (concat (map (\<lambda>i. ?d (ii_block i)) (ic_interfaces c) @ [[]]))"
    unfolding async_interfaces_def
    using group_decls_apart(3) [OF assms(1), of ?d "\<lambda>i. ?d (ii_block i)"]
    by (intro offers_wrapper offers_mixins m) (auto simp: scope_defs group_decls)
  moreover have "offers (reserved c) (Scope (other_members [''receiver_storage'', ''receiver_'', ''Context'', ''prepare'']) []) (concat [])"
    by (intro offers_wrapper) (auto simp: scope_defs)
  ultimately have "offers (reserved c) (async_delegate c)
      (?d (ic_block c) @ concat [concat [], concat (map (\<lambda>i. ?d (ii_block i)) (ic_interfaces c) @ [[]])])"
    unfolding async_delegate_def
    using group_decls_apart(2) [OF assms(1), of ?d "\<lambda>i. ?d (ii_block i)"]
    by (intro offers_scope) (auto simp: scope_defs group_decls)
  then show ?thesis using forwarders_class(1) [OF assms] by simp
qed

lemma import_delegate_offers:
  assumes "distinct (map ig_name (class_groups c))" "well_named c"
  shows "offers (reserved c) (delegate_class c) (class_forwarders c)"
proof -
  let ?d = "forwarders (class_symbols c)" and ?e = "\<lambda>i. forwarders (interface_symbols (Some (ic_name c)) i) (ii_block i)"
  have m: "offers (reserved c) (interface_mixin c i) (?e i)" if "i \<in> set (ic_interfaces c)" for i
    unfolding interface_mixin_def using that by (intro offers_leaf) (auto simp: scope_defs)
  have "offers (reserved c) (interface_pack_scope c) (concat [concat (map ?e (ic_interfaces c) @ [[]])])"
    unfolding interface_pack_scope_def
    using group_decls_apart(3) [OF assms(1), of ?d ?e]
    by (intro offers_wrapper list.rel_intros offers_mixins m) (auto simp: scope_defs group_decls)
  then have "offers (reserved c) (delegate_class c) (?d (ic_block c) @ concat [concat [concat (map ?e (ic_interfaces c) @ [[]])]])"
    unfolding delegate_class_def using group_decls_apart(2) [OF assms(1), of ?d ?e]
    by (intro offers_scope) (auto simp: scope_defs group_decls)
  then show ?thesis using forwarders_class(2) [OF assms] by simp
qed

subsection \<open>Calls\<close>

text \<open>A method of a delegate: the overloads of the symbol its body names are dispatched.\<close>

definition delegate_invoke ::
    "bool \<Rightarrow> 'a conversions \<Rightarrow> delegate_decl scope \<Rightarrow> bytes \<Rightarrow> 'a list \<Rightarrow> (ctype \<Rightarrow> bridge_param list \<Rightarrow> 'r) \<Rightarrow> 'r option" where
  "delegate_invoke cpp17 conv d n actuals invoke =
     (case delegate_call d n (length actuals) of
        Some (CallsMember s) \<Rightarrow> import_overload_dispatch cpp17 conv (ms_overloads s) actuals invoke
      | _ \<Rightarrow> None)"

text \<open>
  \<open>call_name\<close>, the function an imported function becomes, and
  \<open>construct_name\<close>, the function that makes an object of an imported class; the list of
  declared constructors ends in a placeholder as well.
\<close>

definition call_function ::
    "bool \<Rightarrow> 'a conversions \<Rightarrow> import_group \<Rightarrow> 'a list \<Rightarrow> (ctype \<Rightarrow> bridge_param list \<Rightarrow> 'r) \<Rightarrow> 'r option" where
  "call_function cpp17 conv g actuals invoke = import_overload_dispatch cpp17 conv (overloads_of g) actuals invoke"

definition construct_class ::
    "bool \<Rightarrow> 'a conversions \<Rightarrow> bridge_param list list \<Rightarrow> 'a list \<Rightarrow> (bridge_param list \<Rightarrow> 'r) \<Rightarrow> 'r option" where
  "construct_class cpp17 conv constructors actuals build =
     import_overload_dispatch cpp17 conv (map (Contract (Named (ascii ''void''))) constructors @ [UnmatchedContract]) actuals
       (\<lambda>r ps. build ps)"

text \<open>The one declared contract that takes the arguments best.\<close>

definition best_overload :: "'a conversions \<Rightarrow> 'a list \<Rightarrow> import_contract list \<Rightarrow> ctype \<Rightarrow> bridge_param list \<Rightarrow> bool" where
  "best_overload conv actuals contracts r ps \<longleftrightarrow>
     Contract r ps \<in> set contracts \<and> contract_matches conv actuals (Contract r ps) \<and>
     (\<forall>other \<in># mset contracts - {#Contract r ps#}.
        contract_matches conv actuals other \<longrightarrow> better_contract conv actuals (Contract r ps) other)"

lemma dispatch_best:
  assumes "strict_conversions conv" "no_placeholder conv actuals"
  shows "import_overload_dispatch cpp17 conv (contracts @ [UnmatchedContract]) actuals invoke = Some m \<longleftrightarrow>
      (\<exists>r ps. m = invoke r ps \<and> best_overload conv actuals contracts r ps)"
proof -
  have "\<not> contract_matches conv actuals UnmatchedContract" by (simp add: contract_matches_def)
  then have "import_select cpp17 conv (contracts @ [UnmatchedContract]) actuals = Selected r ps \<and> length ps = length actuals \<longleftrightarrow>
      best_overload conv actuals contracts r ps" for r ps
    unfolding import_select_iff [OF assms] best_overload_def
    by (auto simp: contract_matches_def dest: list_all2_lengthD)
  then show ?thesis unfolding dispatch_iff by metis
qed

lemma forwarded_call:
  assumes "distinct (map ig_name (class_groups c))" "offers (reserved c) d (class_forwarders c)" "n \<notin> reserved c"
  shows "delegate_call d n k =
      map_option (\<lambda>g. CallsMember (group_symbol (Some (ic_name c)) g)) (find (\<lambda>g. ig_name g = n) (class_groups c))"
  using offers_keys [OF assms(2) [unfolded class_forwarders_def] assms(1,3)]
  by (simp add: delegate_call_def split: option.split)

lemma accepted_class:
  assumes "class_laid_out c" "well_named c" "import_delegate c = Inr d"
  shows "distinct (map ig_name (class_groups c))" "d = delegate_class c"
proof -
  obtain ifs where "class_interface_pack (import_class_decl c) = Inr ifs"
    using assms(3) by (cases "class_interface_pack (import_class_decl c)") (simp_all add: import_delegate_def)
  then have "distinct (map c_str (map ig_name (class_groups c)))" by (simp add: class_pack_groups [OF assms(1)] comp_def)
  then show "distinct (map ig_name (class_groups c))" by (simp only: distinct_map)
  show "d = delegate_class c" using assms(3) by (simp add: import_delegate_def split: sum.splits)
qed

lemma same_symbols:
  assumes "class_laid_out c" "well_named c" "import_delegate c = Inr d" "n \<notin> reserved c"
  shows "delegate_call d n k = map_option CallsMember (named_symbol (class_symbols c) n)"
    "async_delegate_call c n k = named_symbol (class_symbols c) n"
    "named_symbol (class_symbols c) n = Some s \<longleftrightarrow>
      (\<exists>g \<in> set (class_groups c). ig_name g = n \<and> s = group_symbol (Some (ic_name c)) g)"
proof -
  note acc = accepted_class [OF assms(1-3)]
    note found = class_symbol_find [OF acc(1) assms(4)]
  show "delegate_call d n k = map_option CallsMember (named_symbol (class_symbols c) n)"
    unfolding acc(2) forwarded_call [OF acc(1) import_delegate_offers [OF acc(1) assms(2)] assms(4)] found
    by (simp add: option.map_comp comp_def)
  show "async_delegate_call c n k = named_symbol (class_symbols c) n"
    unfolding async_delegate_call_def forwarded_call [OF acc(1) async_delegate_offers [OF acc(1) assms(2)] assms(4)] found
    by (simp add: group_symbol_def split: option.split)
  show "named_symbol (class_symbols c) n = Some s \<longleftrightarrow>
      (\<exists>g \<in> set (class_groups c). ig_name g = n \<and> s = group_symbol (Some (ic_name c)) g)"
    by (rule class_symbol_iff [OF acc(1) assms(4)])
qed

text \<open>
  C11: the three ways to name a member of an imported class agree. In a class the library accepts,
  whose members avoid the names the generated code takes for itself, the method of the delegate,
  the method of the asynchronous delegate and the symbol named through the class are those of the
  one group declared with the name, whether in the class or in an interface, for the receiver of that
  class; where no group has the name, none of the three compiles.
\<close>

theorem delegates_name_same_symbols:
  assumes "class_laid_out c" "well_named c" "import_delegate c = Inr d" "n \<notin> reserved c"
  shows "delegate_call d n k = map_option CallsMember (named_symbol (class_symbols c) n) \<and>
    async_delegate_call c n k = named_symbol (class_symbols c) n \<and>
    (named_symbol (class_symbols c) n = Some s \<longleftrightarrow>
      (\<exists>g \<in> set (class_groups c). ig_name g = n \<and> s = group_symbol (Some (ic_name c)) g))"
  by (intro conjI same_symbols [OF assms])

lemma generated_calls:
  assumes "class_laid_out c" "well_named c" "import_delegate c = Inr d" "n \<notin> reserved c"
    "strict_conversions conv" "no_placeholder conv actuals"
  shows "delegate_invoke cpp17 conv d n actuals invoke = Some m \<longleftrightarrow>
      (\<exists>g r ps. g \<in> set (class_groups c) \<and> ig_name g = n \<and> m = invoke r ps \<and> best_overload conv actuals (ig_contracts g) r ps)"
    "call_function cpp17 conv h actuals invoke = Some m \<longleftrightarrow>
      (\<exists>r ps. m = invoke r ps \<and> best_overload conv actuals (ig_contracts h) r ps)"
    "construct_class cpp17 conv constructors actuals build = Some m' \<longleftrightarrow>
      (\<exists>r ps. m' = build ps \<and> best_overload conv actuals (map (Contract (Named (ascii ''void''))) constructors) r ps)"
proof -
  note acc = accepted_class [OF assms(1-3)]
  note best = dispatch_best [OF assms(5,6)]
  note called = forwarded_call [OF acc(1) import_delegate_offers [OF acc(1) assms(2)] assms(4), folded acc(2)]
  have "delegate_invoke cpp17 conv d n actuals invoke = Some m \<longleftrightarrow>
      (\<exists>g \<in> set (class_groups c). ig_name g = n \<and> import_overload_dispatch cpp17 conv (overloads_of g) actuals invoke = Some m)"
  proof (cases "find (\<lambda>g. ig_name g = n) (class_groups c)")
    case None
    then have "\<forall>g \<in> set (class_groups c). ig_name g \<noteq> n" by (simp add: find_None_iff)
    with None show ?thesis by (auto simp: delegate_invoke_def called)
  next
    case (Some g)
    then have "h \<in> set (class_groups c) \<and> ig_name h = n \<longleftrightarrow> h = g" for h
      using find_distinct_iff [OF acc(1)] by (metis option.inject)
    moreover have "(\<exists>h \<in> set (class_groups c). ig_name h = n \<and> P h) \<longleftrightarrow>
        (\<exists>h. (h \<in> set (class_groups c) \<and> ig_name h = n) \<and> P h)" for P by blast
    ultimately have "(\<exists>h \<in> set (class_groups c). ig_name h = n \<and> P h) \<longleftrightarrow> P g" for P by simp
    then show ?thesis by (simp add: delegate_invoke_def called Some group_symbol_def)
  qed
  then show "delegate_invoke cpp17 conv d n actuals invoke = Some m \<longleftrightarrow>
      (\<exists>g r ps. g \<in> set (class_groups c) \<and> ig_name g = n \<and> m = invoke r ps \<and> best_overload conv actuals (ig_contracts g) r ps)"
    unfolding overloads_of_def best by blast
  show "call_function cpp17 conv h actuals invoke = Some m \<longleftrightarrow>
      (\<exists>r ps. m = invoke r ps \<and> best_overload conv actuals (ig_contracts h) r ps)"
    by (simp add: call_function_def overloads_of_def best)
  show "construct_class cpp17 conv constructors actuals build = Some m' \<longleftrightarrow>
      (\<exists>r ps. m' = build ps \<and> best_overload conv actuals (map (Contract (Named (ascii ''void''))) constructors) r ps)"
    by (simp add: construct_class_def best)
qed


text \<open>
  The check of unique names compares the members of a class with each other only. A method called
  \<open>object\<close>, \<open>context\<close> or \<open>receiver\<close> is accepted, and called without
  arguments it is the accessor of the delegate that runs: nothing is called on the other side.
\<close>

theorem accessor_hides_method:
  assumes "n \<in> ascii ` {''object'', ''context'', ''receiver''}" "ic_name c \<noteq> n"
  shows "delegate_call (delegate_class c) n 0 = Some CallsAccessor"
proof -
  have f: "OtherMember \<notin> set (declared_as n (forwarders s b))" for s b
    by (auto simp: declared_as_def forwarders_def)
  have "declared_as n (other_members ns) = []" if "n \<notin> ascii ` set ns" for ns
    using that by (auto simp: other_members_def)
  then show ?thesis using assms f [of "class_symbols c" "ic_block c"]
    by (elim imageE insertE emptyE) (simp_all add: delegate_class_def delegate_call_def other_members_def accessors_def)
qed

subsection \<open>An example\<close>

text \<open>A counter with a method \<open>add\<close> for each kind of number and a method of an interface.\<close>

definition sample_readable :: import_interface where
  "sample_readable = \<lparr>ii_type = 0, ii_name = ascii ''readable'',
     ii_block = \<lparr>ib_begin = 2, ib_end = 6, ib_groups = [\<lparr>ig_line = 3, ig_name = ascii ''value'', ig_contracts = [Contract int_type []]\<rparr>]\<rparr>\<rparr>"

definition sample_counter :: "string \<Rightarrow> import_class" where
  "sample_counter name = \<lparr>ic_name = ascii ''counter'', ic_interfaces = [sample_readable],
     ic_block = \<lparr>ib_begin = 8, ib_end = 14, ib_groups =
       [\<lparr>ig_line = 10, ig_name = ascii name,
         ig_contracts = [Contract int_type [ValueParam int_type], Contract double_type [ValueParam double_type]]\<rparr>]\<rparr>\<rparr>"

lemma sample_counter_laid_out: "class_laid_out (sample_counter name)"
  by (simp add: class_laid_out_def sample_counter_def sample_readable_def laid_out_def)

lemma sample_counter_well_named: "well_named (sample_counter ''add'')"
proof -
  have "0 \<notin> set (ascii ''value'')" "0 \<notin> set (ascii ''add'')" by (simp_all add: ascii_def)
  then show ?thesis
    by (simp add: well_named_def class_groups_def sample_counter_def sample_readable_def reserved_def generated_names_def)
qed

lemma sample_counter_accepted:
  assumes "0 \<notin> set (ascii name)" "name \<noteq> ''value''"
  shows "import_delegate (sample_counter name) = Inr (delegate_class (sample_counter name))"
proof -
  have "0 \<notin> set (ascii ''value'')" by (simp add: ascii_def)
  then have "distinct (map (\<lambda>g. c_str (ig_name g)) (class_groups (sample_counter name)))"
    using assms by (simp add: class_groups_def sample_counter_def sample_readable_def c_str_ascii)
  moreover have "distinct (map ii_type (ic_interfaces (sample_counter name)))" by (simp add: sample_counter_def)
  ultimately have "class_interface_pack (import_class_decl (sample_counter name)) =
      Inr (somes (cd_interfaces (import_class_decl (sample_counter name))))"
    unfolding class_pack_groups [OF sample_counter_laid_out] by simp
  then show ?thesis by (simp add: import_delegate_def)
qed

lemmas sample_add = sample_counter_laid_out [of "''add''"] sample_counter_well_named

theorem delegates_name_same_symbols_witness:
  "async_delegate_call (sample_counter ''add'') (ascii ''value'') 0 =
     Some \<lparr>ms_receiver = Some (ascii ''counter''), ms_name = ascii ''value'', ms_overloads = [Contract int_type [], UnmatchedContract]\<rparr>"
proof -
  have a: "import_delegate (sample_counter ''add'') = Inr (delegate_class (sample_counter ''add''))"
    by (rule sample_counter_accepted) (simp_all add: ascii_def)
  have n: "ascii ''value'' \<notin> reserved (sample_counter ''add'')"
    by (simp add: reserved_def generated_names_def sample_counter_def sample_readable_def)
  show ?thesis
    using delegates_name_same_symbols [OF sample_add a n, of 0]
    by (simp add: class_groups_def sample_counter_def sample_readable_def group_symbol_def overloads_of_def)
qed


theorem accessor_hides_method_witness:
  "import_delegate (sample_counter ''object'') = Inr (delegate_class (sample_counter ''object'')) \<and>
   delegate_call (delegate_class (sample_counter ''object'')) (ascii ''object'') 0 = Some CallsAccessor"
proof
  show "import_delegate (sample_counter ''object'') = Inr (delegate_class (sample_counter ''object''))"
    by (rule sample_counter_accepted) (simp_all add: ascii_def)
  show "delegate_call (delegate_class (sample_counter ''object'')) (ascii ''object'') 0 = Some CallsAccessor"
    by (rule accessor_hides_method) (simp_all add: sample_counter_def)
qed

end
