(* ===== verification/Proxies.thy ===== *)
theory Proxies
  imports Scopes ClassRegistration
begin

section \<open>Proxies of exported classes\<close>

text \<open>
  What the declaration table generates for an exported class (\<open>dynabridge/export_generate.h\<close>): a
  proxy that holds the native object, with a method and a member tag for each group, those of its
  interfaces inherited from mixins; and what a registered member then calls, through
  \<open>export_member_forwarder\<close> (\<open>export_core.h\<close>).
\<close>

record export_interface =
  ei_name :: bytes
  ei_groups :: "member_group list"

text \<open>A class with the table entry the library checks it by.\<close>

record export_class =
  ec_name :: bytes
  ec_interfaces :: "export_interface list"
  ec_items :: "class_item list"
  ec_decl :: class_decl

text \<open>
  A group becomes a function template for objects that are not \<open>const\<close>, one for those that
  are, and a class named after it. Other functions of the proxy take no arguments.
\<close>

datatype proxy_decl =
    OtherProxyMember
  | ProxyAccessor
  | MemberTag bytes
  | ForwardsNative bool bytes

definition tag_name :: "bytes \<Rightarrow> bytes" where
  "tag_name n = n @ ascii ''_member''"

definition group_members :: "member_group \<Rightarrow> (bytes \<times> proxy_decl) list" where
  "group_members g =
     [(fst g, ForwardsNative False (fst g)), (fst g, ForwardsNative True (fst g)), (tag_name (fst g), MemberTag (fst g))]"

definition proxy_members :: "string list \<Rightarrow> (bytes \<times> proxy_decl) list" where
  "proxy_members ns = map (\<lambda>n. (ascii n, OtherProxyMember)) ns"

definition export_mixin :: "export_interface \<Rightarrow> proxy_decl scope" where
  "export_mixin i =
     Scope (((ei_name i, OtherProxyMember) # proxy_members [''receiver_t''] @ [(ascii ''receiver'', ProxyAccessor)]) @
       concat (map group_members (ei_groups i))) []"

definition export_pack_scope :: "export_class \<Rightarrow> proxy_decl scope" where
  "export_pack_scope c =
     Scope (proxy_members [''checked_interface_pack'']) [Scope (proxy_members [''unchecked_interface_pack''])
       (map (\<lambda>i. Scope (proxy_members [''interface_base'']) [export_mixin i]) (ec_interfaces c) @
        [Scope (proxy_members [''interface_base'']) []])]"

definition export_proxy :: "export_class \<Rightarrow> proxy_decl scope" where
  "export_proxy c =
     Scope (((ec_name c @ ascii ''_proxy'', OtherProxyMember) #
         proxy_members [''class_t'', ''native_t'', ''bridge_direction'', ''symbol_name'', ''register_all'', ''native_''] @
         [(ascii ''native'', ProxyAccessor), (ascii ''native'', ProxyAccessor)]) @
       concat (map group_members (item_groups (ec_items c)))) [export_pack_scope c]"

definition proxy_class :: "export_class \<Rightarrow> pack_error list + proxy_decl scope" where
  "proxy_class c =
     (case class_interface_pack (ec_decl c) of Inl errors \<Rightarrow> Inl errors | Inr ifs \<Rightarrow> Inr (export_proxy c))"

text \<open>
  \<open>proxy.name(args...)\<close>: the name of the native object's method that is called. Only the
  templates for \<open>const\<close> objects can be called on one; on any other object the other template is
  the better match; and a function that is no template is better than both.
\<close>

definition is_tag :: "proxy_decl \<Rightarrow> bool" where
  "is_tag m = (case m of MemberTag t \<Rightarrow> True | _ \<Rightarrow> False)"

definition template_for :: "bool \<Rightarrow> proxy_decl \<Rightarrow> bool" where
  "template_for cnst m = (case m of ForwardsNative k t \<Rightarrow> k = cnst | _ \<Rightarrow> False)"

definition proxy_call :: "proxy_decl scope \<Rightarrow> bool \<Rightarrow> bytes \<Rightarrow> nat \<Rightarrow> bytes option" where
  "proxy_call p cnst n args =
     (case member_lookup n p of
        Found ms \<Rightarrow>
          if OtherProxyMember \<in> set ms \<or> list_ex is_tag ms then None
          else if args = 0 \<and> ProxyAccessor \<in> set ms then None
          else (case filter (template_for cnst) ms of
              [ForwardsNative _ k] \<Rightarrow> Some k
            | _ \<Rightarrow> None)
      | _ \<Rightarrow> None)"

text \<open>
  A member is registered with the class \<open>name_member\<close> found in the proxy; called, it calls
  the method it is named after on the receiver.
\<close>

definition forwarded_member :: "proxy_decl scope \<Rightarrow> bytes \<Rightarrow> nat \<Rightarrow> bytes option" where
  "forwarded_member p n args =
     (case member_lookup (tag_name n) p of
        Found [MemberTag m] \<Rightarrow> proxy_call p False m args
      | _ \<Rightarrow> None)"

subsection \<open>Registered members call the native object\<close>

text \<open>The groups of a class, and the table they come from.\<close>

definition export_groups :: "export_class \<Rightarrow> member_group list" where
  "export_groups c = item_groups (ec_items c) @ concat (map ei_groups (ec_interfaces c))"

definition table_of :: "export_class \<Rightarrow> bool" where
  "table_of c \<longleftrightarrow>
     block (cd_methods (ec_decl c)) \<and> block_members (cd_methods (ec_decl c)) = map fst (item_groups (ec_items c)) \<and>
     list_all2 (\<lambda>d i. block (if_methods d) \<and> block_members (if_methods d) = map fst (ei_groups i))
       (somes (cd_interfaces (ec_decl c))) (ec_interfaces c)"

text \<open>The names the generated code takes for itself, among them that of each member tag.\<close>

definition proxy_names :: "export_class \<Rightarrow> bytes set" where
  "proxy_names c = set ((ec_name c @ ascii ''_proxy'') # map ei_name (ec_interfaces c) @ map ascii
     [''receiver_t'', ''receiver'', ''checked_interface_pack'', ''unchecked_interface_pack'', ''interface_base'', ''class_t'',
      ''native_t'', ''bridge_direction'', ''symbol_name'', ''register_all'', ''native_'', ''native''])"

definition proxy_well_named :: "export_class \<Rightarrow> bool" where
  "proxy_well_named c \<longleftrightarrow>
     list_all (\<lambda>n. 0 \<notin> set n \<and> n \<notin> proxy_names c \<and> tag_name n \<notin> proxy_names c \<and> tag_name n \<notin> set (map fst (export_groups c)))
       (map fst (export_groups c))"

lemma tag_name_inject [simp]: "tag_name m = tag_name n \<longleftrightarrow> m = n"
  by (simp add: tag_name_def)

lemma keys_group_members: "fst ` set (concat (map group_members gs)) = set (map fst gs) \<union> tag_name ` set (map fst gs)"
  by (induction gs) (auto simp: group_members_def)

lemma declared_group:
  assumes "distinct (map fst gs)" "n \<in> set (map fst gs)" "\<forall>m \<in> set (map fst gs). tag_name m \<notin> set (map fst gs)"
  shows "declared_as n (concat (map group_members gs)) = [ForwardsNative False n, ForwardsNative True n]"
    "declared_as (tag_name n) (concat (map group_members gs)) = [MemberTag n]"
proof -
  have absent: "declared_as k (concat (map group_members hs)) = []" if "k \<notin> set (map fst hs) \<union> tag_name ` set (map fst hs)" for k hs
    using that unfolding declared_as_Nil keys_group_members .
  obtain g gs1 gs2 where gs: "gs = gs1 @ g # gs2" "fst g = n" using assms(2) by (auto dest: split_list)
  have ne: "tag_name k \<noteq> n" "tag_name n \<noteq> k" if "k \<in> set (map fst gs)" for k using assms(2,3) that by auto
  have out: "declared_as k (concat (map group_members hs)) = []"
    if "set (map fst hs) \<subseteq> set (map fst gs)" "n \<notin> set (map fst hs)" "k = n \<or> k = tag_name n" for hs k
  proof (rule absent)
    note outer = that
    have "k \<notin> set (map fst hs)" using that ne(2) by blast
    moreover have "k \<noteq> tag_name m" if m: "m \<in> set (map fst hs)" for m
    proof (cases "k = n")
      case True
      have "m \<in> set (map fst gs)" using m outer(1) by blast
      from ne(1) [OF this] True show ?thesis by metis
    next
      case False
      then have "k = tag_name n" using outer(3) by blast
      moreover have "m \<noteq> n" using m outer(2) by blast
      ultimately show ?thesis by simp
    qed
    ultimately show "k \<notin> set (map fst hs) \<union> tag_name ` set (map fst hs)" by blast
  qed
  have "set (map fst gs1) \<subseteq> set (map fst gs)" "set (map fst gs2) \<subseteq> set (map fst gs)"
    "n \<notin> set (map fst gs1)" "n \<notin> set (map fst gs2)" using assms(1) gs by auto
  then have "declared_as n (concat (map group_members gs1)) = []" "declared_as n (concat (map group_members gs2)) = []"
    "declared_as (tag_name n) (concat (map group_members gs1)) = []" "declared_as (tag_name n) (concat (map group_members gs2)) = []"
    by (simp_all only: out simp_thms)
  moreover have "tag_name n \<noteq> n" using ne assms(2) by blast
  ultimately show "declared_as n (concat (map group_members gs)) = [ForwardsNative False n, ForwardsNative True n]"
    "declared_as (tag_name n) (concat (map group_members gs)) = [MemberTag n]"
    by (simp_all add: gs group_members_def del: declared_as_Nil)
qed

lemma group_members_apart:
  assumes "distinct (map fst (concat gss))"
    "\<forall>m \<in> set (map fst (concat gss)). tag_name m \<notin> set (map fst (concat gss))"
  shows "apart (map (\<lambda>gs. concat (map group_members gs)) gss)"
  using assms
proof (induction gss)
  case (Cons gs gss)
  let ?N = "set (map fst gs)" and ?M = "set (map fst (concat gss))"
  have all: "set (map fst (concat (gs # gss))) = ?N \<union> ?M" by simp
  have d: "?N \<inter> ?M = {}" "distinct (map fst (concat gss))"
    using Cons.prems(1) by (simp_all only: concat.simps map_append distinct_append)
  have t: "\<forall>m \<in> ?N \<union> ?M. tag_name m \<notin> ?N \<union> ?M" using Cons.prems(2) unfolding all .
  have "(?N \<union> tag_name ` ?N) \<inter> (set (map fst hs) \<union> tag_name ` set (map fst hs)) = {}" if "hs \<in> set gss" for hs
  proof -
    have "set (map fst hs) \<subseteq> ?M" using that by auto
    with d(1) t show ?thesis by (auto simp only: tag_name_inject Un_iff image_iff) 
  qed
  moreover have "apart (map (\<lambda>gs. concat (map group_members gs)) gss)" using d(2) t by (intro Cons.IH) auto
  ultimately show ?case by (simp only: list.map apart_simps keys_group_members list.set_map ball_simps) blast
qed simp

lemma table_blocks:
  assumes "table_of c"
  shows "block (cd_methods (ec_decl c))" "list_all (\<lambda>d. block (if_methods d)) (somes (cd_interfaces (ec_decl c)))"
  using assms by (auto simp: table_of_def list_all_iff list_all2_conv_all_nth in_set_conv_nth)

lemma table_members:
  assumes "table_of c"
  shows "class_members (ec_decl c) = map fst (concat (map ei_groups (ec_interfaces c)) @ item_groups (ec_items c))"
proof -
  have t: "block_members (cd_methods (ec_decl c)) = map fst (item_groups (ec_items c))"
    "list_all2 (\<lambda>d i. block (if_methods d) \<and> block_members (if_methods d) = map fst (ei_groups i))
       (somes (cd_interfaces (ec_decl c))) (ec_interfaces c)" using assms by (simp_all add: table_of_def)
  have "list_all2 (\<lambda>x y. x = y) (map (\<lambda>d. block_members (if_methods d)) (somes (cd_interfaces (ec_decl c))))
      (map (\<lambda>i. map fst (ei_groups i)) (ec_interfaces c))"
    using t(2) by (simp add: list_all2_map1 list_all2_map2 list_all2_mono)
  then have "map (\<lambda>d. block_members (if_methods d)) (somes (cd_interfaces (ec_decl c))) =
      map (\<lambda>i. map fst (ei_groups i)) (ec_interfaces c)" by (simp only: list.rel_eq)
  then show ?thesis by (simp add: class_members_def t(1) map_concat comp_def)
qed

lemma class_pack_table:
  assumes "table_of c" "proxy_well_named c" "class_interface_pack (ec_decl c) = Inr ifs"
  shows "distinct (map fst (export_groups c))"
proof -
  have "mset (map c_str (class_members (ec_decl c))) = mset (map c_str (map fst (export_groups c)))"
    by (simp add: table_members [OF assms(1)] export_groups_def)
  moreover have "distinct (map c_str (class_members (ec_decl c)))"
    using assms(3) class_pack_iff [OF table_blocks [OF assms(1)]] by blast
  ultimately have "distinct (map c_str (map fst (export_groups c)))" by (metis mset_eq_imp_distinct_iff)
  then show ?thesis by (simp only: distinct_map)
qed

lemmas proxy_name_defs = proxy_members_def proxy_names_def

lemma export_proxy_offers:
  assumes "distinct (map fst (export_groups c))" "proxy_well_named c"
  shows "offers (proxy_names c) (export_proxy c) (concat (map group_members (export_groups c)))"
proof -
  let ?D = "\<lambda>gs. concat (map group_members gs)" and ?own = "item_groups (ec_items c)" and ?gss = "map ei_groups (ec_interfaces c)"
  have clear: "\<forall>m \<in> set (map fst (export_groups c)). tag_name m \<notin> set (map fst (export_groups c))"
    using assms(2) by (simp add: proxy_well_named_def list_all_iff)
  have "apart (map ?D (?own # ?gss))" "apart (map ?D [?own, concat ?gss])"
    using assms(1) clear by (intro group_members_apart; simp add: export_groups_def)+
  then have ap: "apart (map ?D ?gss)" "apart [?D ?own, concat (map ?D ?gss)]" by (simp_all add: map_concat comp_def)
  have m: "offers (proxy_names c) (export_mixin i) (?D (ei_groups i))" if "i \<in> set (ec_interfaces c)" for i
    unfolding export_mixin_def using that by (intro offers_leaf) (auto simp: proxy_name_defs)
  have "offers (proxy_names c) (export_pack_scope c) (concat [concat (map (\<lambda>i. ?D (ei_groups i)) (ec_interfaces c) @ [[]])])"
    unfolding export_pack_scope_def using ap(1)
    by (intro offers_wrapper list.rel_intros offers_mixins m) (auto simp: proxy_name_defs comp_def)
  then have "offers (proxy_names c) (export_proxy c)
      (?D ?own @ concat [concat [concat (map (\<lambda>i. ?D (ei_groups i)) (ec_interfaces c) @ [[]])]])"
    unfolding export_proxy_def using ap(2)
    by (intro offers_scope) (auto simp: proxy_name_defs comp_def)
  moreover have "concat (map (\<lambda>i. ?D (ei_groups i)) is) = ?D (concat (map ei_groups is))" for "is" :: "export_interface list"
    by (induction "is") simp_all
  ultimately show ?thesis by (simp add: export_groups_def)
qed

text \<open>
  The forwarder registered for a group, whether of the class or of one of its interfaces, finds that
  group's member tag and through it the method of the proxy that calls the native method of the same
  name, with any number of arguments; the method is reached on \<open>const\<close> objects as well.
\<close>

lemma registered_members_call_native:
  assumes "table_of c" "proxy_well_named c" "proxy_class c = Inr p" "n \<in> set (map fst (export_groups c))"
  shows "forwarded_member p n args = Some n" "proxy_call p cnst n args = Some n"
proof -
  obtain ifs where pack: "class_interface_pack (ec_decl c) = Inr ifs" and p: "p = export_proxy c"
    using assms(3) by (auto simp: proxy_class_def split: sum.splits)
  note d = class_pack_table [OF assms(1,2) pack]
  have w: "n \<notin> proxy_names c" "tag_name n \<notin> proxy_names c"
    "\<forall>m \<in> set (map fst (export_groups c)). tag_name m \<notin> set (map fst (export_groups c))"
    using assms(2,4) by (auto simp: proxy_well_named_def list_all_iff)
  note found = export_proxy_offers [OF d assms(2), folded p, unfolded offers_def, rule_format]
  have m: "member_lookup n p = Found [ForwardsNative False n, ForwardsNative True n]"
    "member_lookup (tag_name n) p = Found [MemberTag n]"
    unfolding found [OF w(1)] found [OF w(2)] declared_group [OF d assms(4) w(3)] by simp_all
  show call: "proxy_call p cnst n args = Some n" for cnst
    by (cases cnst) (simp_all add: proxy_call_def m is_tag_def template_for_def)
  show "forwarded_member p n args = Some n" by (simp add: forwarded_member_def m call)
qed


text \<open>An exported counter with one method of its own and one of an interface.\<close>

definition sample_exported :: export_class where
  "sample_exported =
     \<lparr>ec_name = ascii ''counter'',
      ec_interfaces = [\<lparr>ei_name = ascii ''readable'', ei_groups = [(ascii ''value'', [int_signature 0])]\<rparr>],
      ec_items = [DeclConstructor [], DeclMembers (ascii ''add'') [int_signature 1, int_signature 2]],
      ec_decl = \<lparr>cd_interfaces = [Some \<lparr>if_type = 0, if_methods = sample_block 3 [ascii ''value'']\<rparr>, None],
        cd_methods = sample_block 10 [ascii ''add'']\<rparr>\<rparr>"

lemma sample_exported_table: "table_of sample_exported"
  by (simp add: table_of_def sample_exported_def block_def sample_block_def block_members_def declared_between_def
      map_filter_def item_groups_def)

lemma sample_exported_groups: "map fst (export_groups sample_exported) = [ascii ''add'', ascii ''value'']"
  by (simp add: export_groups_def sample_exported_def item_groups_def)

lemma ascii_append: "ascii s @ ascii t = ascii (s @ t)"
  by (simp add: ascii_def)

lemma sample_exported_named: "proxy_well_named sample_exported"
proof -
  have "0 \<notin> set (ascii ''value'')" "0 \<notin> set (ascii ''add'')" by (simp_all add: ascii_def)
  then show ?thesis unfolding proxy_well_named_def sample_exported_groups
    by (simp add: proxy_names_def sample_exported_def tag_name_def ascii_append)
qed

lemma sample_exported_accepted: "proxy_class sample_exported = Inr (export_proxy sample_exported)"
proof -
  have b: "block (cd_methods (ec_decl sample_exported))"
    "list_all (\<lambda>i. block (if_methods i)) (somes (cd_interfaces (ec_decl sample_exported)))"
    by (simp_all add: sample_exported_def sample_block_def block_def)
  have "class_members (ec_decl sample_exported) = [ascii ''value'', ascii ''add'']"
    by (simp add: sample_exported_def class_members_def block_members_def sample_block_def declared_between_def map_filter_def)
  moreover have "0 \<notin> set (ascii ''value'')" "0 \<notin> set (ascii ''add'')" by (simp_all add: ascii_def)
  ultimately have "distinct (map c_str (class_members (ec_decl sample_exported)))" by (simp add: c_str_ascii)
  then have "class_interface_pack (ec_decl sample_exported) = Inr (somes (cd_interfaces (ec_decl sample_exported)))"
    unfolding class_pack_iff [OF b] by (simp add: sample_exported_def)
  then show ?thesis by (simp add: proxy_class_def)
qed


end
