(* ===== verification/TypedImport.thy ===== *)
theory TypedImport
  imports ImportSelect Bindable
begin

section \<open>Typed imports\<close>

text \<open>
  Imports a program writes without a declaration table: \<open>import_callable\<close>,
  \<open>import_constructor\<close> and the groups made of them (\<open>dynabridge/import_callable.h\<close>), down to
  \<open>backend_base::invoke\<close> (\<open>backend_base.h\<close>). What matters here is decided when the program is
  compiled: the assertions of each layer and the choice among the contracts of a group.
\<close>

subsection \<open>What the context and the backend offer\<close>

text \<open>
  Whether a context names a backend, and whether that derives from \<open>backend_base\<close>;
  \<open>converter<T>::to\<close> for an expression, \<open>converter<R>::from\<close> for the dynamic type, if there is
  one; and the constructor of an imported object. Types of expressions are references: an rvalue of
  type \<open>T\<close> is a \<open>T&&\<close>. \<open>fw_init\<close> says whether an expression initialises a value.
\<close>

record forward_types =
  fw_backend :: "bool option"
  fw_to :: "ctype \<Rightarrow> ctype \<Rightarrow> bool"
  fw_dynamic :: "ctype option"
  fw_from :: "ctype \<Rightarrow> ctype \<Rightarrow> bool"
  fw_object :: "ctype \<Rightarrow> ctype list \<Rightarrow> bool"
  fw_init :: "ctype \<Rightarrow> ctype \<Rightarrow> bool"

definition is_context_legal :: "forward_types \<Rightarrow> bool" where
  "is_context_legal fw = (case fw_backend fw of None \<Rightarrow> False | Some derived \<Rightarrow> derived)"

text \<open>\<open>std::declval<T>()\<close>, and \<open>std::move\<close> of a parameter declared with a type.\<close>

definition declval :: "ctype \<Rightarrow> ctype" where
  "declval t = (if is_reference t then t else RvalueRef t)"

definition moved :: "ctype \<Rightarrow> ctype" where
  "moved t = RvalueRef (remove_reference t)"

definition to_cast_exists :: "forward_types \<Rightarrow> ctype \<Rightarrow> ctype \<Rightarrow> bool" where
  "to_cast_exists fw t e = fw_to fw (decay t) e"

text \<open>A receiver is passed as an lvalue; \<open>None\<close> stands for \<open>no_receiver_t\<close>.\<close>

definition receiver_casts :: "forward_types \<Rightarrow> ctype option \<Rightarrow> bool" where
  "receiver_casts fw receiver = (case receiver of None \<Rightarrow> True | Some t \<Rightarrow> to_cast_exists fw t (LvalueRef t))"

definition is_forward_invocable :: "forward_types \<Rightarrow> ctype option \<Rightarrow> ctype list \<Rightarrow> bool" where
  "is_forward_invocable fw receiver params \<longleftrightarrow>
     are_bridge_params_valid params \<and> receiver_casts fw receiver \<and>
     list_all (\<lambda>t. to_cast_exists fw t (declval t)) params"

text \<open>
  For \<open>void\<close> there are two specialisations; where the backend has a dynamic type both match and
  neither is more special, which is an error (\<open>None\<close>). A call without a result does not ask.
\<close>

definition is_forward_result_convertible :: "forward_types \<Rightarrow> ctype \<Rightarrow> bool option" where
  "is_forward_result_convertible fw r =
     (case fw_dynamic fw of
        None \<Rightarrow> Some (if r = void_type then True else \<not> is_reference r)
      | Some d \<Rightarrow> if r = void_type then None else Some (\<not> is_reference r \<and> fw_from fw r d))"

definition is_forward_constructible :: "forward_types \<Rightarrow> ctype \<Rightarrow> ctype list \<Rightarrow> bool" where
  "is_forward_constructible fw receiver params \<longleftrightarrow>
     are_bridge_params_valid params \<and> list_all (\<lambda>t. to_cast_exists fw t (declval t)) params \<and>
     fw_object fw receiver (map declval params)"

subsection \<open>The layers of a call\<close>

datatype import_error =
    ResultIsReference
  | ContextNotLegal
  | NotForwardInvocable
  | ResultNotConvertible
  | NotForwardConstructible
  | BackendNotInvocable
  | ArgumentNotMovable

text \<open>
  \<open>backend_base::invoke\<close>, as its template arguments are deduced: its parameters are values,
  initialised from the arguments, and each is moved into the conversion.
\<close>

definition backend_is_invocable :: "forward_types \<Rightarrow> ctype option \<Rightarrow> ctype list \<Rightarrow> bool" where
  "backend_is_invocable fw receiver deduced \<longleftrightarrow>
     receiver_casts fw receiver \<and> list_all (\<lambda>t. to_cast_exists fw t (declval t)) deduced"

definition backend_invoke_errors :: "forward_types \<Rightarrow> ctype option \<Rightarrow> ctype \<Rightarrow> ctype list \<Rightarrow> import_error list" where
  "backend_invoke_errors fw receiver r arguments =
     (let deduced = map decay arguments in
      (if r \<noteq> void_type \<and> is_reference r then [ResultIsReference] else []) @
      (if \<not> list_all2 (fw_init fw) deduced arguments then [ArgumentNotMovable] else []) @
      (if \<not> backend_is_invocable fw receiver deduced then [BackendNotInvocable] else []))"

text \<open>\<open>import_callable::invoke\<close>: its own assertions, then those of the backend it calls.\<close>

definition import_callable_errors :: "forward_types \<Rightarrow> ctype option \<Rightarrow> signature \<Rightarrow> import_error list" where
  "import_callable_errors fw receiver sg =
     (if is_reference (sg_result sg) then [ResultIsReference] else []) @
     (if \<not> is_context_legal fw then [ContextNotLegal] else []) @
     (if \<not> is_forward_invocable fw receiver (sg_params sg) then [NotForwardInvocable] else []) @
     (if sg_result sg \<noteq> void_type \<and> is_forward_result_convertible fw (sg_result sg) \<noteq> Some True then [ResultNotConvertible] else [])"

definition import_callable_invoke :: "forward_types \<Rightarrow> ctype option \<Rightarrow> signature \<Rightarrow> import_error list" where
  "import_callable_invoke fw receiver sg =
     import_callable_errors fw receiver sg @
     backend_invoke_errors fw receiver (sg_result sg) (map moved (sg_params sg))"

text \<open>\<open>import_constructor::construct\<close>: the checks ask about the declared types, the call moves the parameters.\<close>

definition import_constructor_errors :: "forward_types \<Rightarrow> ctype \<Rightarrow> ctype list \<Rightarrow> import_error list" where
  "import_constructor_errors fw receiver params =
     (if \<not> is_context_legal fw then [ContextNotLegal] else []) @
     (if \<not> is_forward_constructible fw receiver params then [NotForwardConstructible] else [])"

definition import_constructor_construct :: "forward_types \<Rightarrow> ctype \<Rightarrow> ctype list \<Rightarrow> import_error list" where
  "import_constructor_construct fw receiver params =
     import_constructor_errors fw receiver params @
     (if \<not> fw_object fw receiver (map moved params) then [ArgumentNotMovable] else [])"

text \<open>The declared type of a parameter that is a value.\<close>

definition declared_param :: "bridge_param \<Rightarrow> ctype" where
  "declared_param p = (case p of ValueParam t \<Rightarrow> t | ObjectParam k \<Rightarrow> Named k | CallableParam g \<Rightarrow> Named g)"

subsection \<open>Groups\<close>

text \<open>
  A group brings the functions \<open>invoke\<close> of its contracts into scope, each with the declared
  parameters. Before C++17 the chain of bases ends in a deleted function without any parameter, which
  never is a candidate, since every call passes the context.
\<close>

definition typed_contract :: "signature \<Rightarrow> import_contract" where
  "typed_contract sg = Contract (sg_result sg) (map ValueParam (sg_params sg))"

definition import_callable_group_select :: "'a conversions \<Rightarrow> signature list \<Rightarrow> 'a list \<Rightarrow> selection" where
  "import_callable_group_select conv sgs actuals =
     (let fs = filter (viable conv actuals) (map (\<lambda>sg. Selects (sg_result sg) (map ValueParam (sg_params sg))) sgs) in
      case best_of conv actuals fs of
        [] \<Rightarrow> if fs = [] then NoMatch else Ambiguous
      | f # _ \<Rightarrow> (case f of Selects r ps \<Rightarrow> Selected r ps | DeletedFunction qs \<Rightarrow> UseOfDeleted))"

text \<open>A call of the group; \<open>None\<close> is a program the compiler rejects.\<close>

definition import_callable_group_invoke ::
    "forward_types \<Rightarrow> 'a conversions \<Rightarrow> ctype option \<Rightarrow> signature list \<Rightarrow> 'a list \<Rightarrow> (ctype \<Rightarrow> bridge_param list \<Rightarrow> 'r) \<Rightarrow> 'r option" where
  "import_callable_group_invoke fw conv receiver sgs actuals invoke =
     (case import_callable_group_select conv sgs actuals of
        Selected r ps \<Rightarrow>
          if import_callable_invoke fw receiver \<lparr>sg_result = r, sg_params = map declared_param ps\<rparr> = []
          then Some (invoke r ps) else None
      | _ \<Rightarrow> None)"

definition import_constructor_group_construct ::
    "forward_types \<Rightarrow> 'a conversions \<Rightarrow> ctype \<Rightarrow> ctype list list \<Rightarrow> 'a list \<Rightarrow> (bridge_param list \<Rightarrow> 'r) \<Rightarrow> 'r option" where
  "import_constructor_group_construct fw conv receiver constructors actuals build =
     (case import_callable_group_select conv (map (\<lambda>ts. \<lparr>sg_result = receiver, sg_params = ts\<rparr>) constructors) actuals of
        Selected r ps \<Rightarrow>
          if import_constructor_construct fw receiver (map declared_param ps) = [] then Some (build ps) else None
      | _ \<Rightarrow> None)"

subsection \<open>Typed imports against generated ones\<close>

text \<open>
  Converters of the backends take a value by \<open>const&\<close>, or by value: whether
  \<open>to\<close> takes an expression does not depend on its being an rvalue.
\<close>

definition uniform_converters :: "forward_types \<Rightarrow> bool" where
  "uniform_converters fw \<longleftrightarrow> (\<forall>t e e'. decay e = decay e' \<longrightarrow> fw_to fw t e = fw_to fw t e')"

lemma decay_simps [simp]:
  "decay (RvalueRef t) = remove_const t" "decay (LvalueRef t) = remove_const t"
  by (simp_all add: decay_def)

lemma decay_declval [simp]: "decay (declval t) = decay t"
  by (cases t) (simp_all add: declval_def decay_def)

lemma decay_moved [simp]: "decay (moved t) = decay t"
  by (simp add: moved_def decay_def)

text \<open>What the layers of a call add to the first layer's assertions, when parameters can be moved.\<close>

definition movable :: "forward_types \<Rightarrow> ctype \<Rightarrow> bool" where
  "movable fw t \<longleftrightarrow> fw_init fw (decay t) (moved t)"

text \<open>C++ has no references to references, and \<open>const\<close> neither twice nor outside of a reference.\<close>

fun cxx_type :: "ctype \<Rightarrow> bool" where
  "cxx_type (ConstType t) = (\<not> is_reference t \<and> \<not> is_const t \<and> cxx_type t)"
| "cxx_type (LvalueRef t) = (\<not> is_reference t \<and> cxx_type t)"
| "cxx_type (RvalueRef t) = (\<not> is_reference t \<and> cxx_type t)"
| "cxx_type t = True"

lemma bare_decay: "\<not> is_reference t \<Longrightarrow> \<not> is_const t \<Longrightarrow> decay t = t"
  by (cases t) (simp_all add: decay_def)

lemma bare_remove_const: "cxx_type t \<Longrightarrow> \<not> is_reference t \<Longrightarrow> \<not> is_reference (remove_const t) \<and> \<not> is_const (remove_const t)"
  by (cases t) simp_all

lemma decay_idem:
  assumes "cxx_type t"
  shows "decay (decay t) = decay t"
proof -
  have "cxx_type (remove_reference t)" "\<not> is_reference (remove_reference t)" using assms by (cases t; simp)+
  from bare_remove_const [OF this] show ?thesis by (simp add: bare_decay decay_def [of t])
qed

lemma backend_adds_nothing:
  assumes "uniform_converters fw" "import_callable_errors fw receiver sg = []"
    "\<forall>t \<in> set (sg_params sg). cxx_type t \<and> movable fw t"
  shows "import_callable_invoke fw receiver sg = []"
proof -
  have own: "\<not> is_reference (sg_result sg)" "receiver_casts fw receiver"
    "\<forall>t \<in> set (sg_params sg). to_cast_exists fw t (declval t)"
    using assms(2) by (auto simp: import_callable_errors_def is_forward_invocable_def list_all_iff split: if_splits)
  have "to_cast_exists fw (decay t) (declval (decay t))" if "t \<in> set (sg_params sg)" for t
  proof -
    have d: "decay (decay t) = decay t" using assms(3) that decay_idem by blast
    then have "decay (declval (decay t)) = decay (declval t)" by simp
    with assms(1) have "fw_to fw (decay t) (declval (decay t)) = fw_to fw (decay t) (declval t)"
      unfolding uniform_converters_def by blast
    with own(3) that d show ?thesis by (simp add: to_cast_exists_def)
  qed
  then have "backend_is_invocable fw receiver (map decay (map moved (sg_params sg)))"
    using own(2) by (simp add: backend_is_invocable_def list_all_iff)
  moreover have "list_all2 (fw_init fw) (map decay (map moved (sg_params sg))) (map moved (sg_params sg))"
    using assms(3) by (simp add: list_all2_map1 list_all2_map2 list.rel_refl_strong movable_def)
  ultimately show ?thesis using own(1) assms(2) by (simp add: import_callable_invoke_def backend_invoke_errors_def Let_def)
qed

lemma group_select_eq:
  "import_callable_group_select conv sgs actuals = import_select True conv (map typed_contract sgs) actuals"
proof -
  have "selector_group True (map typed_contract sgs) = map (\<lambda>sg. Selects (sg_result sg) (map ValueParam (sg_params sg))) sgs"
    by (induction sgs) (simp_all add: typed_contract_def contract_selector_def)
  then show ?thesis by (simp add: import_callable_group_select_def import_select_def)
qed

lemma group_select_generated:
  assumes "strict_conversions conv" "no_placeholder conv actuals"
  shows "import_callable_group_select conv sgs actuals =
      import_select cpp17 conv (map typed_contract sgs @ [UnmatchedContract]) actuals"
  unfolding group_select_eq
  by (rule import_select_cong [OF assms(1)]) (simp add: viable_set_contracts [OF assms(2)])


text \<open>The overloads of the example, with a backend that converts integers and floating-point numbers.\<close>

definition sample_forward :: forward_types where
  "sample_forward =
     \<lparr>fw_backend = Some True, fw_to = (\<lambda>t e. t = int_type \<or> t = double_type), fw_dynamic = Some (Named [1]),
      fw_from = (\<lambda>r d. True), fw_object = (\<lambda>r es. True), fw_init = (\<lambda>t e. True)\<rparr>"

definition sample_typed :: "signature list" where
  "sample_typed = [\<lparr>sg_result = int_type, sg_params = [int_type]\<rparr>, \<lparr>sg_result = double_type, sg_params = [double_type]\<rparr>]"

lemma sample_forward_uniform: "uniform_converters sample_forward"
  by (simp add: uniform_converters_def sample_forward_def)

lemma sample_typed_movable: "\<forall>sg \<in> set sample_typed. \<forall>t \<in> set (sg_params sg). cxx_type t \<and> movable sample_forward t"
  by (simp add: sample_typed_def sample_forward_def movable_def int_type_def double_type_def)

lemma sample_typed_dispatch:
  "import_overload_dispatch False sample_conversions (map typed_contract sample_typed @ [UnmatchedContract]) [1] (\<lambda>r ps. (r, ps)) =
     Some (double_type, [ValueParam double_type])"
proof -
  have "import_select False sample_conversions (map typed_contract sample_typed @ [UnmatchedContract]) [1] =
      Selected double_type [ValueParam double_type]"
    by (rule import_select_iff [THEN iffD2, OF sample_strict sample_no_placeholder])
      (use sample_types in \<open>auto simp: sample_typed_def typed_contract_def contract_matches_def sample_conversions_def argument_converts_def
        import_parameter_of_def better_contract_def better_candidate_def contract_selector_def candidate_params_def\<close>)
  then show ?thesis by (simp add: import_overload_dispatch_def)
qed

lemma sample_forward_accepts:
  "import_callable_errors sample_forward None \<lparr>sg_result = double_type, sg_params = map declared_param [ValueParam double_type]\<rparr> = []"
  by (simp add: import_callable_errors_def is_context_legal_def is_forward_invocable_def sample_forward_def declared_param_def
      are_bridge_params_valid_def is_bad_bridge_param_def receiver_casts_def to_cast_exists_def is_forward_result_convertible_def
      double_type_def void_type_def decay_def)


end
