(* ===== verification/RpcLegacy.thy ===== *)
theory RpcLegacy
  imports RpcBackend
begin

section \<open>How a route calls its binder\<close>

text \<open>
  A route of the RPC router is erased over the type of its binder (\<open>route::invoke_binder\<close> of
  \<open>backends/rpc.h\<close>). A binder of the library whose backend opted into probing may consume the
  router's arguments. Any other binder is a legacy one: a binder of one signature gets copies, after the
  router compared the number of arguments, and a binder of overloads reads the arguments through a
  constant accessor.
\<close>

datatype 'w rpc_binder =
    Transactional "(rpc_value, rpc_native, 'w) overload list"
  | LegacyTyped nat "rpc_value list \<Rightarrow> ('w, rpc_value option) action"
  | LegacyOverloads "nat \<Rightarrow> accessor \<Rightarrow> (rpc_value list \<times> 'w, rpc_value option) action"

definition invoke_typed ::
    "nat \<Rightarrow> (rpc_value list \<Rightarrow> ('w, rpc_value option) action) \<Rightarrow> (rpc_value list \<times> 'w, rpc_value option) action" where
  "invoke_typed arity call_optional s =
     (if length (fst s) \<noteq> arity then (Return None, s) else on_snd (call_optional (fst s)) s)"

definition route_invoke_binder ::
    "bool \<Rightarrow> (nat \<Rightarrow> nat list) \<Rightarrow> 'w rpc_binder \<Rightarrow> (rpc_value list \<times> 'w, rpc_value option) action" where
  "route_invoke_binder ex order binder s =
     (case binder of
        Transactional ovs \<Rightarrow> binder_dispatch_optional ex True order default_value ovs (length (fst s)) consuming_vector_accessor s
      | LegacyTyped arity call_optional \<Rightarrow> invoke_typed arity call_optional s
      | LegacyOverloads dispatch_optional \<Rightarrow> dispatch_optional (length (fst s)) vector_accessor s)"

text \<open>The transactional case is the binder the router model is built on.\<close>

lemma route_invoke_transactional:
  "(case route_invoke_binder ex order (Transactional ovs) (args, w) of (r, (_, w')) \<Rightarrow> (r, w')) = rpc_invoke_binder ex order ovs args w"
  by (simp add: route_invoke_binder_def rpc_invoke_binder_def)

text \<open>What a dispatch returns does not depend on whether it consumes.\<close>

lemma dispatch_meaning_keeps:
  assumes "dispatch_meaning undef True scs (ds, w) = (r, (ds', w'))"
  shows "dispatch_meaning undef False scs (ds, w) = (r, (ds, w'))"
  using assms
  by (auto simp: dispatch_meaning_def act_bind_def on_snd_def act_return_def split: option.splits prod.splits outcome.splits)

lemma transactional_meaning:
  assumes "evaluation_order order" "\<forall>sc \<in> set scs. lawful_contract sc"
  shows "route_invoke_binder ex order (Transactional (map overload_of scs)) (args, w) =
      dispatch_meaning default_value True scs (args, w)"
  using export_dispatch_eq [OF assms refl, of consuming_vector_accessor args True ex default_value w]
  by (simp add: route_invoke_binder_def binder_dispatch_optional_def consuming_vector_accessor_def)

lemma legacy_binders:
  assumes "evaluation_order order" "\<forall>sc \<in> set scs. lawful_contract sc" "lawful_contract sc"
  shows "route_invoke_binder ex order (Transactional (map overload_of scs)) (args, w) = (r, (args', w')) \<Longrightarrow>
      route_invoke_binder ex order (LegacyOverloads (\<lambda>argc acc. binder_dispatch_optional ex opted order default_value (map overload_of scs) argc acc))
        (args, w) = (r, (args, w'))"
    and "route_invoke_binder ex order (Transactional [overload_of sc]) (args, w) = (r, (args', w')) \<Longrightarrow>
      route_invoke_binder ex order
        (LegacyTyped (callable_arity (overload_of sc)) (binder_call_optional ex True order default_value [overload_of sc]))
        (args, w) = (r, (args, w'))"
proof -
  assume "route_invoke_binder ex order (Transactional (map overload_of scs)) (args, w) = (r, (args', w'))"
  then have "dispatch_meaning default_value False scs (args, w) = (r, (args, w'))"
    using transactional_meaning [OF assms(1,2)] dispatch_meaning_keeps by metis
  then show "route_invoke_binder ex order (LegacyOverloads (\<lambda>argc acc. binder_dispatch_optional ex opted order default_value (map overload_of scs) argc acc))
        (args, w) = (r, (args, w'))"
    using export_dispatch_eq [OF assms(1,2) refl, of vector_accessor args opted ex default_value w]
    by (simp add: route_invoke_binder_def binder_dispatch_optional_def vector_accessor_def)
next
  have l: "\<forall>c \<in> set [sc]. lawful_contract c" using assms(3) by simp
  assume t: "route_invoke_binder ex order (Transactional [overload_of sc]) (args, w) = (r, (args', w'))"
  then have m: "dispatch_meaning default_value True [sc] (args, w) = (r, (args', w'))"
    using transactional_meaning [OF assms(1) l, of ex args w] by simp
  show "route_invoke_binder ex order
        (LegacyTyped (callable_arity (overload_of sc)) (binder_call_optional ex True order default_value [overload_of sc]))
        (args, w) = (r, (args, w'))"
  proof (cases "length args = callable_arity (overload_of sc)")
    case True
    have "export_overload_dispatch ex True order default_value (tuple_export_arg_accessor (length args))
        (map overload_of [sc]) (length args) (args, w) = (r, (args', w'))"
      using export_dispatch_eq [OF assms(1) l refl, of "tuple_export_arg_accessor (length args)" args True ex default_value w] m
      by (simp add: tuple_export_arg_accessor_def)
    then have c: "binder_call_optional ex True order default_value [overload_of sc] args w = (r, w')"
      by (simp only: binder_call_optional_def with_tuple_def list.map split_conv)
    from True show ?thesis by (simp add: route_invoke_binder_def invoke_typed_def on_snd_def c)
  next
    case False
    then have "r = Return None" "w' = w"
      using t by (auto simp: route_invoke_binder_def binder_dispatch_optional_def act_return_def)
    with False show ?thesis by (simp add: route_invoke_binder_def invoke_typed_def)
  qed
qed


text \<open>A function of one integer, called with an integer and with none.\<close>

definition sample_contract :: "nat rpc_contract" where
  "sample_contract = \<lparr>rc_args = [TInt], rc_result = Some TInt, rc_callable = (\<lambda>xs w. (Return (hd xs), Suc w))\<rparr>"


end
